(* ===== verification/CC_Prelude.thy ===== *)
theory CC_Prelude
  imports Main "HOL-Library.AList" "HOL-Library.Char_ord" "HOL-Library.List_Lexorder"
    "HOL-Library.Word"
begin

text \<open>
  Shared vocabulary of the development: the collections of rewrite rules the component
  theories extend, the bounds and the two's-complement wrap-around of \<^verbatim>\<open>int64_t\<close>, the
  character classes of the C locale, and the generic facts on lists, association lists
  and strings that more than one component uses.
\<close>

section \<open>Collections\<close>

named_theorems int64_arith \<open>definitions that expose the 64-bit range conditions\<close>
named_theorems codec \<open>decoding undoes encoding, in front of arbitrary remaining input\<close>
named_theorems store_abs \<open>effect of an operation on the abstract view of the store\<close>
named_theorems wf_preserved \<open>operations that keep a component invariant\<close>

section \<open>64-bit signed integers\<close>

definition int64_max :: int where
  "int64_max = 9223372036854775807"

definition int64_min :: int where
  "int64_min = -9223372036854775808"

definition int64_ok :: "int \<Rightarrow> bool" where
  "int64_ok x \<longleftrightarrow> int64_min \<le> x \<and> x \<le> int64_max"

definition wrap64 :: "int \<Rightarrow> int" where
  "wrap64 x = (x + 9223372036854775808) mod 18446744073709551616 - 9223372036854775808"

definition add64 :: "int \<Rightarrow> int \<Rightarrow> int" where
  "add64 a b = wrap64 (a + b)"

definition sub64 :: "int \<Rightarrow> int \<Rightarrow> int" where
  "sub64 a b = wrap64 (a - b)"

definition mul64 :: "int \<Rightarrow> int \<Rightarrow> int" where
  "mul64 a b = wrap64 (a * b)"

declare int64_max_def [int64_arith] int64_min_def [int64_arith] int64_ok_def [int64_arith]

lemma wrap64_id [simp]: "int64_ok x \<Longrightarrow> wrap64 x = x"
  by (simp add: wrap64_def int64_arith)

lemma wrap64_ok [simp]: "int64_ok (wrap64 x)"
proof -
  have "0 \<le> (x + 9223372036854775808) mod 18446744073709551616"
    "(x + 9223372036854775808) mod 18446744073709551616 < 18446744073709551616"
    by simp_all
  then show ?thesis
    unfolding wrap64_def int64_arith by linarith
qed

lemma add64_id: "int64_ok (a + b) \<Longrightarrow> add64 a b = a + b"
  by (simp add: add64_def)

lemma sub64_id: "int64_ok (a - b) \<Longrightarrow> sub64 a b = a - b"
  by (simp add: sub64_def)

lemma mul64_id: "int64_ok (a * b) \<Longrightarrow> mul64 a b = a * b"
  by (simp add: mul64_def)

section \<open>Characters\<close>

definition byte :: "char \<Rightarrow> nat" where
  "byte c = of_char c"

definition CR :: char where
  "CR = char_of (13::nat)"

definition LF :: char where
  "LF = char_of (10::nat)"

definition crlf :: string where
  "crlf = [CR, LF]"

definition is_digit :: "char \<Rightarrow> bool" where
  "is_digit c \<longleftrightarrow> 48 \<le> byte c \<and> byte c \<le> 57"

definition is_space :: "char \<Rightarrow> bool" where
  "is_space c \<longleftrightarrow> byte c = 32 \<or> (9 \<le> byte c \<and> byte c \<le> 13)"

definition digit_val :: "char \<Rightarrow> nat" where
  "digit_val c = byte c - 48"

definition digit_char :: "nat \<Rightarrow> char" where
  "digit_char d = char_of (48 + d)"

definition to_lower :: "char \<Rightarrow> char" where
  "to_lower c = (if 65 \<le> byte c \<and> byte c \<le> 90 then char_of (byte c + 32) else c)"

definition to_upper :: "char \<Rightarrow> char" where
  "to_upper c = (if 97 \<le> byte c \<and> byte c \<le> 122 then char_of (byte c - 32) else c)"

lemma byte_less [simp]: "byte c < 256"
  unfolding byte_def using of_char_mod_256 [of c] by (metis mod_less_divisor zero_less_numeral)

lemma byte_char_of [simp]: "n < 256 \<Longrightarrow> byte (char_of n) = n"
  by (simp add: byte_def)

lemma char_of_byte [simp]: "char_of (byte c) = c"
  by (simp add: byte_def)

lemma byte_inject [simp]: "byte a = byte b \<longleftrightarrow> a = b"
  by (metis char_of_byte)

lemma byte_CR [simp]: "byte CR = 13"
  by (simp add: CR_def)

lemma byte_LF [simp]: "byte LF = 10"
  by (simp add: LF_def)

lemma CR_neq_LF [simp]: "CR \<noteq> LF" "LF \<noteq> CR"
  by (simp_all flip: byte_inject)

lemma CR_neq_sign [simp]: "CR \<noteq> CHR ''-''" "LF \<noteq> CHR ''-''"
proof -
  have "byte CHR ''-'' = 45"
    by (simp add: byte_def)
  then show "CR \<noteq> CHR ''-''" "LF \<noteq> CHR ''-''"
    by (simp_all flip: byte_inject)
qed

lemma not_digit_CR [simp]: "\<not> is_digit CR" "\<not> is_digit LF"
  by (simp_all add: is_digit_def)

lemma digit_char_digit [simp]: "d < 10 \<Longrightarrow> is_digit (digit_char d)"
  by (simp add: is_digit_def digit_char_def)

lemma digit_val_char [simp]: "d < 10 \<Longrightarrow> digit_val (digit_char d) = d"
  by (simp add: digit_val_def digit_char_def)

lemma digit_char_val [simp]: "is_digit c \<Longrightarrow> digit_char (digit_val c) = c"
  by (simp add: is_digit_def digit_val_def digit_char_def)

lemma digit_val_less [simp]: "is_digit c \<Longrightarrow> digit_val c < 10"
  by (auto simp: is_digit_def digit_val_def)

lemma is_digit_not_space: "is_digit c \<Longrightarrow> \<not> is_space c"
  by (auto simp: is_digit_def is_space_def)

lemma minus_char [simp]: "\<not> is_digit (CHR ''-'')" "\<not> is_space (CHR ''-'')"
  by (simp_all add: is_digit_def is_space_def byte_def)

lemma plus_char [simp]: "\<not> is_digit (CHR ''+'')" "\<not> is_space (CHR ''+'')"
  by (simp_all add: is_digit_def is_space_def byte_def)

lemma to_lower_idem [simp]: "to_lower (to_lower c) = to_lower c"
proof (cases "65 \<le> byte c \<and> byte c \<le> 90")
  case True
  then have "byte (to_lower c) = byte c + 32"
    by (simp add: to_lower_def)
  with True show ?thesis
    by (simp add: to_lower_def)
qed (auto simp: to_lower_def)

section \<open>Lists and association lists\<close>

lemma takeWhile_stop: "list_all P xs \<Longrightarrow> \<not> P y \<Longrightarrow> takeWhile P (xs @ y # ys) = xs"
  by (induction xs) auto

lemma dropWhile_stop: "list_all P xs \<Longrightarrow> \<not> P y \<Longrightarrow> dropWhile P (xs @ y # ys) = y # ys"
  by (induction xs) auto

lemma takeWhile_all: "list_all P xs \<Longrightarrow> takeWhile P xs = xs"
  by (induction xs) auto

lemma dropWhile_all: "list_all P xs \<Longrightarrow> dropWhile P xs = []"
  by (induction xs) auto

lemma map_of_update [simp]: "map_of (AList.update k v al) = (map_of al)(k \<mapsto> v)"
  by (rule update_conv')

lemma map_of_delete [simp]: "map_of (AList.delete k al) = (map_of al)(k := None)"
  by (rule delete_conv')

lemma distinct_keys_update [simp, intro]:
  "distinct (map fst al) \<Longrightarrow> distinct (map fst (AList.update k v al))"
  by (rule distinct_update)

lemma distinct_keys_delete [simp, intro]:
  "distinct (map fst al) \<Longrightarrow> distinct (map fst (AList.delete k al))"
  by (rule distinct_delete)

lemma map_eq_SomeI: "(\<And>k v. m k = Some v \<longleftrightarrow> n k = Some v) \<Longrightarrow> m = n"
  by (rule ext) (metis option.exhaust)

lemma map_of_None_delete: "map_of al k = None \<Longrightarrow> AList.delete k al = al"
  by (induction al) (auto split: if_splits)

lemma length_delete_present:
  "distinct (map fst al) \<Longrightarrow> map_of al k \<noteq> None \<Longrightarrow> Suc (length (AList.delete k al)) = length al"
proof (induction al)
  case (Cons p al)
  show ?case
  proof (cases "fst p = k")
    case True
    with Cons.prems have "map_of al k = None"
      by (auto simp: map_of_eq_None_iff)
    with True show ?thesis
      by (simp add: map_of_None_delete)
  qed (use Cons in auto)
qed simp

lemma length_update:
  "length (AList.update k v al) = (if map_of al k = None then Suc (length al) else length al)"
  by (induction al) auto

end
