(* ===== verification/CC_Buffer.thy ===== *)
theory CC_Buffer
  imports CC_Prelude
begin

text \<open>
  The TCP buffer of \<^verbatim>\<open>src/src/network/buffer.cpp\<close>: a byte vector with a read and a write
  index.  The operations are the class's; \<^verbatim>\<open>compact\<close> moves the unread bytes with an element-wise
  in-place \<^verbatim>\<open>std::copy_backward\<close>, so a move between overlapping regions is visible in the model.
  The contract of the class is the interface \<open>byte_fifo\<close>: a first-in first-out byte stream.
\<close>

section \<open>The class\<close>

record buffer =
  bytes :: "char list"
  reader_idx :: nat
  writer_idx :: nat

definition Buffer :: buffer where
  "Buffer = \<lparr>bytes = [], reader_idx = 0, writer_idx = 0\<rparr>"

definition readable_bytes :: "buffer \<Rightarrow> nat" where
  "readable_bytes b = writer_idx b - reader_idx b"

definition writable_bytes :: "buffer \<Rightarrow> nat" where
  "writable_bytes b = length (bytes b) - writer_idx b"

definition vector_resize :: "nat \<Rightarrow> char list \<Rightarrow> char list" where
  "vector_resize n xs = take n xs @ replicate (n - length xs) (char_of (0::nat))"

definition ensure_writable :: "nat \<Rightarrow> buffer \<Rightarrow> buffer" where
  "ensure_writable len b =
     (if writable_bytes b < len then b\<lparr>bytes := vector_resize (writer_idx b + len) (bytes b)\<rparr> else b)"

definition std_copy :: "char list \<Rightarrow> nat \<Rightarrow> char list \<Rightarrow> char list" where
  "std_copy d pos xs = take pos xs @ d @ drop (pos + length d) xs"

definition append_bytes :: "string \<Rightarrow> buffer \<Rightarrow> buffer" where
  "append_bytes d b =
     (let b = ensure_writable (length d) b in
      b\<lparr>bytes := std_copy d (writer_idx b) (bytes b), writer_idx := writer_idx b + length d\<rparr>)"

text \<open>\<open>copy_backward xs first n dest\<close> copies the \<open>n\<close> elements from index \<open>first\<close> to index
  \<open>dest\<close>, last element first, inside one array.\<close>

fun copy_backward :: "char list \<Rightarrow> nat \<Rightarrow> nat \<Rightarrow> nat \<Rightarrow> char list" where
  "copy_backward xs first 0 dest = xs"
| "copy_backward xs first (Suc n) dest = copy_backward (xs[dest + n := xs ! (first + n)]) first n dest"

definition compact :: "buffer \<Rightarrow> buffer" where
  "compact b =
     (if reader_idx b = 0 then b
      else b\<lparr>bytes := copy_backward (bytes b) (reader_idx b) (writer_idx b - reader_idx b) 0,
             writer_idx := writer_idx b - reader_idx b, reader_idx := 0\<rparr>)"

definition retrieve :: "nat \<Rightarrow> buffer \<Rightarrow> buffer" where
  "retrieve len b =
     (let b = (if len > readable_bytes b then b\<lparr>reader_idx := writer_idx b\<rparr>
               else b\<lparr>reader_idx := reader_idx b + len\<rparr>) in
      if reader_idx b > length (bytes b) div 2 then compact b else b)"

definition retrieve_all :: "buffer \<Rightarrow> buffer" where
  "retrieve_all b = b\<lparr>reader_idx := 0, writer_idx := 0\<rparr>"

definition buffer_to_string :: "buffer \<Rightarrow> string" where
  "buffer_to_string b = take (readable_bytes b) (drop (reader_idx b) (bytes b))"

definition buffer_ok :: "buffer \<Rightarrow> bool" where
  "buffer_ok b \<longleftrightarrow> reader_idx b \<le> writer_idx b \<and> writer_idx b \<le> length (bytes b)"

section \<open>The in-place move\<close>

lemma copy_backward_length [simp]: "length (copy_backward xs first n dest) = length xs"
  by (induction xs first n dest rule: copy_backward.induct) simp_all

lemma copy_backward_outside:
  "i < dest \<or> dest + n \<le> i \<Longrightarrow> copy_backward xs first n dest ! i = xs ! i"
  by (induction xs first n dest rule: copy_backward.induct) (auto simp: nth_list_update)

lemma copy_backward_disjoint:
  assumes "dest + n \<le> first" "first + n \<le> length xs" "i < n"
  shows "copy_backward xs first n dest ! (dest + i) = xs ! (first + i)"
  using assms
proof (induction xs first n dest rule: copy_backward.induct)
  case (2 xs first n dest)
  show ?case
  proof (cases "i = n")
    case True
    with 2 show ?thesis
      by (simp add: copy_backward_outside)
  next
    case False
    with 2 show ?thesis
      by (simp add: nth_list_update)
  qed
qed simp

lemma copy_backward_take:
  assumes "n \<le> first" "first + n \<le> length xs"
  shows "take n (copy_backward xs first n 0) = take n (drop first xs)"
  using assms copy_backward_disjoint [of 0 n first xs] by (auto intro!: nth_equalityI)

section \<open>The buffer is a byte stream\<close>

lemma buffer_view_simps:
  "buffer_to_string Buffer = []" "buffer_ok Buffer"
  by (simp_all add: buffer_to_string_def Buffer_def readable_bytes_def buffer_ok_def)

lemma length_buffer_to_string: "buffer_ok b \<Longrightarrow> length (buffer_to_string b) = readable_bytes b"
  by (auto simp: buffer_to_string_def readable_bytes_def buffer_ok_def)

lemma ensure_writable_view:
  assumes "buffer_ok b"
  shows "buffer_to_string (ensure_writable n b) = buffer_to_string b"
    "buffer_ok (ensure_writable n b)"
    "writer_idx (ensure_writable n b) + n \<le> length (bytes (ensure_writable n b))"
    "writer_idx (ensure_writable n b) = writer_idx b" "reader_idx (ensure_writable n b) = reader_idx b"
  using assms
  by (auto simp: ensure_writable_def buffer_to_string_def buffer_ok_def readable_bytes_def
      writable_bytes_def vector_resize_def)

lemma std_copy_view:
  assumes "r \<le> w" "w + length d \<le> length xs"
  shows "take (w + length d - r) (drop r (std_copy d w xs)) = take (w - r) (drop r xs) @ d"
proof -
  define A where "A = drop r (take w xs)"
  have A: "length A = w - r" "A = take (w - r) (drop r xs)"
    using assms by (auto simp: A_def drop_take)
  have "drop r (std_copy d w xs) = A @ d @ drop (w + length d) xs"
    using assms by (simp add: std_copy_def A_def min_def)
  moreover have "w + length d - r = length A + length d"
    using assms A by simp
  ultimately show ?thesis
    using A(2) by simp
qed

lemma append_bytes_view:
  assumes "buffer_ok b"
  shows "buffer_to_string (append_bytes d b) = buffer_to_string b @ d" "buffer_ok (append_bytes d b)"
proof -
  define c where "c = ensure_writable (length d) b"
  have c: "buffer_ok c" "writer_idx c + length d \<le> length (bytes c)"
    "buffer_to_string c = buffer_to_string b"
    using ensure_writable_view [OF assms, of "length d"] by (simp_all add: c_def)
  from c(1) have "reader_idx c \<le> writer_idx c"
    by (simp add: buffer_ok_def)
  from std_copy_view [OF this c(2)]
  have "buffer_to_string (append_bytes d b) = buffer_to_string c @ d"
    by (simp add: append_bytes_def Let_def buffer_to_string_def readable_bytes_def flip: c_def)
  with c(3) show "buffer_to_string (append_bytes d b) = buffer_to_string b @ d"
    by simp
  from c show "buffer_ok (append_bytes d b)"
    by (auto simp: append_bytes_def Let_def buffer_ok_def std_copy_def simp flip: c_def)
qed

lemma compact_view:
  assumes "buffer_ok b" "length (bytes b) < 2 * reader_idx b"
  shows "buffer_to_string (compact b) = buffer_to_string b" "buffer_ok (compact b)"
proof -
  have "writer_idx b - reader_idx b \<le> reader_idx b"
    "reader_idx b + (writer_idx b - reader_idx b) \<le> length (bytes b)" "reader_idx b \<noteq> 0"
    using assms by (auto simp: buffer_ok_def)
  from copy_backward_take [OF this(1,2)] assms this(3)
  show "buffer_to_string (compact b) = buffer_to_string b" "buffer_ok (compact b)"
    by (auto simp: compact_def buffer_to_string_def readable_bytes_def buffer_ok_def)
qed

lemma retrieve_view:
  assumes "buffer_ok b"
  shows "buffer_to_string (retrieve n b) = drop n (buffer_to_string b)" "buffer_ok (retrieve n b)"
proof -
  define c where "c = (if n > readable_bytes b then b\<lparr>reader_idx := writer_idx b\<rparr>
                       else b\<lparr>reader_idx := reader_idx b + n\<rparr>)"
  have c: "buffer_to_string c = drop n (buffer_to_string b)" "buffer_ok c"
    using assms
    by (auto simp: c_def buffer_to_string_def readable_bytes_def buffer_ok_def drop_take add.commute)
  have r: "retrieve n b = (if reader_idx c > length (bytes c) div 2 then compact c else c)"
    by (simp add: retrieve_def Let_def c_def)
  have "reader_idx c > length (bytes c) div 2 \<Longrightarrow> length (bytes c) < 2 * reader_idx c"
    by linarith
  with c compact_view [OF c(2)]
  show "buffer_to_string (retrieve n b) = drop n (buffer_to_string b)" "buffer_ok (retrieve n b)"
    unfolding r by simp_all
qed

lemma retrieve_all_view: "buffer_to_string (retrieve_all b) = []" "buffer_ok (retrieve_all b)"
  by (simp_all add: retrieve_all_def buffer_to_string_def readable_bytes_def buffer_ok_def)

section \<open>The interface the connection and the parser use\<close>

datatype fifo_op = Op_append string | Op_retrieve nat | Op_retrieve_all

fun stream_op :: "fifo_op \<Rightarrow> string \<Rightarrow> string" where
  "stream_op (Op_append d) s = s @ d"
| "stream_op (Op_retrieve n) s = drop n s"
| "stream_op Op_retrieve_all s = []"

fun buffer_op :: "fifo_op \<Rightarrow> buffer \<Rightarrow> buffer" where
  "buffer_op (Op_append d) b = append_bytes d b"
| "buffer_op (Op_retrieve n) b = retrieve n b"
| "buffer_op Op_retrieve_all b = retrieve_all b"

locale byte_fifo =
  fixes new :: 'b
    and app :: "string \<Rightarrow> 'b \<Rightarrow> 'b"
    and retr :: "nat \<Rightarrow> 'b \<Rightarrow> 'b"
    and retr_all :: "'b \<Rightarrow> 'b"
    and view :: "'b \<Rightarrow> string"
    and ok :: "'b \<Rightarrow> bool"
  assumes new_ok: "ok new" and view_new: "view new = []"
    and app_ok: "ok b \<Longrightarrow> ok (app d b)" and view_app: "ok b \<Longrightarrow> view (app d b) = view b @ d"
    and retr_ok: "ok b \<Longrightarrow> ok (retr n b)" and view_retr: "ok b \<Longrightarrow> view (retr n b) = drop n (view b)"
    and retr_all_ok: "ok b \<Longrightarrow> ok (retr_all b)" and view_retr_all: "ok b \<Longrightarrow> view (retr_all b) = []"
begin

fun run_op :: "fifo_op \<Rightarrow> 'b \<Rightarrow> 'b" where
  "run_op (Op_append d) b = app d b"
| "run_op (Op_retrieve n) b = retr n b"
| "run_op Op_retrieve_all b = retr_all b"

lemma run_op_step: "ok b \<Longrightarrow> ok (run_op p b) \<and> view (run_op p b) = stream_op p (view b)"
  by (cases p) (simp_all add: app_ok view_app retr_ok view_retr retr_all_ok view_retr_all)

lemma run_ops_simulate:
  "ok b \<Longrightarrow> ok (fold run_op ps b) \<and> view (fold run_op ps b) = fold stream_op ps (view b)"
  by (induction ps arbitrary: b) (simp_all add: run_op_step)

lemma chunks_arrive_in_order: "ok b \<Longrightarrow> view (fold app ds b) = view b @ concat ds"
  by (induction ds arbitrary: b) (simp_all add: app_ok view_app)

lemma frame_then_rest: "ok b \<Longrightarrow> view b = frame @ rest \<Longrightarrow> view (retr (length frame) b) = rest"
  by (simp add: view_retr)

end

interpretation tcp_buffer: byte_fifo Buffer append_bytes retrieve retrieve_all buffer_to_string buffer_ok
  by unfold_locales
    (simp_all add: buffer_view_simps append_bytes_view retrieve_view retrieve_all_view)

lemma tcp_buffer_run_op: "tcp_buffer.run_op = buffer_op"
proof (intro ext)
  fix p b
  show "tcp_buffer.run_op p b = buffer_op p b"
    by (cases p) (simp_all add: tcp_buffer.run_op.simps)
qed

section \<open>Properties\<close>

text \<open>C31: whatever sequence of appends, partial reads (including reads of more than is available)
  and clears runs on a fresh buffer, its readable bytes are those of the ideal byte stream, and the
  indices stay ordered and inside the vector.\<close>

theorem buffer_refines_stream:
  "buffer_to_string (fold buffer_op ps Buffer) = fold stream_op ps [] \<and> buffer_ok (fold buffer_op ps Buffer)"
  using tcp_buffer.run_ops_simulate [OF buffer_view_simps(2), of ps]
  by (simp add: buffer_view_simps tcp_buffer_run_op)

text \<open>Whenever \<^verbatim>\<open>retrieve\<close> compacts, the unread bytes and the place they move to are disjoint, so
  the element-wise backward copy is defined and keeps every unread byte.\<close>

theorem compact_regions_disjoint:
  assumes "buffer_ok b" "reader_idx b > length (bytes b) div 2"
  shows "writer_idx b - reader_idx b \<le> reader_idx b \<and>
         buffer_to_string (compact b) = buffer_to_string b \<and> reader_idx (compact b) = 0"
proof -
  have "length (bytes b) < 2 * reader_idx b"
    using assms(2) by linarith
  moreover from this have "writer_idx b - reader_idx b \<le> reader_idx b"
    using assms(1) by (auto simp: buffer_ok_def)
  ultimately show ?thesis
    using compact_view [OF assms(1)] by (simp add: compact_def)
qed

theorem compact_regions_disjoint_witness:
  "buffer_to_string (compact \<lparr>bytes = ''abcde'', reader_idx = 3, writer_idx = 5\<rparr>) = ''de''"
proof -
  let ?b = "\<lparr>bytes = ''abcde'', reader_idx = 3, writer_idx = 5\<rparr> :: buffer"
  have "buffer_to_string ?b = ''de''"
    by (simp add: buffer_to_string_def readable_bytes_def)
  then show ?thesis
    using compact_regions_disjoint [of ?b] by (simp add: buffer_ok_def)
qed

end
