(* ===== verification/CC_Base.thy ===== *)
theory CC_Base
  imports CC_Prelude
begin

text \<open>
  The helpers of \<^verbatim>\<open>src/src/base\<close> that the command layer relies on, and the parts of the
  C++ standard library behind them: \<^verbatim>\<open>std::to_string\<close> on integers, \<^verbatim>\<open>std::from_chars\<close> and
  \<^verbatim>\<open>std::stoll\<close> in base ten, the strict parser of \<^verbatim>\<open>int_parse.h\<close> and the index clipping of
  \<^verbatim>\<open>range_clip.h\<close>.  Integers are HOL integers; the range of \<^verbatim>\<open>long long\<close> is a condition of the
  parsers, and arithmetic that could leave it goes through \<^const>\<open>wrap64\<close>.
\<close>

section \<open>Decimal text\<close>

fun to_dec :: "nat \<Rightarrow> string" where
  "to_dec n = (if n < 10 then [digit_char n] else to_dec (n div 10) @ [digit_char (n mod 10)])"

declare to_dec.simps [simp del]

definition to_string :: "int \<Rightarrow> string" where
  "to_string i = (if i < 0 then CHR ''-'' # to_dec (nat (- i)) else to_dec (nat i))"

definition dec_val :: "string \<Rightarrow> nat" where
  "dec_val ds = foldl (\<lambda>a c. 10 * a + digit_val c) 0 ds"

definition split_minus :: "string \<Rightarrow> bool \<times> string" where
  "split_minus s = (case s of [] \<Rightarrow> (False, []) | c # r \<Rightarrow> if c = CHR ''-'' then (True, r) else (False, s))"

definition signed_val :: "bool \<Rightarrow> string \<Rightarrow> int" where
  "signed_val neg ds = (if neg then - int (dec_val ds) else int (dec_val ds))"

text \<open>\<^verbatim>\<open>std::from_chars(first, last, long long&)\<close>: an optional minus sign and the longest run of
  digits; the result is the value and the unread suffix, or None when \<^verbatim>\<open>ec\<close> reports
  \<^verbatim>\<open>invalid_argument\<close> or \<^verbatim>\<open>result_out_of_range\<close>.\<close>

definition from_chars_ll :: "string \<Rightarrow> (int \<times> string) option" where
  "from_chars_ll s =
     (let (neg, r) = split_minus s; ds = takeWhile is_digit r; v = signed_val neg ds in
      if ds = [] \<or> \<not> int64_ok v then None else Some (v, dropWhile is_digit r))"

definition parse_ll_strict :: "string \<Rightarrow> int option" where
  "parse_ll_strict s =
     (if s = [] then None
      else case from_chars_ll s of None \<Rightarrow> None | Some (v, rest) \<Rightarrow> if rest = [] then Some v else None)"

text \<open>\<^verbatim>\<open>std::stoll(s, &pos)\<close>: leading white space, an optional sign and the longest run of
  digits; \<^verbatim>\<open>Inr (v, pos)\<close> is the value with the number of characters read.\<close>

datatype conv_exn = Invalid_argument | Out_of_range

definition stoll :: "string \<Rightarrow> conv_exn + (int \<times> nat)" where
  "stoll s =
     (let r0 = dropWhile is_space s;
          (neg, r) = (case r0 of [] \<Rightarrow> (False, []) | c # cs \<Rightarrow>
                        if c = CHR ''-'' then (True, cs) else if c = CHR ''+'' then (False, cs) else (False, r0));
          ds = takeWhile is_digit r; v = signed_val neg ds in
      if ds = [] then Inl Invalid_argument
      else if int64_ok v then Inr (v, length s - length (dropWhile is_digit r))
      else Inl Out_of_range)"

text \<open>\<^verbatim>\<open>std::stoi\<close>: \<^term>\<open>None\<close> is an exception; with the number of characters read where the caller asks for it.\<close>

definition stoi :: "string \<Rightarrow> int option" where
  "stoi s = (case stoll s of
     Inr (v, pos) \<Rightarrow> if -2147483648 \<le> v \<and> v \<le> 2147483647 then Some v else None | Inl e \<Rightarrow> None)"

definition stoi_pos :: "string \<Rightarrow> (int \<times> nat) option" where
  "stoi_pos s = (case stoll s of
     Inr (v, pos) \<Rightarrow> if -2147483648 \<le> v \<and> v \<le> 2147483647 then Some (v, pos) else None | Inl e \<Rightarrow> None)"

section \<open>Index clipping\<close>

text \<open>\<^verbatim>\<open>clip_range\<close>: None is the return value \<^verbatim>\<open>false\<close>; Some carries the two output parameters.\<close>

definition clip_range :: "nat \<Rightarrow> int \<Rightarrow> int \<Rightarrow> (int \<times> int) option" where
  "clip_range n start stop =
     (if n = 0 then None
      else let len = int n;
               actual_start = (if start < 0 then add64 len start else start);
               actual_stop = (if stop < 0 then add64 len stop else stop);
               actual_start = (if actual_start < 0 then 0 else actual_start) in
           if actual_stop < 0 then None
           else if actual_start \<ge> len then None
           else let actual_stop = (if actual_stop \<ge> len then sub64 len 1 else actual_stop) in
                if actual_start > actual_stop then None else Some (actual_start, actual_stop))"

text \<open>The documented meaning of an index: counted from the end when negative.\<close>

definition norm_index :: "nat \<Rightarrow> int \<Rightarrow> int" where
  "norm_index n i = (if i < 0 then int n + i else i)"

section \<open>Facts on decimal text\<close>

lemma to_dec_ne [simp]: "to_dec n \<noteq> []"
  by (subst to_dec.simps) simp

lemma to_dec_digits [simp]: "list_all is_digit (to_dec n)"
proof (induction n rule: to_dec.induct)
  case (1 n)
  then show ?case
    by (subst to_dec.simps) simp
qed

lemma dec_val_snoc [simp]: "dec_val (ds @ [c]) = 10 * dec_val ds + digit_val c"
  by (simp add: dec_val_def)

lemma dec_val_Nil [simp]: "dec_val [] = 0"
  by (simp add: dec_val_def)

lemma dec_val_to_dec [simp]: "dec_val (to_dec n) = n"
proof (induction n rule: to_dec.induct)
  case (1 n)
  then show ?case
  proof (cases "n < 10")
    case True
    then have "to_dec n = [] @ [digit_char n]"
      by (simp add: to_dec.simps)
    with True show ?thesis
      by (metis dec_val_snoc dec_val_Nil digit_val_char mult_0_right add_0)
  next
    case False
    with 1 show ?thesis
      by (subst to_dec.simps) simp
  qed
qed

lemma to_dec_inject [simp]: "to_dec m = to_dec n \<longleftrightarrow> m = n"
  by (metis dec_val_to_dec)

lemma to_dec_Cons: obtains c cs where "to_dec n = c # cs" "is_digit c"
  by (metis list.pred_inject(2) neq_Nil_conv to_dec_digits to_dec_ne)

lemma hd_to_dec_not_sign [simp]: "hd (to_dec n) \<noteq> CHR ''-''" "hd (to_dec n) \<noteq> CHR ''+''"
  "is_digit (hd (to_dec n))"
  by (metis list.sel(1) minus_char(1) to_dec_Cons) (metis list.sel(1) plus_char(1) to_dec_Cons,
    metis list.sel(1) to_dec_Cons)

lemma split_minus_to_dec [simp]: "split_minus (to_dec n @ r) = (False, to_dec n @ r)"
  by (rule to_dec_Cons [of n]) (auto simp: split_minus_def)

lemma split_minus_Cons [simp]: "split_minus (CHR ''-'' # r) = (True, r)"
  by (simp add: split_minus_def)

lemma to_dec_takeWhile [simp]:
  "\<not> is_digit c \<Longrightarrow> takeWhile is_digit (to_dec n @ c # r) = to_dec n"
  "takeWhile is_digit (to_dec n) = to_dec n"
  by (simp_all add: takeWhile_stop takeWhile_all)

lemma to_dec_dropWhile [simp]:
  "\<not> is_digit c \<Longrightarrow> dropWhile is_digit (to_dec n @ c # r) = c # r"
  "dropWhile is_digit (to_dec n) = []"
  by (simp_all add: dropWhile_stop dropWhile_all)

lemma signed_val_to_dec [simp]:
  "signed_val False (to_dec (nat i)) = (if i < 0 then 0 else i)"
  "signed_val True (to_dec (nat i)) = (if i < 0 then 0 else - i)"
  by (simp_all add: signed_val_def)

lemma to_string_inject [simp]: "to_string i = to_string j \<longleftrightarrow> i = j"
proof
  have ne: "CHR ''-'' # x \<noteq> to_dec n" for x n
    by (metis hd_to_dec_not_sign(1) list.sel(1))
  assume "to_string i = to_string j"
  then show "i = j"
    using ne ne [symmetric] by (auto simp: to_string_def split: if_splits)
qed simp

lemma from_chars_to_string [codec]:
  assumes "int64_ok v" "\<not> is_digit c"
  shows "from_chars_ll (to_string v @ c # r) = Some (v, c # r)"
  using assms by (auto simp: from_chars_ll_def to_string_def)

lemma from_chars_to_string_end [codec]:
  assumes "int64_ok v"
  shows "from_chars_ll (to_string v) = Some (v, [])"
proof -
  have "split_minus (to_dec n) = (False, to_dec n)" for n
    using split_minus_to_dec [of n "[]"] by simp
  with assms show ?thesis
    by (auto simp: from_chars_ll_def to_string_def)
qed

lemma to_string_ne [simp]: "to_string v \<noteq> []"
  by (simp add: to_string_def)

lemma to_string_hd: "hd (to_string v) = CHR ''-'' \<or> is_digit (hd (to_string v))"
  by (simp add: to_string_def)

lemma to_string_no_ctl: "c \<in> set (to_string v) \<Longrightarrow> c = CHR ''-'' \<or> is_digit c"
  using to_dec_digits by (auto simp: to_string_def list_all_iff split: if_splits)

lemma dropWhile_space_to_string [simp]: "dropWhile is_space (to_string v @ r) = to_string v @ r"
proof -
  have "\<not> is_space (hd (to_string v))"
    using to_string_hd [of v] is_digit_not_space by auto
  then show ?thesis
    by (cases "to_string v") auto
qed

lemma dropWhile_space_to_dec [simp]: "dropWhile is_space (to_dec n @ r) = to_dec n @ r"
  using dropWhile_space_to_string [of "int n" r] by (simp add: to_string_def)

lemma stoll_to_string [codec]:
  assumes "int64_ok v" "\<not> is_digit c"
  shows "stoll (to_string v @ c # r) = Inr (v, length (to_string v))"
proof (cases "v < 0")
  case True
  with assms show ?thesis
    by (simp add: stoll_def to_string_def)
next
  case False
  obtain d ds where d: "to_dec (nat v) = d # ds" "is_digit d"
    by (rule to_dec_Cons)
  then have "d \<noteq> CHR ''-''" "d \<noteq> CHR ''+''"
    by auto
  with False assms d show ?thesis
    using to_dec_takeWhile(1) [of c "nat v" r] to_dec_dropWhile(1) [of c "nat v" r]
      dropWhile_space_to_dec [of "nat v" "c # r"] signed_val_to_dec(1) [of v]
    by (simp add: stoll_def to_string_def Let_def del: signed_val_to_dec)
qed

lemma stoll_to_string_end [codec]:
  assumes "int64_ok v"
  shows "stoll (to_string v) = Inr (v, length (to_string v))"
proof (cases "v < 0")
  case True
  with assms dropWhile_space_to_string [of v "[]"] show ?thesis
    by (simp add: stoll_def to_string_def)
next
  case False
  obtain d ds where d: "to_dec (nat v) = d # ds" "is_digit d"
    by (rule to_dec_Cons)
  then have "d \<noteq> CHR ''-''" "d \<noteq> CHR ''+''"
    by auto
  with False assms d show ?thesis
    using to_dec_digits [of "nat v"] dropWhile_space_to_dec [of "nat v" "[]"] signed_val_to_dec(1) [of v]
    by (simp add: stoll_def to_string_def Let_def takeWhile_all dropWhile_all
          del: signed_val_to_dec takeWhile_eq_all_conv dropWhile_eq_Nil_conv)
qed

lemma parse_ll_strict_to_string [codec]: "int64_ok v \<Longrightarrow> parse_ll_strict (to_string v) = Some v"
  by (simp add: parse_ll_strict_def from_chars_to_string_end)

lemma dec_val_digits_bound: "list_all is_digit ds \<Longrightarrow> dec_val ds < 10 ^ length ds"
proof (induction ds rule: rev_induct)
  case (snoc c ds)
  then have "dec_val ds < 10 ^ length ds" "digit_val c < 10"
    by auto
  then show ?case
    by simp
qed simp

lemma parse_ll_strict_iff:
  "parse_ll_strict s = Some v \<longleftrightarrow>
   (\<exists>neg ds. ds \<noteq> [] \<and> list_all is_digit ds \<and> s = (if neg then ''-'' else []) @ ds \<and>
             v = signed_val neg ds \<and> int64_ok v)" (is "?L \<longleftrightarrow> ?R")
proof
  assume ?L
  then obtain neg r where sm: "split_minus s = (neg, r)" and tw: "takeWhile is_digit r \<noteq> []"
    and v: "v = signed_val neg (takeWhile is_digit r)" "int64_ok v" and dw: "dropWhile is_digit r = []"
    by (cases "split_minus s") (auto simp: parse_ll_strict_def from_chars_ll_def Let_def split: if_splits)
  from dw have r: "takeWhile is_digit r = r" "list_all is_digit r"
    by (metis append_Nil2 takeWhile_dropWhile_id, metis dropWhile_eq_Nil_conv list_all_iff)
  moreover have "s = (if neg then ''-'' else []) @ r"
    using sm by (auto simp: split_minus_def split: list.splits if_splits)
  ultimately show ?R
    using v tw by metis
next
  assume ?R
  then obtain neg ds where *: "ds \<noteq> []" "list_all is_digit ds" "s = (if neg then ''-'' else []) @ ds"
    "v = signed_val neg ds" "int64_ok v"
    by blast
  then have "split_minus s = (neg, ds)"
    by (cases ds) (auto simp: split_minus_def)
  with * show ?L
    by (cases neg) (auto simp: parse_ll_strict_def from_chars_ll_def takeWhile_all dropWhile_all)
qed

section \<open>Facts on index clipping\<close>

lemma norm_index_nonneg [simp]: "0 \<le> i \<Longrightarrow> norm_index n i = i"
  by (simp add: norm_index_def)

lemma clip_range_in_range:
  assumes "int64_ok (int n)" "int64_ok start" "int64_ok stop"
  shows "clip_range n start stop =
    (let a = max 0 (norm_index n start); b = min (norm_index n stop) (int n - 1) in
     if a \<le> b then Some (a, b) else None)"
  using assms
  by (auto simp: clip_range_def norm_index_def Let_def add64_id sub64_id int64_arith max_def min_def)

lemma clip_range_sound:
  assumes "clip_range n start stop = Some (a, b)" "int64_ok (int n)" "int64_ok start" "int64_ok stop"
  shows "0 \<le> a" "a \<le> b" "b < int n"
  using assms(1) unfolding clip_range_in_range [OF assms(2-4)]
  by (auto simp: Let_def split: if_splits)

end
