(* ===== verification/CC_Resp.thy ===== *)
theory CC_Resp
  imports CC_Base
begin

text \<open>
  The RESP protocol layer of \<^verbatim>\<open>src/src/protocol/resp.cpp\<close>: the encoders of \<^verbatim>\<open>RespEncoder\<close>, and
  the two passes of \<^verbatim>\<open>RespParser\<close> --- the scan \<^verbatim>\<open>has_complete_command\<close> that decides whether the
  input holds a whole command, and the recursive parse that consumes it --- with the header check
  \<^verbatim>\<open>has_protocol_error\<close>.  The input of the parser is the readable content of the connection's
  buffer; \<^verbatim>\<open>peek\<close> reads it and \<^verbatim>\<open>skip\<close> drops a prefix.  The counter \<^verbatim>\<open>array_depth_\<close> is the
  structural argument of the recursion, counted down from \<^verbatim>\<open>kMaxNestingDepth\<close>.
\<close>

section \<open>Values\<close>

datatype resp_value =
    SimpleString string
  | RespError string
  | RespInteger int
  | BulkString string
  | RespArray "resp_value list"

fun as_string :: "resp_value \<Rightarrow> string" where
  "as_string (SimpleString s) = s"
| "as_string (RespError s) = s"
| "as_string (BulkString s) = s"
| "as_string _ = []"

fun as_integer :: "resp_value \<Rightarrow> int" where
  "as_integer (RespInteger n) = n"
| "as_integer _ = 0"

fun as_array :: "resp_value \<Rightarrow> resp_value list" where
  "as_array (RespArray vs) = vs"
| "as_array _ = []"

fun nesting :: "resp_value \<Rightarrow> nat" where
  "nesting (RespArray vs) = Suc (foldr max (map nesting vs) 0)"
| "nesting _ = 0"

section \<open>Encoder\<close>

definition encode_simple_string :: "string \<Rightarrow> string" where
  "encode_simple_string s = ''+'' @ s @ crlf"

definition starts_with :: "string \<Rightarrow> string \<Rightarrow> bool" where
  "starts_with p s \<longleftrightarrow> take (length p) s = p"

definition encode_error :: "string \<Rightarrow> string" where
  "encode_error err =
     (if starts_with ''WRONGTYPE'' err \<or> starts_with ''ERR '' err then ''-'' @ err @ crlf
      else ''-ERR '' @ err @ crlf)"

definition encode_integer :: "int \<Rightarrow> string" where
  "encode_integer n = '':'' @ to_string n @ crlf"

definition encode_bulk_string :: "string \<Rightarrow> string" where
  "encode_bulk_string s = ''$'' @ to_string (int (length s)) @ crlf @ s @ crlf"

definition encode_null :: string where
  "encode_null = ''$-1'' @ crlf"

definition encode_ok :: string where
  "encode_ok = ''+OK'' @ crlf"

definition encode_nil :: string where
  "encode_nil = ''$-1'' @ crlf"

definition encode_array :: "string list \<Rightarrow> string" where
  "encode_array arr = foldl (\<lambda>result item. result @ encode_bulk_string item)
     (''*'' @ to_string (int (length arr)) @ crlf) arr"

definition encode_nested_array :: "string list list \<Rightarrow> string" where
  "encode_nested_array nested = foldl
     (\<lambda>result inner. foldl (\<lambda>r item. r @ encode_bulk_string item)
        (result @ ''*'' @ to_string (int (length inner)) @ crlf) inner)
     (''*'' @ to_string (int (length nested)) @ crlf) nested"

section \<open>Scanning\<close>

text \<open>The position of the first carriage return that a line feed follows.\<close>

fun find_crlf :: "string \<Rightarrow> nat option" where
  "find_crlf (a # b # r) =
     (if a = CR \<and> b = LF then Some 0 else map_option Suc (find_crlf (b # r)))"
| "find_crlf _ = None"

definition parse_int64_safe :: "string \<Rightarrow> int option" where
  "parse_int64_safe s =
     (if s = [] then None
      else case stoll s of Inl _ \<Rightarrow> None
           | Inr (v, idx) \<Rightarrow> if idx \<noteq> length s then None else Some v)"

definition kMaxBulk :: int where "kMaxBulk = 512 * 1024 * 1024"

definition kMaxArray :: int where "kMaxArray = 1024 * 1024"

text \<open>\<open>header data pos\<close> is the text between the type byte at \<open>pos\<close> and the end of its line, with
  the position behind the line.\<close>

definition header :: "string \<Rightarrow> nat \<Rightarrow> (string \<times> nat) option" where
  "header data pos =
     (case find_crlf (drop (pos + 1) data) of None \<Rightarrow> None
      | Some i \<Rightarrow> Some (take i (drop (pos + 1) data), pos + 1 + i + 2))"

function skip_nested :: "string \<Rightarrow> nat \<Rightarrow> nat \<Rightarrow> nat \<times> nat" where
  "skip_nested data depth pos =
     (if depth > 0 \<and> pos < length data
      then let depth = (if data ! pos = CHR ''*'' then depth + 1 else depth);
               depth = (if data ! pos = LF \<and> pos > 0 \<and> data ! (pos - 1) = CR then depth - 1 else depth)
           in skip_nested data depth (pos + 1)
      else (depth, pos))"
  by pat_completeness auto
termination
  by (relation "measure (\<lambda>(data, depth, pos). length data - pos)") auto

declare skip_nested.simps [simp del]

definition scan_elem :: "string \<Rightarrow> nat \<Rightarrow> nat option" where
  "scan_elem data pos =
     (if pos \<ge> length data then None
      else let elem_type = data ! pos in
        if elem_type = CHR ''+'' \<or> elem_type = CHR ''-'' \<or> elem_type = CHR '':'' then
          map_option snd (header data pos)
        else if elem_type = CHR ''$'' then
          (case header data pos of None \<Rightarrow> None
           | Some (elem_len_str, next) \<Rightarrow>
             (case parse_int64_safe elem_len_str of None \<Rightarrow> None
              | Some elem_len \<Rightarrow>
                if elem_len = -1 then Some next
                else if elem_len < -1 then None
                else let elem_total_len = next + nat elem_len + 2 in
                     if length data < elem_total_len then None else Some elem_total_len))
        else if elem_type = CHR ''*'' then
          (let (depth, pos') = skip_nested data 1 pos in if depth \<noteq> 0 then None else Some pos')
        else None)"

primrec scan_elems :: "string \<Rightarrow> nat \<Rightarrow> nat \<Rightarrow> nat option" where
  "scan_elems data 0 pos = Some pos"
| "scan_elems data (Suc n) pos =
     (case scan_elem data pos of None \<Rightarrow> None | Some pos' \<Rightarrow> scan_elems data n pos')"

definition has_complete_command :: "string \<Rightarrow> bool" where
  "has_complete_command data =
     (if length data < 4 then False
      else let type = data ! 0 in
        if type = CHR ''+'' \<or> type = CHR ''-'' \<or> type = CHR '':'' then header data 0 \<noteq> None
        else if type = CHR ''$'' then
          (case header data 0 of None \<Rightarrow> False
           | Some (len_str, header_len) \<Rightarrow>
             (case parse_int64_safe len_str of None \<Rightarrow> False
              | Some bulk_len \<Rightarrow>
                if bulk_len = -1 then length data \<ge> 5
                else if bulk_len < -1 then False
                else if bulk_len > kMaxBulk then False
                else length data \<ge> header_len + nat bulk_len + 2))
        else if type = CHR ''*'' then
          (case header data 0 of None \<Rightarrow> False
           | Some (count_str, pos) \<Rightarrow>
             (case parse_int64_safe count_str of None \<Rightarrow> False
              | Some count \<Rightarrow>
                if count = 0 then True
                else if count < 0 then False
                else if count > kMaxArray then False
                else scan_elems data (nat count) pos \<noteq> None))
        else False)"

section \<open>Parser\<close>

record parser =
  error_msg :: string
  protocol_error :: string
  input :: string

definition RespParser :: "string \<Rightarrow> parser" where
  "RespParser s = \<lparr>error_msg = [], protocol_error = [], input = s\<rparr>"

definition reset :: "parser \<Rightarrow> parser" where
  "reset p = p\<lparr>error_msg := []\<rparr>"

definition skip :: "nat \<Rightarrow> parser \<Rightarrow> parser" where
  "skip n p = p\<lparr>input := drop n (input p)\<rparr>"

definition has_protocol_error :: "parser \<Rightarrow> bool \<times> parser" where
  "has_protocol_error p =
     (if protocol_error p \<noteq> [] then (True, p)
      else let data = input p; fail = (\<lambda>msg. (True, p\<lparr>protocol_error := msg\<rparr>)) in
        if length data < 1 then (False, p)
        else let type = data ! 0 in
          if type \<notin> {CHR ''+'', CHR ''-'', CHR '':'', CHR ''$'', CHR ''*''} then fail ''unknown type byte''
          else if length data < 2 then (False, p)
          else case header data 0 of None \<Rightarrow> (False, p)
            | Some (num_str, _) \<Rightarrow>
              if type = CHR ''$'' \<or> type = CHR ''*'' then
                (case parse_int64_safe num_str of
                   None \<Rightarrow> fail ''invalid number in protocol header''
                 | Some n \<Rightarrow>
                   if n < -1 then fail ''invalid negative length''
                   else if type = CHR ''$'' \<and> n > kMaxBulk then fail ''bulk string length exceeds limit''
                   else if type = CHR ''*'' \<and> n > kMaxArray then fail ''array length exceeds limit''
                   else (False, p))
              else (False, p))"

definition perr :: "string \<Rightarrow> parser \<Rightarrow> 'a option \<times> parser" where
  "perr msg p = (None, p\<lparr>error_msg := msg\<rparr>)"

definition parse_simple_string :: "parser \<Rightarrow> string option \<times> parser" where
  "parse_simple_string p =
     (case header (input p) 0 of None \<Rightarrow> perr ''Simple string missing CRLF'' p
      | Some (content, next) \<Rightarrow> (Some content, skip next p))"

definition parse_error :: "parser \<Rightarrow> string option \<times> parser" where
  "parse_error p =
     (case header (input p) 0 of None \<Rightarrow> perr ''Error message missing CRLF'' p
      | Some (content, next) \<Rightarrow> (Some content, skip next p))"

definition parse_integer :: "parser \<Rightarrow> int option \<times> parser" where
  "parse_integer p =
     (case header (input p) 0 of None \<Rightarrow> perr ''Integer missing CRLF'' p
      | Some (num_str, next) \<Rightarrow>
        (case stoll num_str of Inl _ \<Rightarrow> perr (''Invalid integer: '' @ num_str) p
         | Inr (v, _) \<Rightarrow> (Some v, skip next p)))"

definition parse_bulk_string :: "parser \<Rightarrow> string option \<times> parser" where
  "parse_bulk_string p =
     (case header (input p) 0 of None \<Rightarrow> perr ''Bulk string missing length CRLF'' p
      | Some (len_str, header_len) \<Rightarrow>
        (case parse_int64_safe len_str of None \<Rightarrow> perr ''Invalid bulk string length'' p
         | Some bulk_len \<Rightarrow>
           if bulk_len = -1 then (Some [], skip header_len p)
           else if bulk_len < -1 then perr ''Invalid bulk string length'' p
           else let total_len = header_len + nat bulk_len + 2 in
             if length (input p) < total_len then perr ''Bulk string incomplete'' p
             else (Some (take (nat bulk_len) (drop header_len (input p))), skip total_len p)))"

text \<open>The element loop of \<^verbatim>\<open>parse_array\<close>, with the recursive call as a parameter.\<close>

primrec parse_elems ::
  "(parser \<Rightarrow> resp_value option \<times> parser) \<Rightarrow> nat \<Rightarrow> parser \<Rightarrow> resp_value list option \<times> parser" where
  "parse_elems rec 0 p = (Some [], p)"
| "parse_elems rec (Suc n) p =
     (if length (input p) < 1 then perr ''Array element missing'' p
      else case rec p of (None, p') \<Rightarrow> (None, p')
        | (Some elem, p') \<Rightarrow>
          (case parse_elems rec n p' of (None, p'') \<Rightarrow> (None, p'')
           | (Some vs, p'') \<Rightarrow> (Some (elem # vs), p'')))"

definition kMaxNestingDepth :: nat where "kMaxNestingDepth = 32"

definition parse_array ::
  "(parser \<Rightarrow> resp_value option \<times> parser) option \<Rightarrow> parser \<Rightarrow> resp_value list option \<times> parser" where
  "parse_array nested p =
     (case nested of
        None \<Rightarrow> (None, p\<lparr>error_msg := ''Array nesting exceeds limit'',
                       protocol_error := ''Array nesting exceeds limit''\<rparr>)
      | Some rec \<Rightarrow>
        (case header (input p) 0 of None \<Rightarrow> perr ''Array missing count CRLF'' p
         | Some (count_str, next) \<Rightarrow>
           (case parse_int64_safe count_str of None \<Rightarrow> perr ''Invalid array count'' p
            | Some count \<Rightarrow>
              let p = skip next p in
              if count = -1 then (Some [], p)
              else if count < -1 then perr ''Invalid array count'' p
              else parse_elems rec (nat count) p)))"

definition wrap_value :: "('a \<Rightarrow> resp_value) \<Rightarrow> 'a option \<times> parser \<Rightarrow> resp_value option \<times> parser" where
  "wrap_value f r = (map_option f (fst r), snd r)"

text \<open>\<open>parse_one levels\<close>: \<open>levels\<close> is the number of array levels that may still be opened, that is
  \<open>kMaxNestingDepth - array_depth_\<close>.\<close>

primrec parse_one :: "nat \<Rightarrow> parser \<Rightarrow> resp_value option \<times> parser" where
  "parse_one 0 p =
     (if length (input p) < 1 then perr ''Buffer is empty'' p
      else let type = input p ! 0 in
        if type = CHR ''+'' then wrap_value SimpleString (parse_simple_string p)
        else if type = CHR ''-'' then wrap_value RespError (parse_error p)
        else if type = CHR '':'' then wrap_value RespInteger (parse_integer p)
        else if type = CHR ''$'' then wrap_value BulkString (parse_bulk_string p)
        else if type = CHR ''*'' then wrap_value RespArray (parse_array None p)
        else perr (''Unknown RESP type: '' @ [type]) p)"
| "parse_one (Suc levels) p =
     (if length (input p) < 1 then perr ''Buffer is empty'' p
      else let type = input p ! 0 in
        if type = CHR ''+'' then wrap_value SimpleString (parse_simple_string p)
        else if type = CHR ''-'' then wrap_value RespError (parse_error p)
        else if type = CHR '':'' then wrap_value RespInteger (parse_integer p)
        else if type = CHR ''$'' then wrap_value BulkString (parse_bulk_string p)
        else if type = CHR ''*'' then wrap_value RespArray (parse_array (Some (parse_one levels)) p)
        else perr (''Unknown RESP type: '' @ [type]) p)"

section \<open>Progress, and the command loop\<close>

lemma find_crlf_bound: "find_crlf s = Some i \<Longrightarrow> i + 2 \<le> length s"
  by (induction s arbitrary: i rule: find_crlf.induct) (auto split: if_splits)

lemma header_bound: "header data pos = Some (t, next) \<Longrightarrow> pos + 3 \<le> next \<and> next \<le> length data"
  by (auto simp: header_def dest!: find_crlf_bound split: option.splits)

lemma skip_simps [simp]:
  "input (skip n p) = drop n (input p)" "protocol_error (skip n p) = protocol_error p"
  "error_msg (skip n p) = error_msg p"
  by (simp_all add: skip_def)

lemma perr_simps [simp]:
  "fst (perr m p) = None" "input (snd (perr m p)) = input p"
  "protocol_error (snd (perr m p)) = protocol_error p" "perr m p \<noteq> (Some v, q)"
  by (simp_all add: perr_def)

lemma wrap_value_simps [simp]:
  "wrap_value f r = (Some v, q) \<longleftrightarrow> (\<exists>x. r = (Some x, q) \<and> v = f x)"
  "wrap_value f r = (None, q) \<longleftrightarrow> r = (None, q)"
  by (cases r; auto simp: wrap_value_def)+

lemma leaf_parsers_consume:
  "parse_simple_string p = (Some s, q) \<Longrightarrow> length (input q) < length (input p)"
  "parse_error p = (Some s, q) \<Longrightarrow> length (input q) < length (input p)"
  "parse_integer p = (Some n, q) \<Longrightarrow> length (input q) < length (input p)"
  "parse_bulk_string p = (Some s, q) \<Longrightarrow> length (input q) < length (input p)"
  by (auto simp: parse_simple_string_def parse_error_def parse_integer_def parse_bulk_string_def Let_def
      dest!: header_bound split: option.splits sum.splits if_splits)

lemma parse_elems_consume:
  assumes "\<And>p v q. rec p = (Some v, q) \<Longrightarrow> length (input q) < length (input p)"
  shows "parse_elems rec n p = (Some vs, q) \<Longrightarrow> length (input q) \<le> length (input p)"
  by (induction n arbitrary: p vs q)
    (fastforce dest!: assms split: if_splits prod.splits option.splits)+

lemma parse_one_consumes: "parse_one l p = (Some v, q) \<Longrightarrow> length (input q) < length (input p)"
proof (induction l arbitrary: p v q)
  case 0
  then show ?case
    by (auto simp: Let_def parse_array_def dest: leaf_parsers_consume split: if_splits)
next
  case (Suc l)
  have arr: "parse_array (Some (parse_one l)) p = (Some vs, q) \<Longrightarrow> length (input q) < length (input p)" for vs
    using parse_elems_consume [of "parse_one l", OF Suc.IH]
    by (fastforce simp: parse_array_def Let_def dest!: header_bound split: option.splits if_splits)
  from Suc.prems show ?case
    by (auto simp: Let_def dest: leaf_parsers_consume arr split: if_splits)
qed

function parse :: "parser \<Rightarrow> resp_value list \<times> parser" where
  "parse p =
     (if has_complete_command (input p) then
        (case parse_one kMaxNestingDepth p of
           (Some cmd, p') \<Rightarrow> (case parse p' of (cmds, p'') \<Rightarrow> (cmd # cmds, p''))
         | (None, p') \<Rightarrow> ([], p'))
      else ([], p))"
  by pat_completeness auto
termination
  by (relation "measure (\<lambda>p. length (input p))") (auto dest: parse_one_consumes [OF sym])

declare parse.simps [simp del]

end
