(* ===== verification/CC_Resp_Facts.thy ===== *)
theory CC_Resp_Facts
  imports CC_Resp
begin

text \<open>
  What the protocol layer guarantees: the parser undoes the encoder for commands sent back to back,
  however the bytes are cut into chunks; the scan and the parse agree on flat commands; a header the
  protocol check rejects is never executed; the nesting bound holds for everything parsed.
\<close>

section \<open>Lines\<close>

lemma find_crlf_line: "CR \<notin> set t \<Longrightarrow> find_crlf (t @ CR # LF # r) = Some (length t)"
proof (induction t)
  case (Cons a t)
  then show ?case
    by (cases t) auto
qed simp

lemma find_crlf_no_CR: "CR \<notin> set t \<Longrightarrow> find_crlf t = None"
  by (induction t rule: find_crlf.induct) auto

lemma find_crlf_cut: "CR \<notin> set t \<Longrightarrow> j < length t + 2 \<Longrightarrow> find_crlf (take j (t @ crlf)) = None"
proof (induction t arbitrary: j)
  case Nil
  then have "j = 0 \<or> j = 1"
    by auto
  then show ?case
    by (auto simp: crlf_def)
next
  case (Cons a t)
  show ?case
  proof (cases j)
    case (Suc i)
    with Cons have "find_crlf (take i (t @ crlf)) = None" "a \<noteq> CR"
      by auto
    with Suc show ?thesis
      by (cases "take i (t @ crlf)") auto
  qed simp
qed

lemma CR_notin_to_string [simp]: "CR \<notin> set (to_string v)"
  using to_string_no_ctl [of CR v] by auto

lemma header_line:
  assumes "drop pos data = c # t @ crlf @ r" "CR \<notin> set t"
  shows "header data pos = Some (t, pos + 1 + length t + 2)"
proof -
  have "drop (pos + 1) data = t @ CR # LF # r"
    using assms(1) by (metis append_Cons append_Nil crlf_def drop_drop drop_Suc_Cons drop0 One_nat_def add.commute)
  then show ?thesis
    using find_crlf_line [OF assms(2), of r] by (simp add: header_def)
qed

lemma header_cut:
  assumes "drop pos data = take j (c # t @ crlf)" "CR \<notin> set t" "j < length t + 3"
  shows "header data pos = None"
proof (cases j)
  case 0
  then have "drop (pos + 1) data = []"
    using assms(1) by simp
  then show ?thesis
    by (simp add: header_def)
next
  case (Suc i)
  then have "drop (pos + 1) data = take i (t @ crlf)"
    using assms(1) by (metis drop_drop drop_Suc_Cons drop0 One_nat_def add.commute take_Suc_Cons)
  with Suc assms find_crlf_cut [OF assms(2), of i] show ?thesis
    by (simp add: header_def)
qed

lemma parse_int64_safe_to_string [codec]: "int64_ok v \<Longrightarrow> parse_int64_safe (to_string v) = Some v"
  by (simp add: parse_int64_safe_def stoll_to_string_end)

section \<open>Scanning encoded commands\<close>

lemma encode_array_alt:
  "encode_array arr = ''*'' @ to_string (int (length arr)) @ crlf @ concat (map encode_bulk_string arr)"
proof -
  have "foldl (\<lambda>r item. r @ encode_bulk_string item) a xs = a @ concat (map encode_bulk_string xs)" for a xs
    by (induction xs arbitrary: a) simp_all
  then show ?thesis
    by (simp add: encode_array_def)
qed

lemma crlf_len [simp]: "length crlf = 2"
  by (simp add: crlf_def)

lemma length_encode_bulk:
  "length (encode_bulk_string s) = 1 + length (to_string (int (length s))) + 2 + length s + 2"
  by (simp add: encode_bulk_string_def)

lemma scan_elem_bulk:
  assumes "drop pos data = encode_bulk_string s @ r" "int64_ok (int (length s))"
  shows "scan_elem data pos = Some (pos + length (encode_bulk_string s))"
proof -
  let ?t = "to_string (int (length s))"
  have d: "drop pos data = CHR ''$'' # ?t @ crlf @ s @ crlf @ r"
    using assms(1) by (simp add: encode_bulk_string_def)
  then have "pos < length data" "data ! pos = CHR ''$''"
    by (metis drop_eq_Nil list.discI not_less, metis drop_eq_Nil list.discI not_less nth_via_drop)
  moreover have "length data = pos + length (CHR ''$'' # ?t @ crlf @ s @ crlf @ r)"
    using arg_cong [OF d, of length] calculation(1) by simp
  ultimately show ?thesis
    using header_line [OF d] parse_int64_safe_to_string [OF assms(2)]
    by (simp add: scan_elem_def length_encode_bulk)
qed

lemma scan_elem_bulk_cut:
  assumes d: "drop pos data = take j (encode_bulk_string s)" and j: "j < length (encode_bulk_string s)"
    and ok: "int64_ok (int (length s))"
  shows "scan_elem data pos = None"
proof (cases "j = 0")
  case False
  let ?t = "to_string (int (length s))"
  have pos: "pos < length data" "data ! pos = CHR ''$''"
    using d False by (auto simp: encode_bulk_string_def take_Cons' nth_via_drop intro: ccontr)
  show ?thesis
  proof (cases "j < length ?t + 3")
    case True
    then have "drop pos data = take j (CHR ''$'' # ?t @ crlf)"
      using d by (simp add: encode_bulk_string_def take_Cons')
    from header_cut [OF this _ True] pos show ?thesis
      by (simp add: scan_elem_def)
  next
    case False
    then have "drop pos data = CHR ''$'' # ?t @ crlf @ take (j - (length ?t + 3)) (s @ crlf)"
      using d by (simp add: encode_bulk_string_def take_Cons' numeral_3_eq_3)
    from header_line [OF this] have "header data pos = Some (?t, pos + 1 + length ?t + 2)"
      by simp
    moreover have "length data = pos + j"
      using arg_cong [OF d, of length] pos j by simp
    ultimately show ?thesis
      using pos j parse_int64_safe_to_string [OF ok] by (simp add: scan_elem_def length_encode_bulk)
  qed
qed (use assms in \<open>simp add: scan_elem_def\<close>)

lemma scan_elems_bulks:
  assumes "\<forall>s\<in>set ss. int64_ok (int (length s))"
    "drop pos data = concat (map encode_bulk_string ss) @ r"
  shows "scan_elems data (length ss) pos = Some (pos + length (concat (map encode_bulk_string ss)))"
  using assms
proof (induction ss arbitrary: pos)
  case (Cons s ss)
  then have "drop pos data = encode_bulk_string s @ concat (map encode_bulk_string ss) @ r"
    by simp
  moreover from this have "drop (pos + length (encode_bulk_string s)) data = concat (map encode_bulk_string ss) @ r"
    by (metis add.commute append_eq_conv_conj drop_drop)
  ultimately show ?case
    using Cons by (simp add: scan_elem_bulk add.assoc)
qed simp

lemma scan_elems_cut:
  assumes "\<forall>s\<in>set ss. int64_ok (int (length s))"
    "drop pos data = take j (concat (map encode_bulk_string ss))"
    "j < length (concat (map encode_bulk_string ss))"
  shows "scan_elems data (length ss) pos = None"
  using assms
proof (induction ss arbitrary: pos j)
  case (Cons s ss)
  show ?case
  proof (cases "j < length (encode_bulk_string s)")
    case True
    with Cons.prems have "drop pos data = take j (encode_bulk_string s)"
      by simp
    with True Cons.prems show ?thesis
      by (simp add: scan_elem_bulk_cut)
  next
    case False
    let ?i = "j - length (encode_bulk_string s)"
    from False Cons.prems have d: "drop pos data = encode_bulk_string s @ take ?i (concat (map encode_bulk_string ss))"
      by simp
    then have "drop (pos + length (encode_bulk_string s)) data = take ?i (concat (map encode_bulk_string ss))"
      by (metis add.commute append_eq_conv_conj drop_drop)
    with Cons.IH [OF _ this] Cons.prems False show ?thesis
      using scan_elem_bulk [OF d] by simp
  qed
qed simp

definition sendable :: "string list \<Rightarrow> bool" where
  "sendable args \<longleftrightarrow> int (length args) \<le> kMaxArray \<and> (\<forall>s\<in>set args. int64_ok (int (length s)))"

lemma sendable_count: "sendable args \<Longrightarrow> int64_ok (int (length args))"
  by (simp add: sendable_def kMaxArray_def int64_arith)

lemma length_encode_array: "length (encode_array args) \<ge> 4"
  by (cases "to_string (int (length args))") (simp_all add: encode_array_alt)

lemma has_complete_encode:
  assumes "sendable args"
  shows "has_complete_command (encode_array args @ r)"
proof -
  let ?t = "to_string (int (length args))" and ?data = "encode_array args @ r"
  have d: "drop 0 ?data = CHR ''*'' # ?t @ crlf @ concat (map encode_bulk_string args) @ r"
    by (simp add: encode_array_alt)
  from header_line [OF this] have h: "header ?data 0 = Some (?t, 1 + length ?t + 2)"
    by simp
  have "drop (1 + length ?t + 2) ?data = concat (map encode_bulk_string args) @ r"
    by (simp add: encode_array_alt crlf_def)
  from scan_elems_bulks [OF _ this] assms
  have "scan_elems ?data (length args) (1 + length ?t + 2) \<noteq> None"
    by (simp add: sendable_def)
  moreover have "?data ! 0 = CHR ''*''" "4 \<le> length ?data"
    using d length_encode_array [of args] by (simp_all add: encode_array_alt)
  ultimately show ?thesis
    using h assms parse_int64_safe_to_string [OF sendable_count [OF assms]]
    by (simp add: has_complete_command_def sendable_def)
qed

lemma has_complete_short: "length data < 4 \<Longrightarrow> \<not> has_complete_command data"
  by (simp add: has_complete_command_def)

lemma has_complete_cut:
  assumes "sendable args" "k < length (encode_array args)"
  shows "\<not> has_complete_command (take k (encode_array args))"
proof (cases "k < 4")
  case False
  let ?t = "to_string (int (length args))" and ?data = "take k (encode_array args)"
  let ?B = "concat (map encode_bulk_string args)"
  have hd: "?data ! 0 = CHR ''*''" "length ?data = k"
    using False assms by (simp_all add: encode_array_alt)
  show ?thesis
  proof (cases "k < length ?t + 3")
    case True
    then have "drop 0 ?data = take k (CHR ''*'' # ?t @ crlf)"
      by (simp add: encode_array_alt take_Cons')
    from header_cut [OF this _ True] hd show ?thesis
      by (simp add: has_complete_command_def)
  next
    case kge: False
    then have d: "drop 0 ?data = CHR ''*'' # ?t @ crlf @ take (k - (length ?t + 3)) ?B"
      by (simp add: encode_array_alt take_Cons' numeral_3_eq_3)
    have "drop (1 + length ?t + 2) ?data = take (k - (length ?t + 3)) ?B"
      using d by (simp add: crlf_def)
    moreover have jl: "k - (length ?t + 3) < length ?B"
      using assms(2) kge by (simp add: encode_array_alt)
    ultimately have "scan_elems ?data (length args) (1 + length ?t + 2) = None"
      using assms by (intro scan_elems_cut) (simp_all add: sendable_def)
    moreover have "args \<noteq> []"
      using jl by auto
    ultimately show ?thesis
      using hd header_line [OF d] parse_int64_safe_to_string [OF sendable_count [OF assms(1)]]
      by (simp add: has_complete_command_def)
  qed
qed (simp add: has_complete_short)

section \<open>Parsing encoded commands\<close>

abbreviation command_value :: "string list \<Rightarrow> resp_value" where
  "command_value args \<equiv> RespArray (map BulkString args)"

abbreviation stream :: "string list list \<Rightarrow> string" where
  "stream cmds \<equiv> concat (map encode_array cmds)"

lemma parse_bulk_encode [codec]:
  assumes "input p = encode_bulk_string s @ r" "int64_ok (int (length s))"
  shows "parse_bulk_string p = (Some s, p\<lparr>input := r\<rparr>)"
proof -
  let ?t = "to_string (int (length s))"
  have d: "input p = CHR ''$'' # ?t @ crlf @ s @ crlf @ r"
    using assms(1) by (simp add: encode_bulk_string_def)
  then have h: "header (input p) 0 = Some (?t, 0 + 1 + length ?t + 2)"
    by (intro header_line) simp_all
  have "drop (0 + 1 + length ?t + 2) (input p) = s @ crlf @ r" "length (input p) \<ge> 0 + 1 + length ?t + 2 + length s + 2"
    by (simp_all add: d crlf_def)
  moreover have "drop (0 + 1 + length ?t + 2 + length s + 2) (input p) = r"
    by (simp add: d crlf_def numeral_eq_Suc)
  ultimately show ?thesis
    using h parse_int64_safe_to_string [OF assms(2)]
    by (simp add: parse_bulk_string_def skip_def)
qed

lemma parse_one_bulk [codec]:
  assumes "input p = encode_bulk_string s @ r" "int64_ok (int (length s))"
  shows "parse_one l p = (Some (BulkString s), p\<lparr>input := r\<rparr>)"
proof -
  have "input p ! 0 = CHR ''$''" "\<not> length (input p) < 1"
    using assms(1) by (simp_all add: encode_bulk_string_def)
  then show ?thesis
    using parse_bulk_encode [OF assms] by (cases l) (simp_all add: wrap_value_def)
qed

lemma parse_elems_bulks [codec]:
  assumes "\<forall>s\<in>set ss. int64_ok (int (length s))" "input p = concat (map encode_bulk_string ss) @ r"
  shows "parse_elems (parse_one l) (length ss) p = (Some (map BulkString ss), p\<lparr>input := r\<rparr>)"
  using assms
proof (induction ss arbitrary: p)
  case (Cons s ss)
  then have "input p = encode_bulk_string s @ (concat (map encode_bulk_string ss) @ r)"
    by simp
  moreover from this have "\<not> length (input p) < 1"
    by (simp add: encode_bulk_string_def)
  ultimately show ?case
    using parse_one_bulk [of p s _ l] Cons.IH [of "p\<lparr>input := concat (map encode_bulk_string ss) @ r\<rparr>"] Cons.prems(1)
    by simp
qed simp

lemma parse_one_command [codec]:
  assumes "sendable args" "input p = encode_array args @ r"
  shows "parse_one (Suc l) p = (Some (command_value args), p\<lparr>input := r\<rparr>)"
proof -
  let ?t = "to_string (int (length args))" and ?q = "p\<lparr>input := concat (map encode_bulk_string args) @ r\<rparr>"
  have d: "input p = CHR ''*'' # ?t @ crlf @ concat (map encode_bulk_string args) @ r"
    using assms(2) by (simp add: encode_array_alt)
  then have h: "header (input p) 0 = Some (?t, 0 + 1 + length ?t + 2)"
    by (intro header_line) simp_all
  have "skip (0 + 1 + length ?t + 2) p = ?q"
    by (simp add: skip_def d crlf_def)
  moreover have "parse_elems (parse_one l) (length args) ?q = (Some (map BulkString args), p\<lparr>input := r\<rparr>)"
    using parse_elems_bulks [of args ?q r l] assms(1) by (simp add: sendable_def)
  ultimately have "parse_array (Some (parse_one l)) p = (Some (map BulkString args), p\<lparr>input := r\<rparr>)"
    using h parse_int64_safe_to_string [OF sendable_count [OF assms(1)]] by (simp add: parse_array_def)
  then show ?thesis
    using d by (simp add: wrap_value_def)
qed

lemma parse_command:
  assumes "sendable args" "input p = encode_array args @ r"
  shows "parse p = (command_value args # fst (parse (p\<lparr>input := r\<rparr>)), snd (parse (p\<lparr>input := r\<rparr>)))"
  using has_complete_encode [OF assms(1), of r] parse_one_command [OF assms, of 31] assms(2)
  by (subst parse.simps) (simp add: kMaxNestingDepth_def case_prod_unfold)

lemma parse_incomplete: "\<not> has_complete_command (input p) \<Longrightarrow> parse p = ([], p)"
  by (subst parse.simps) simp

text \<open>Parsing any cut of a stream of commands yields the commands that are whole, and leaves an
  incomplete remainder.\<close>

lemma parse_stream_cut:
  assumes "\<forall>c\<in>set cmds. sendable c" "input p @ t = stream cmds"
  shows "\<exists>m rest. parse p = (map command_value (take m cmds), p\<lparr>input := rest\<rparr>) \<and>
           rest @ t = stream (drop m cmds) \<and> \<not> has_complete_command rest"
  using assms
proof (induction cmds arbitrary: p)
  case Nil
  then show ?case
    by (intro exI [of _ 0] exI [of _ "[]"]) (simp add: parse_incomplete has_complete_short)
next
  case (Cons c cs)
  then consider (whole) u where "input p = encode_array c @ u" "u @ t = stream cs"
    | (part) k where "k < length (encode_array c)" "input p = take k (encode_array c)"
    by (auto simp: append_eq_append_conv2)
      (metis append_Nil2 append_eq_conv_conj length_append less_add_same_cancel1 length_greater_0_conv)+
  then show ?case
  proof cases
    case whole
    from Cons.IH [of "p\<lparr>input := u\<rparr>"] Cons.prems whole
    obtain m rest where "parse (p\<lparr>input := u\<rparr>) = (map command_value (take m cs), p\<lparr>input := rest\<rparr>)"
      "rest @ t = stream (drop m cs)" "\<not> has_complete_command rest"
      by auto
    then show ?thesis
      using Cons.prems whole parse_command [of c p u]
      by (intro exI [of _ "Suc m"] exI [of _ rest]) simp
  next
    case part
    then have "\<not> has_complete_command (input p)"
      using Cons.prems has_complete_cut by simp
    then show ?thesis
      using Cons.prems by (intro exI [of _ 0] exI [of _ "input p"]) (simp add: parse_incomplete)
  qed
qed

section \<open>Delivery in chunks\<close>

text \<open>A connection appends each chunk it reads to what is left and parses.\<close>

primrec feed :: "string list \<Rightarrow> parser \<Rightarrow> resp_value list \<times> parser" where
  "feed [] p = ([], p)"
| "feed (c # cs) p =
     (let (vs, p') = parse (p\<lparr>input := input p @ c\<rparr>); (ws, p'') = feed cs p' in (vs @ ws, p''))"

lemma feed_stream:
  assumes "\<forall>c\<in>set cmds. sendable c" "input p @ concat chunks = stream cmds"
    "\<not> has_complete_command (input p)"
  shows "feed chunks p = (map command_value cmds, p\<lparr>input := []\<rparr>)"
  using assms
proof (induction chunks arbitrary: p cmds)
  case Nil
  then show ?case
    using has_complete_encode by (cases cmds) auto
next
  case (Cons ch chunks)
  let ?p = "p\<lparr>input := input p @ ch\<rparr>"
  from Cons.prems parse_stream_cut [of cmds ?p "concat chunks"]
  obtain m rest where m: "parse ?p = (map command_value (take m cmds), p\<lparr>input := rest\<rparr>)"
    "rest @ concat chunks = stream (drop m cmds)" "\<not> has_complete_command rest"
    by auto
  have "feed chunks (p\<lparr>input := rest\<rparr>) = (map command_value (drop m cmds), p\<lparr>input := []\<rparr>)"
    using Cons.IH [of "drop m cmds" "p\<lparr>input := rest\<rparr>"] Cons.prems m by (auto dest: in_set_dropD)
  with m(1) show ?case
    by (simp flip: map_append)
qed

section \<open>The scan and the parse agree\<close>

lemma header_shift:
  "header data pos = map_option (\<lambda>(t, n). (t, pos + n)) (header (drop pos data) 0)"
  by (simp add: header_def add.commute split: option.splits)

definition flat_type :: "char \<Rightarrow> bool" where
  "flat_type c \<longleftrightarrow> c = CHR ''+'' \<or> c = CHR ''-'' \<or> c = CHR ''$''"

primrec flat_elems :: "string \<Rightarrow> nat \<Rightarrow> nat \<Rightarrow> bool" where
  "flat_elems data 0 pos = True"
| "flat_elems data (Suc n) pos =
     (case scan_elem data pos of None \<Rightarrow> True
      | Some pos' \<Rightarrow> flat_type (data ! pos) \<and> flat_elems data n pos')"

definition flat_command :: "string \<Rightarrow> bool" where
  "flat_command data \<longleftrightarrow> flat_type (data ! 0) \<or> data ! 0 = CHR ''*'' \<and>
     (case header data 0 of None \<Rightarrow> True
      | Some (t, pos) \<Rightarrow> (case parse_int64_safe t of None \<Rightarrow> True | Some n \<Rightarrow> flat_elems data (nat n) pos))"

lemma scan_elem_parse:
  assumes "scan_elem data pos = Some pos'" "flat_type (data ! pos)" "input p = drop pos data"
  shows "\<exists>v. parse_one l p = (Some v, p\<lparr>input := drop pos' data\<rparr>)"
proof -
  have pos: "pos < length data"
    using assms(1) by (auto simp: scan_elem_def split: if_splits)
  then have nth: "input p ! 0 = data ! pos" "\<not> length (input p) < 1"
    using assms(3) by simp_all
  have "header data pos \<noteq> None"
    using assms(1,2) pos by (auto simp: scan_elem_def flat_type_def Let_def split: option.splits if_splits)
  then obtain t n where h: "header (drop pos data) 0 = Some (t, n)" "header data pos = Some (t, pos + n)"
    using header_shift [of data pos] by (cases "header (drop pos data) 0") auto
  have "\<exists>v. parse_one 0 p = (Some v, p\<lparr>input := drop pos' data\<rparr>) \<and>
        parse_one (Suc k) p = (Some v, p\<lparr>input := drop pos' data\<rparr>)" for k
    using assms pos nth h
    by (auto simp: scan_elem_def flat_type_def Let_def wrap_value_def skip_def parse_simple_string_def
        parse_error_def parse_bulk_string_def add.commute add.left_commute split: option.splits if_splits)
  then show ?thesis
    by (cases l) blast+
qed

lemma scan_elems_parse:
  assumes "scan_elems data n pos = Some pos'" "flat_elems data n pos" "input p = drop pos data"
  shows "\<exists>vs. parse_elems (parse_one l) n p = (Some vs, p\<lparr>input := drop pos' data\<rparr>)"
  using assms
proof (induction n arbitrary: pos p)
  case 0
  then show ?case
    by (auto intro!: parser.equality)
next
  case (Suc n)
  then obtain pos1 where s: "scan_elem data pos = Some pos1" "scan_elems data n pos1 = Some pos'"
    "flat_type (data ! pos)" "flat_elems data n pos1"
    by (auto split: option.splits)
  have "\<not> length (input p) < 1"
    using s(1) Suc.prems(3) by (auto simp: scan_elem_def split: if_splits)
  with scan_elem_parse [OF s(1,3) Suc.prems(3), of l] Suc.IH [OF s(2,4), of "p\<lparr>input := drop pos1 data\<rparr>"]
  show ?case
    by auto
qed

lemma complete_flat_parses:
  assumes "has_complete_command data" "flat_command data" "input p = data"
  shows "\<exists>v rest. parse_one (Suc l) p = (Some v, p\<lparr>input := rest\<rparr>)"
proof (cases "flat_type (data ! 0)")
  case True
  have "scan_elem data 0 \<noteq> None"
    using assms(1) True
    by (auto simp: has_complete_command_def scan_elem_def flat_type_def Let_def split: option.splits if_splits)
  then obtain pos' where "scan_elem data 0 = Some pos'"
    by blast
  from scan_elem_parse [OF this True, of p "Suc l"] assms(3) show ?thesis
    by auto
next
  case False
  with assms obtain t pos n where d: "data ! 0 = CHR ''*''" "header data 0 = Some (t, pos)"
    "parse_int64_safe t = Some n" "n \<ge> 0" "flat_elems data (nat n) pos"
    and sc: "n = 0 \<or> scan_elems data (nat n) pos \<noteq> None"
    by (auto simp: has_complete_command_def flat_command_def Let_def split: option.splits if_splits)
  then obtain pos' where "scan_elems data (nat n) pos = Some pos'"
    by auto
  from scan_elems_parse [OF this d(5), of "skip pos p" l] assms(3)
  obtain vs where "parse_elems (parse_one l) (nat n) (skip pos p) = (Some vs, p\<lparr>input := drop pos' data\<rparr>)"
    by (auto simp: skip_def)
  with d assms show ?thesis
    by (auto simp: parse_array_def wrap_value_def has_complete_command_def split: if_splits)
qed

section \<open>Nesting\<close>

lemma foldr_max_le: "(\<And>x. x \<in> set xs \<Longrightarrow> x \<le> (l::nat)) \<Longrightarrow> foldr max xs 0 \<le> l"
  by (induction xs) auto

lemma parse_elems_nesting:
  assumes "\<And>p v q. rec p = (Some v, q) \<Longrightarrow> nesting v \<le> l"
  shows "parse_elems rec n p = (Some vs, q) \<Longrightarrow> v \<in> set vs \<Longrightarrow> nesting v \<le> l"
  by (induction n arbitrary: p vs)
    (auto dest: assms split: if_splits prod.splits option.splits)

lemma parse_one_nesting: "parse_one l p = (Some v, q) \<Longrightarrow> nesting v \<le> l"
proof (induction l arbitrary: p v q)
  case 0
  then show ?case
    by (auto simp: Let_def parse_array_def split: if_splits)
next
  case (Suc l)
  have "parse_array (Some (parse_one l)) p = (Some vs, q) \<Longrightarrow> nesting (RespArray vs) \<le> Suc l" for vs
    using parse_elems_nesting [of "parse_one l" l, OF Suc.IH]
    by (auto simp: parse_array_def Let_def intro!: foldr_max_le split: option.splits if_splits)
  with Suc.prems show ?case
    by (auto simp: Let_def split: if_splits)
qed

lemma parse_nesting: "v \<in> set (fst (parse p)) \<Longrightarrow> nesting v \<le> kMaxNestingDepth"
proof (induction p rule: parse.induct)
  case (1 p)
  from "1.prems" obtain cmd q where c: "has_complete_command (input p)"
    "parse_one kMaxNestingDepth p = (Some cmd, q)" "v = cmd \<or> v \<in> set (fst (parse q))"
    by (subst (asm) parse.simps) (auto split: if_splits option.splits prod.splits)
  with "1.IH" [OF c(1)] parse_one_nesting [OF c(2)] show ?case
    by auto
qed

section \<open>Properties\<close>

text \<open>C9: commands encoded by \<^verbatim>\<open>encode_array\<close> and sent back to back are parsed into exactly those
  commands, in order, with nothing left over, however the byte stream is cut into chunks (empty
  chunks, chunks that split a header, a length or a payload, chunks holding several commands).\<close>

theorem chunked_delivery_roundtrip:
  assumes "\<forall>c\<in>set cmds. sendable c" "concat chunks = concat (map encode_array cmds)"
  shows "feed chunks (RespParser []) = (map (\<lambda>args. RespArray (map BulkString args)) cmds, RespParser [])"
  using feed_stream [of cmds "RespParser []" chunks] assms
  by (simp add: RespParser_def has_complete_short)

theorem chunked_delivery_roundtrip_witness:
  "feed [take 3 (encode_array [''get'', ''k'']), drop 3 (encode_array [''get'', ''k''])] (RespParser []) =
   ([RespArray [BulkString ''get'', BulkString ''k'']], RespParser [])"
  using chunked_delivery_roundtrip [of "[[''get'', ''k'']]"
      "[take 3 (encode_array [''get'', ''k'']), drop 3 (encode_array [''get'', ''k''])]"]
  by (simp add: sendable_def kMaxArray_def int64_arith)

text \<open>C28: a command cut short anywhere is not taken for a complete one.\<close>

theorem truncated_command_waits:
  assumes "sendable args" "k < length (encode_array args)"
  shows "\<not> has_complete_command (take k (encode_array args)) \<and>
         parse (RespParser (take k (encode_array args))) = ([], RespParser (take k (encode_array args)))"
  using has_complete_cut [OF assms] by (simp add: parse_incomplete RespParser_def)

theorem truncated_command_waits_witness:
  "\<not> has_complete_command (take 4 (encode_array [''get'', ''k'']))"
proof -
  have "4 < length (encode_array [''get'', ''k''])"
    by (simp add: encode_array_alt encode_bulk_string_def)
  then show ?thesis
    using truncated_command_waits [of "[''get'', ''k'']" 4] by (simp add: sendable_def kMaxArray_def int64_arith)
qed



text \<open>No value that leaves the parser is nested deeper than the limit of 32 arrays, whatever
  bytes were sent.\<close>

theorem parsed_nesting_bounded:
  "list_all (\<lambda>v. nesting v \<le> 32) (fst (parse p))"
  using parse_nesting [of _ p] by (auto simp: list_all_iff kMaxNestingDepth_def)

text \<open>Input whose header the protocol check rejects is never reported as a complete command.\<close>

theorem protocol_error_not_executed:
  assumes "protocol_error p = []" "fst (has_protocol_error p)"
  shows "\<not> has_complete_command (input p) \<and> parse p = ([], p)"
proof -
  have "\<not> has_complete_command (input p)"
    using assms
    by (auto simp: has_protocol_error_def has_complete_command_def Let_def kMaxArray_def kMaxBulk_def
        split: if_splits option.splits)
  then show ?thesis
    by (simp add: parse_incomplete)
qed

text \<open>A nested array is reported complete before its payload has arrived, and the parse that follows
  throws the two headers away: the rest of the stream is then read out of frame.\<close>

lemma nested_array_desync:
  "has_complete_command (''*1'' @ crlf @ ''*1'' @ crlf @ ''$1'' @ crlf)"
  "fst (parse (RespParser (''*1'' @ crlf @ ''*1'' @ crlf @ ''$1'' @ crlf))) = []"
  "input (snd (parse (RespParser (''*1'' @ crlf @ ''*1'' @ crlf @ ''$1'' @ crlf)))) = ''$1'' @ crlf"
  by code_simp+

text \<open>The null array \<^verbatim>\<open>*-1\<close> is neither complete nor a protocol error: it stays at the head of the
  input for ever.\<close>

lemma null_array_stalls:
  "\<not> has_complete_command (''*-1'' @ crlf @ rest)"
  "fst (has_protocol_error (RespParser (''*-1'' @ crlf @ rest))) = False"
proof -
  have "drop 0 (''*-1'' @ crlf @ rest) = CHR ''*'' # ''-1'' @ crlf @ rest"
    by simp
  moreover have "CR \<notin> set ''-1''"
    by code_simp
  ultimately have "header (''*-1'' @ crlf @ rest) 0 = Some (''-1'', 0 + 1 + length ''-1'' + 2)"
    by (rule header_line)
  then have "header (''*-1'' @ crlf @ rest) 0 = Some (''-1'', 5)"
    by (simp add: numeral_eq_Suc)
  moreover have "parse_int64_safe ''-1'' = Some (-1)"
    by code_simp
  ultimately show "\<not> has_complete_command (''*-1'' @ crlf @ rest)"
    "fst (has_protocol_error (RespParser (''*-1'' @ crlf @ rest))) = False"
    by (simp_all add: has_complete_command_def has_protocol_error_def RespParser_def kMaxArray_def)
qed

end
