(* ===== verification/CC_Double.thy ===== *)
theory CC_Double
  imports CC_Base "HOL-Library.Product_Lexorder"
begin

text \<open>
  The scores of sorted sets: IEEE 754 doubles as their 64-bit patterns.  Comparison, the NaN and
  infinity tests and the test for an integral value are computed from the bits.  The conversions
  between doubles and text (\<^verbatim>\<open>snprintf\<close>, \<^verbatim>\<open>strtod\<close>, \<^verbatim>\<open>std::stod\<close>, \<^verbatim>\<open>std::from_chars\<close>, \<^verbatim>\<open>std::log10\<close>)
  are fields of the record \<open>fp_lib\<close>, an argument of every operation that converts.
\<close>

type_synonym double = "64 word"

definition magnitude :: "double \<Rightarrow> nat" where
  "magnitude d = unat d mod 9223372036854775808"

definition inf_bits :: nat where
  "inf_bits = 9218868437227405312"

definition is_nan :: "double \<Rightarrow> bool" where
  "is_nan d \<longleftrightarrow> magnitude d > inf_bits"

definition is_inf :: "double \<Rightarrow> bool" where
  "is_inf d \<longleftrightarrow> magnitude d = inf_bits"

definition is_negative :: "double \<Rightarrow> bool" where
  "is_negative d \<longleftrightarrow> unat d \<ge> 9223372036854775808"

text \<open>Sign and magnitude as one integer: it orders the finite and infinite doubles and identifies
  the two zeros.\<close>

definition dkey :: "double \<Rightarrow> int" where
  "dkey d = (if is_negative d then - int (magnitude d) else int (magnitude d))"

definition dlt :: "double \<Rightarrow> double \<Rightarrow> bool" where
  "dlt a b \<longleftrightarrow> \<not> is_nan a \<and> \<not> is_nan b \<and> dkey a < dkey b"

definition dle :: "double \<Rightarrow> double \<Rightarrow> bool" where
  "dle a b \<longleftrightarrow> \<not> is_nan a \<and> \<not> is_nan b \<and> dkey a \<le> dkey b"

definition deq :: "double \<Rightarrow> double \<Rightarrow> bool" where
  "deq a b \<longleftrightarrow> \<not> is_nan a \<and> \<not> is_nan b \<and> dkey a = dkey b"

definition is_finite_double :: "double \<Rightarrow> bool" where
  "is_finite_double d \<longleftrightarrow> \<not> is_nan d \<and> \<not> is_inf d"

text \<open>\<^verbatim>\<open>std::modf(value, &i) == 0.0\<close> for a finite value.\<close>

definition is_integral :: "double \<Rightarrow> bool" where
  "is_integral d =
     (let e = magnitude d div 4503599627370496; f = magnitude d mod 4503599627370496 in
      if e = 0 then f = 0
      else if e \<ge> 1075 then True
      else (4503599627370496 + f) mod 2 ^ (1075 - e) = 0)"

record fp_lib =
  stod :: "string \<Rightarrow> conv_exn + (double \<times> nat)"
  from_chars_double :: "string \<Rightarrow> (double \<times> string) option"
  print_g17 :: "double \<Rightarrow> string"
  print_fixed :: "nat \<Rightarrow> double \<Rightarrow> string"
  strtod :: "string \<Rightarrow> double"
  floor_log10_abs :: "double \<Rightarrow> int"

text \<open>\<^verbatim>\<open>RespEncoder::format_double\<close>: the search for the shortest fixed-point text that reads back to
  the same value.\<close>

primrec shortest_fixed :: "fp_lib \<Rightarrow> double \<Rightarrow> nat \<Rightarrow> nat \<Rightarrow> string option" where
  "shortest_fixed lib v digits 0 = None"
| "shortest_fixed lib v digits (Suc n) =
     (let buf = print_fixed lib digits v in
      if deq (strtod lib buf) v then Some buf else shortest_fixed lib v (digits + 1) n)"

definition format_double :: "fp_lib \<Rightarrow> double \<Rightarrow> string" where
  "format_double lib v =
     (if is_nan v then ''nan''
      else if is_inf v then (if is_negative v then ''-inf'' else ''inf'')
      else if is_integral v then print_fixed lib 0 v
      else let exponent = floor_log10_abs lib v;
               max_digits = max 1 (min 341 (17 - exponent)) in
           case shortest_fixed lib v 1 (nat max_digits - 1) of
             Some buf \<Rightarrow> buf | None \<Rightarrow> print_fixed lib (nat max_digits) v)"

lemma dlt_key: "\<not> is_nan a \<Longrightarrow> \<not> is_nan b \<Longrightarrow> dlt a b \<longleftrightarrow> dkey a < dkey b"
  by (simp add: dlt_def)

lemma deq_key: "\<not> is_nan a \<Longrightarrow> \<not> is_nan b \<Longrightarrow> deq a b \<longleftrightarrow> dkey a = dkey b"
  by (simp add: deq_def)

lemma finite_not_nan [simp]: "is_finite_double d \<Longrightarrow> \<not> is_nan d"
  by (simp add: is_finite_double_def)

lemma shortest_fixed_reads_back:
  "shortest_fixed lib v d n = Some t \<Longrightarrow> deq (strtod lib t) v"
  by (induction n arbitrary: d) (auto simp: Let_def split: if_splits)

text \<open>The text of a non-integral score reads back to the same value as soon as the longest text
  tried does, that is 17 significant digits.\<close>

lemma format_double_reads_back:
  assumes "is_finite_double v" "\<not> is_integral v"
    "deq (strtod lib (print_fixed lib (nat (max 1 (min 341 (17 - floor_log10_abs lib v)))) v)) v"
  shows "deq (strtod lib (format_double lib v)) v"
  using assms shortest_fixed_reads_back
  by (auto simp: format_double_def is_finite_double_def Let_def split: option.splits)

end
