(* ===== verification/CC_Object.thy ===== *)
theory CC_Object
  imports CC_Double
begin

text \<open>
  The value type of the cache, \<^verbatim>\<open>CacheObject\<close> of \<^verbatim>\<open>src/src/datatype/object.cpp\<close>: a type tag
  and one payload per type.  A list is a vector; a hash and a set are \<^verbatim>\<open>std::unordered_map\<close> and
  \<^verbatim>\<open>std::unordered_set\<close>, kept as lists in iteration order (the order itself is unspecified in C++ and
  no property depends on it); a sorted set is a \<^verbatim>\<open>std::set\<close> ordered by score, then member.
\<close>

section \<open>State\<close>

datatype object_type = STRING | LIST | HASH | SET | ZSET

type_synonym zmember = "string \<times> double"

record cache_object =
  otype :: object_type
  string_val :: string
  list_val :: "string list"
  hash_val :: "(string \<times> string) list"
  set_val :: "string list"
  zset_val :: "zmember list"

definition CacheObject :: cache_object where
  "CacheObject = \<lparr>otype = STRING, string_val = [], list_val = [], hash_val = [], set_val = [], zset_val = []\<rparr>"

definition CacheObject_string :: "string \<Rightarrow> cache_object" where
  "CacheObject_string val = CacheObject\<lparr>string_val := val\<rparr>"

definition CacheObject_list :: "string list \<Rightarrow> cache_object" where
  "CacheObject_list vals = CacheObject\<lparr>otype := LIST, list_val := vals\<rparr>"

definition memory_size :: "cache_object \<Rightarrow> nat" where
  "memory_size ob = (case otype ob of
       STRING \<Rightarrow> length (string_val ob)
     | LIST \<Rightarrow> sum_list (map length (list_val ob))
     | HASH \<Rightarrow> sum_list (map (\<lambda>(k, v). length k + length v) (hash_val ob))
     | SET \<Rightarrow> sum_list (map length (set_val ob))
     | ZSET \<Rightarrow> sum_list (map (\<lambda>(m, s). length m + 8) (zset_val ob)))"

section \<open>Strings and lists\<close>

definition get_string :: "cache_object \<Rightarrow> string option" where
  "get_string ob = (if otype ob \<noteq> STRING then None else Some (string_val ob))"

definition set_string :: "string \<Rightarrow> cache_object \<Rightarrow> cache_object" where
  "set_string val ob = ob\<lparr>otype := STRING, string_val := val\<rparr>"

definition discard_string_payload :: "cache_object \<Rightarrow> cache_object" where
  "discard_string_payload ob = ob\<lparr>string_val := []\<rparr>"

definition list_push :: "string \<Rightarrow> bool \<Rightarrow> cache_object \<Rightarrow> bool \<times> cache_object" where
  "list_push val front ob =
     (if otype ob \<noteq> LIST \<and> otype ob \<noteq> STRING then (False, ob)
      else let ob = (if otype ob = STRING
                     then let old_val = string_val ob;
                              ob = (discard_string_payload ob)\<lparr>otype := LIST, list_val := []\<rparr>
                          in if old_val \<noteq> [] then ob\<lparr>list_val := list_val ob @ [old_val]\<rparr> else ob
                     else ob)
           in (True, if front then ob\<lparr>list_val := val # list_val ob\<rparr>
                     else ob\<lparr>list_val := list_val ob @ [val]\<rparr>))"

definition list_pop :: "bool \<Rightarrow> cache_object \<Rightarrow> string option \<times> cache_object" where
  "list_pop front ob =
     (if otype ob \<noteq> LIST then (None, ob)
      else if list_val ob = [] then (None, ob)
      else if front then (Some (hd (list_val ob)), ob\<lparr>list_val := tl (list_val ob)\<rparr>)
      else (Some (last (list_val ob)), ob\<lparr>list_val := butlast (list_val ob)\<rparr>))"

text \<open>The elements with indices \<open>a\<close> to \<open>b\<close>, both included.\<close>

definition slice :: "int \<Rightarrow> int \<Rightarrow> 'a list \<Rightarrow> 'a list" where
  "slice a b xs = take (nat (b - a + 1)) (drop (nat a) xs)"

definition range_of :: "int \<Rightarrow> int \<Rightarrow> 'a list \<Rightarrow> 'a list" where
  "range_of start stop xs =
     (let n = length xs in
      if n = 0 then []
      else let actual_start = (if start < 0 then add64 (int n) start else start);
               actual_stop = (if stop < 0 then add64 (int n) stop else stop) in
           case clip_range n actual_start actual_stop of None \<Rightarrow> []
           | Some (clipped_start, clipped_stop) \<Rightarrow> slice clipped_start clipped_stop xs)"

definition list_range :: "int \<Rightarrow> int \<Rightarrow> cache_object \<Rightarrow> string list" where
  "list_range start stop ob = (if otype ob \<noteq> LIST then [] else range_of start stop (list_val ob))"

definition list_size :: "cache_object \<Rightarrow> nat" where
  "list_size ob = length (list_val ob)"

section \<open>Hashes and sets\<close>

definition hash_set :: "string \<Rightarrow> string \<Rightarrow> cache_object \<Rightarrow> bool \<times> cache_object" where
  "hash_set field val ob =
     (if otype ob \<noteq> HASH \<and> otype ob \<noteq> STRING then (False, ob)
      else let ob = (if otype ob = STRING then discard_string_payload ob else ob) in
           (True, ob\<lparr>otype := HASH, hash_val := AList.update field val (hash_val ob)\<rparr>))"

definition hash_get :: "string \<Rightarrow> cache_object \<Rightarrow> string option" where
  "hash_get field ob = (if otype ob \<noteq> HASH then None else map_of (hash_val ob) field)"

definition hash_del :: "string \<Rightarrow> cache_object \<Rightarrow> bool \<times> cache_object" where
  "hash_del field ob =
     (if otype ob \<noteq> HASH then (False, ob)
      else (map_of (hash_val ob) field \<noteq> None, ob\<lparr>hash_val := AList.delete field (hash_val ob)\<rparr>))"

definition hash_exists :: "string \<Rightarrow> cache_object \<Rightarrow> bool" where
  "hash_exists field ob \<longleftrightarrow> otype ob = HASH \<and> map_of (hash_val ob) field \<noteq> None"

definition hash_size :: "cache_object \<Rightarrow> nat" where
  "hash_size ob = length (hash_val ob)"

definition hash_fields :: "cache_object \<Rightarrow> string list" where
  "hash_fields ob = (if otype ob \<noteq> HASH then [] else map fst (hash_val ob))"

definition hash_items :: "cache_object \<Rightarrow> (string \<times> string) list" where
  "hash_items ob = (if otype ob \<noteq> HASH then [] else hash_val ob)"

definition set_add :: "string \<Rightarrow> cache_object \<Rightarrow> bool \<times> cache_object" where
  "set_add m ob =
     (if otype ob \<noteq> SET \<and> otype ob \<noteq> STRING then (False, ob)
      else let ob = (if otype ob = STRING then discard_string_payload ob else ob);
               ob = ob\<lparr>otype := SET\<rparr> in
           if m \<in> set (set_val ob) then (False, ob) else (True, ob\<lparr>set_val := set_val ob @ [m]\<rparr>))"

definition set_remove :: "string \<Rightarrow> cache_object \<Rightarrow> bool \<times> cache_object" where
  "set_remove m ob =
     (if otype ob \<noteq> SET then (False, ob)
      else (m \<in> set (set_val ob), ob\<lparr>set_val := removeAll m (set_val ob)\<rparr>))"

definition set_contains :: "string \<Rightarrow> cache_object \<Rightarrow> bool" where
  "set_contains m ob \<longleftrightarrow> otype ob = SET \<and> m \<in> set (set_val ob)"

definition set_size :: "cache_object \<Rightarrow> nat" where
  "set_size ob = length (set_val ob)"

definition set_members :: "cache_object \<Rightarrow> string list" where
  "set_members ob = (if otype ob \<noteq> SET then [] else set_val ob)"

section \<open>Sorted sets\<close>

text \<open>\<^verbatim>\<open>ZSetMember::operator<\<close>.\<close>

definition zlt :: "zmember \<Rightarrow> zmember \<Rightarrow> bool" where
  "zlt a b = (if dlt (snd a) (snd b) then True else if dlt (snd b) (snd a) then False else fst a < fst b)"

text \<open>\<^verbatim>\<open>std::set::insert\<close>: the position is found with the comparator; an equivalent element blocks
  the insertion.\<close>

fun zset_insert :: "zmember \<Rightarrow> zmember list \<Rightarrow> zmember list \<times> bool" where
  "zset_insert x [] = ([x], True)"
| "zset_insert x (y # ys) =
     (if zlt x y then (x # y # ys, True)
      else if zlt y x then (case zset_insert x ys of (zs, ins) \<Rightarrow> (y # zs, ins))
      else (y # ys, False))"

fun zset_erase :: "string \<Rightarrow> zmember list \<Rightarrow> zmember list" where
  "zset_erase m [] = []"
| "zset_erase m (y # ys) = (if fst y = m then ys else y # zset_erase m ys)"

definition zset_add :: "string \<Rightarrow> double \<Rightarrow> cache_object \<Rightarrow> bool \<times> cache_object" where
  "zset_add m score ob =
     (if otype ob \<noteq> ZSET \<and> otype ob \<noteq> STRING then (False, ob)
      else let ob = (if otype ob = STRING then discard_string_payload ob else ob);
               ob = ob\<lparr>otype := ZSET\<rparr>;
               score_changed = (case map_of (zset_val ob) m of None \<Rightarrow> False | Some s \<Rightarrow> \<not> deq s score);
               zs = (if score_changed then zset_erase m (zset_val ob) else zset_val ob);
               (zs', inserted) = zset_insert (m, score) zs in
           (inserted \<or> score_changed, ob\<lparr>zset_val := zs'\<rparr>))"

definition zset_remove :: "string \<Rightarrow> cache_object \<Rightarrow> bool \<times> cache_object" where
  "zset_remove m ob =
     (if otype ob \<noteq> ZSET then (False, ob)
      else if map_of (zset_val ob) m \<noteq> None then (True, ob\<lparr>zset_val := zset_erase m (zset_val ob)\<rparr>)
      else (False, ob))"

definition zset_score :: "string \<Rightarrow> cache_object \<Rightarrow> double option" where
  "zset_score m ob = (if otype ob \<noteq> ZSET then None else map_of (zset_val ob) m)"

definition zset_size :: "cache_object \<Rightarrow> nat" where
  "zset_size ob = length (zset_val ob)"

definition zset_range_by_score :: "double \<Rightarrow> double \<Rightarrow> cache_object \<Rightarrow> zmember list" where
  "zset_range_by_score lo hi ob =
     (if otype ob \<noteq> ZSET then [] else filter (\<lambda>(m, s). dle lo s \<and> dle s hi) (zset_val ob))"

definition zset_range_by_index :: "int \<Rightarrow> int \<Rightarrow> cache_object \<Rightarrow> zmember list" where
  "zset_range_by_index start stop ob = (if otype ob \<noteq> ZSET then [] else range_of start stop (zset_val ob))"

definition zset_all :: "cache_object \<Rightarrow> zmember list" where
  "zset_all ob = (if otype ob \<noteq> ZSET then [] else zset_val ob)"

section \<open>Well-formed objects\<close>

definition zkey :: "zmember \<Rightarrow> int \<times> string" where
  "zkey x = (dkey (snd x), fst x)"

definition zset_ok :: "zmember list \<Rightarrow> bool" where
  "zset_ok zs \<longleftrightarrow> sorted_wrt (<) (map zkey zs) \<and> distinct (map fst zs) \<and> list_all (\<lambda>x. is_finite_double (snd x)) zs"

text \<open>Only the payload the type tag selects is in use, and the associative payloads have no
  duplicate keys.\<close>

definition object_ok :: "cache_object \<Rightarrow> bool" where
  "object_ok ob \<longleftrightarrow>
     (otype ob \<noteq> STRING \<longrightarrow> string_val ob = []) \<and>
     (otype ob \<noteq> LIST \<longrightarrow> list_val ob = []) \<and>
     (otype ob \<noteq> HASH \<longrightarrow> hash_val ob = []) \<and>
     (otype ob \<noteq> SET \<longrightarrow> set_val ob = []) \<and>
     (otype ob \<noteq> ZSET \<longrightarrow> zset_val ob = []) \<and>
     distinct (map fst (hash_val ob)) \<and> distinct (set_val ob) \<and> zset_ok (zset_val ob)"

lemma CacheObject_simps [simp]:
  "otype CacheObject = STRING" "otype (CacheObject_string s) = STRING" "string_val (CacheObject_string s) = s"
  "otype (CacheObject_list l) = LIST" "list_val (CacheObject_list l) = l" "string_val CacheObject = []"
  by (simp_all add: CacheObject_def CacheObject_string_def CacheObject_list_def)

lemma zset_ok_Nil [simp]: "zset_ok []"
  by (simp add: zset_ok_def)

lemma object_ok_new [simp]: "object_ok CacheObject" "object_ok (CacheObject_string s)" "object_ok (CacheObject_list l)"
  by (simp_all add: object_ok_def CacheObject_def CacheObject_string_def CacheObject_list_def zset_ok_def)

lemma set_string_ok [wf_preserved]: "object_ok ob \<Longrightarrow> otype ob = STRING \<Longrightarrow> object_ok (set_string s ob)"
  by (auto simp: object_ok_def set_string_def)

lemma list_push_ok [wf_preserved]: "object_ok ob \<Longrightarrow> object_ok (snd (list_push v f ob))"
  by (auto simp: object_ok_def list_push_def discard_string_payload_def Let_def)

lemma list_pop_ok [wf_preserved]: "object_ok ob \<Longrightarrow> object_ok (snd (list_pop f ob))"
  by (auto simp: object_ok_def list_pop_def)

lemma hash_set_ok [wf_preserved]: "object_ok ob \<Longrightarrow> object_ok (snd (hash_set f v ob))"
  by (auto simp: object_ok_def hash_set_def discard_string_payload_def Let_def)

lemma hash_del_ok [wf_preserved]: "object_ok ob \<Longrightarrow> object_ok (snd (hash_del f ob))"
  by (auto simp: object_ok_def hash_del_def)

lemma set_add_ok [wf_preserved]: "object_ok ob \<Longrightarrow> object_ok (snd (set_add m ob))"
  by (auto simp: object_ok_def set_add_def discard_string_payload_def Let_def)

lemma set_remove_ok [wf_preserved]: "object_ok ob \<Longrightarrow> object_ok (snd (set_remove m ob))"
  by (auto simp: object_ok_def set_remove_def distinct_removeAll)

section \<open>The order of sorted sets\<close>

lemma zlt_key: "\<not> is_nan (snd a) \<Longrightarrow> \<not> is_nan (snd b) \<Longrightarrow> zlt a b \<longleftrightarrow> zkey a < zkey b"
  by (auto simp: zlt_def zkey_def dlt_key less_prod_def)

lemma zset_erase_filter: "distinct (map fst zs) \<Longrightarrow> zset_erase m zs = filter (\<lambda>x. fst x \<noteq> m) zs"
proof (induction zs)
  case (Cons y ys)
  then show ?case
    by (auto intro!: filter_True [symmetric] simp: image_iff)
qed simp

lemma sorted_keys_filter:
  "sorted_wrt (<) (map zkey zs) \<Longrightarrow> sorted_wrt (<) (map zkey (filter P zs))"
  by (simp add: sorted_wrt_map sorted_wrt_filter)

lemma zset_erase_ok [wf_preserved]: "zset_ok zs \<Longrightarrow> zset_ok (zset_erase m zs)"
  by (auto simp: zset_ok_def zset_erase_filter sorted_keys_filter distinct_map_filter list_all_iff)

lemma zset_insert_fresh_all:
  assumes "sorted_wrt (<) (map zkey zs)" "list_all (\<lambda>y. \<not> is_nan (snd y)) zs" "\<not> is_nan (snd x)"
    "fst x \<notin> fst ` set zs"
  shows "snd (zset_insert x zs) \<and> set (fst (zset_insert x zs)) = insert x (set zs) \<and>
    sorted_wrt (<) (map zkey (fst (zset_insert x zs))) \<and>
    (distinct (map fst zs) \<longrightarrow> distinct (map fst (fst (zset_insert x zs))))"
  using assms
proof (induction x zs rule: zset_insert.induct)
  case (2 x y ys)
  have cmp: "zlt x y \<longleftrightarrow> zkey x < zkey y" "zlt y x \<longleftrightarrow> zkey y < zkey x" "zkey x \<noteq> zkey y"
    using "2.prems" by (auto simp: zlt_key zkey_def)
  show ?case
  proof (cases "zkey x < zkey y")
    case True
    with "2.prems" cmp show ?thesis
      by (auto intro: less_trans)
  next
    case False
    then have "zkey y < zkey x"
      using cmp(3) by (meson linorder_neqE)
    moreover from this have "snd (zset_insert x ys) \<and> set (fst (zset_insert x ys)) = insert x (set ys) \<and>
      sorted_wrt (<) (map zkey (fst (zset_insert x ys))) \<and>
      (distinct (map fst ys) \<longrightarrow> distinct (map fst (fst (zset_insert x ys))))"
      using 2 cmp False by auto
    ultimately show ?thesis
      using "2.prems" cmp False by (auto simp: case_prod_unfold)
  qed
qed simp

lemmas zset_insert_fresh = zset_insert_fresh_all [THEN conjunct1]
  zset_insert_fresh_all [THEN conjunct2, THEN conjunct1]
  zset_insert_fresh_all [THEN conjunct2, THEN conjunct2, THEN conjunct1]
  zset_insert_fresh_all [THEN conjunct2, THEN conjunct2, THEN conjunct2, rule_format]

lemma zset_insert_present:
  assumes "sorted_wrt (<) (map zkey zs)" "list_all (\<lambda>y. \<not> is_nan (snd y)) zs" "\<not> is_nan (snd x)"
    "zkey x \<in> zkey ` set zs"
  shows "zset_insert x zs = (zs, False)"
  using assms
proof (induction x zs rule: zset_insert.induct)
  case (2 x y ys)
  show ?case
  proof (cases "zkey x = zkey y")
    case True
    with 2 show ?thesis
      by (simp add: zlt_key)
  next
    case False
    with "2.prems" have "zkey y < zkey x"
      by auto
    with 2 False show ?thesis
      by (auto simp: zlt_key)
  qed
qed simp

lemma zset_add_zset:
  assumes "zset_ok zs" "is_finite_double sc"
    "score_changed = (case map_of zs m of None \<Rightarrow> False | Some s \<Rightarrow> \<not> deq s sc)"
    "zset_insert (m, sc) (if score_changed then zset_erase m zs else zs) = (zs', ins)"
  shows "zset_ok zs'"
    "map_of zs' = (case map_of zs m of Some s \<Rightarrow> if deq s sc then map_of zs else (map_of zs)(m \<mapsto> sc)
                   | None \<Rightarrow> (map_of zs)(m \<mapsto> sc))"
    "ins \<or> score_changed \<longleftrightarrow> (case map_of zs m of None \<Rightarrow> True | Some s \<Rightarrow> \<not> deq s sc)"
proof -
  let ?b = "if score_changed then zset_erase m zs else zs"
  have b: "zset_ok ?b"
    using assms(1) by (simp add: zset_erase_ok)
  then have b': "sorted_wrt (<) (map zkey ?b)" "list_all (\<lambda>y. \<not> is_nan (snd y)) ?b" "\<not> is_nan (snd (m, sc))"
    using assms(2) by (auto simp: zset_ok_def list_all_iff)
  have d: "distinct (map fst zs)"
    using assms(1) by (simp add: zset_ok_def)
  have "zset_ok zs' \<and> map_of zs' = (case map_of zs m of Some s \<Rightarrow> if deq s sc then map_of zs else (map_of zs)(m \<mapsto> sc)
                   | None \<Rightarrow> (map_of zs)(m \<mapsto> sc)) \<and>
        (ins \<or> score_changed \<longleftrightarrow> (case map_of zs m of None \<Rightarrow> True | Some s \<Rightarrow> \<not> deq s sc))"
  proof (cases "\<exists>s. map_of zs m = Some s \<and> deq s sc")
    case True
    then obtain s where s: "map_of zs m = Some s" "deq s sc"
      by blast
    then have "zkey (m, sc) = zkey (m, s)" "(m, s) \<in> set zs" "\<not> score_changed"
      using assms(3) by (auto simp: zkey_def deq_def dest: map_of_SomeD)
    then have "zset_insert (m, sc) ?b = (zs, False)"
      using zset_insert_present [OF b'] by force
    with s assms(1,3,4) show ?thesis
      by simp
  next
    case False
    have fresh: "m \<notin> fst ` set ?b"
      using False assms(3) d
      by (cases "map_of zs m") (auto simp: zset_erase_filter map_of_eq_None_iff)
    have others: "(x \<in> set ?b) = (x \<in> set zs \<and> fst x \<noteq> m)" for x
      using False assms(3) d by (cases "map_of zs m") (auto simp: zset_erase_filter map_of_eq_None_iff image_iff)
    note ins = zset_insert_fresh [OF b', unfolded fst_conv, OF fresh]
    have zs': "zs' = fst (zset_insert (m, sc) ?b)" "ins"
      using assms(4) ins(1) by auto
    have ok: "zset_ok zs'"
      using ins b assms(2) by (auto simp: zset_ok_def zs'(1) list_all_iff)
    have mem: "(k, v) \<in> set zs' \<longleftrightarrow> (k, v) = (m, sc) \<or> (k, v) \<in> set zs \<and> k \<noteq> m" for k v
      using ins(2) others [of "(k, v)"] by (simp only: zs'(1) insert_iff fst_conv)
    have dz: "distinct (map fst zs')"
      using ok by (simp add: zset_ok_def)
    have "map_of zs' = (map_of zs)(m \<mapsto> sc)"
    proof (rule map_eq_SomeI)
      fix k v
      show "map_of zs' k = Some v \<longleftrightarrow> ((map_of zs)(m \<mapsto> sc)) k = Some v"
        unfolding map_of_eq_Some_iff [OF dz] mem using map_of_eq_Some_iff [OF d, of k v] by auto
    qed
    with ok zs'(2) False show ?thesis
      by (auto split: option.splits)
  qed
  then show "zset_ok zs'"
    "map_of zs' = (case map_of zs m of Some s \<Rightarrow> if deq s sc then map_of zs else (map_of zs)(m \<mapsto> sc)
                   | None \<Rightarrow> (map_of zs)(m \<mapsto> sc))"
    "ins \<or> score_changed \<longleftrightarrow> (case map_of zs m of None \<Rightarrow> True | Some s \<Rightarrow> \<not> deq s sc)"
    by blast+
qed

lemma zset_add_ok [wf_preserved]:
  assumes "object_ok ob" "is_finite_double sc"
  shows "object_ok (snd (zset_add m sc ob))"
proof (cases "otype ob = ZSET \<or> otype ob = STRING")
  case True
  have "zset_ok (zset_val ob)"
    using assms(1) by (simp add: object_ok_def)
  from zset_add_zset(1) [OF this assms(2) refl surjective_pairing, of m] True assms(1) show ?thesis
    by (auto simp: object_ok_def zset_add_def discard_string_payload_def Let_def case_prod_unfold)
qed (use assms in \<open>simp add: zset_add_def\<close>)

lemma zset_remove_ok [wf_preserved]: "object_ok ob \<Longrightarrow> object_ok (snd (zset_remove m ob))"
  by (auto simp: object_ok_def zset_remove_def zset_erase_ok)

section \<open>Index ranges\<close>

lemma range_of_index:
  assumes "int64_ok (int (length xs))" "int64_ok start" "int64_ok stop"
    "- int (length xs) \<le> start" "- int (length xs) \<le> stop"
  shows "range_of start stop xs =
    (let a = norm_index (length xs) start; b = min (norm_index (length xs) stop) (int (length xs) - 1) in
     if a \<le> b then slice a b xs else [])"
proof (cases "xs = []")
  case False
  define f where "f i = (if i < 0 then add64 (int (length xs)) i else i)" for i
  have f: "f start = norm_index (length xs) start" "f stop = norm_index (length xs) stop"
    using assms by (auto simp: f_def norm_index_def add64_id int64_arith)
  have pos: "0 \<le> f start" "0 \<le> f stop" "int64_ok (f start)" "int64_ok (f stop)"
    using assms f by (auto simp: norm_index_def int64_arith)
  have "range_of start stop xs = (case clip_range (length xs) (f start) (f stop) of None \<Rightarrow> []
     | Some (a, b) \<Rightarrow> slice a b xs)"
    using False by (simp add: range_of_def Let_def f_def)
  also have "\<dots> = (let b = min (f stop) (int (length xs) - 1) in if f start \<le> b then slice (f start) b xs else [])"
    using clip_range_in_range [OF assms(1) pos(3,4)] pos by (simp add: Let_def)
  finally show ?thesis
    by (simp only: f Let_def)
qed (simp add: range_of_def slice_def Let_def)

lemma set_slice: "set (slice a b xs) \<subseteq> set xs"
  by (auto simp: slice_def dest: in_set_takeD in_set_dropD)

lemma set_range_of: "set (range_of start stop xs) \<subseteq> set xs"
  using set_slice by (fastforce simp: range_of_def Let_def split: option.splits if_splits)

section \<open>Properties\<close>

text \<open>C30: adding a member to a sorted set keeps every invariant of the object, gives the member the
  new score unless it already has an equal one, leaves all other members alone, and reports
  whether something changed.\<close>

theorem zset_add_correct:
  assumes "object_ok ob" "otype ob = ZSET \<or> otype ob = STRING" "is_finite_double sc"
  shows "object_ok (snd (zset_add m sc ob)) \<and>
    zset_score k (snd (zset_add m sc ob)) =
      (if k = m \<and> (case zset_score m ob of None \<Rightarrow> True | Some s \<Rightarrow> \<not> deq s sc) then Some sc else zset_score k ob) \<and>
    (fst (zset_add m sc ob) \<longleftrightarrow> (case zset_score m ob of None \<Rightarrow> True | Some s \<Rightarrow> \<not> deq s sc))"
proof -
  have ok: "zset_ok (zset_val ob)" and e: "otype ob = STRING \<Longrightarrow> zset_val ob = []"
    using assms(1) by (auto simp: object_ok_def)
  note add = zset_add_zset(2,3) [OF ok assms(3) refl surjective_pairing, of m]
  show ?thesis
    using zset_add_ok [OF assms(1,3)] assms(2) e add
    by (auto simp: zset_add_def zset_score_def discard_string_payload_def Let_def case_prod_unfold
        split: option.splits if_splits)
qed

theorem zset_add_correct_witness:
  "zset_score ''m'' (snd (zset_add ''m'' 0 CacheObject)) = Some 0"
  using zset_add_correct [of CacheObject 0 "''m''" "''m''"]
  by (simp add: is_finite_double_def is_nan_def is_inf_def magnitude_def inf_bits_def zset_score_def)

text \<open>For indices not further than one length before the start, LRANGE returns the documented
  inclusive slice, with negative indices counted from the end.\<close>

theorem list_range_slice:
  assumes "otype ob = LIST" "int64_ok (int (list_size ob))" "int64_ok start" "int64_ok stop"
    "- int (list_size ob) \<le> start" "- int (list_size ob) \<le> stop"
  shows "list_range start stop ob =
    (let n = list_size ob; a = norm_index n start; b = min (norm_index n stop) (int n - 1) in
     if a \<le> b then slice a b (list_val ob) else [])"
  using assms range_of_index [of "list_val ob" start stop] by (simp add: list_range_def list_size_def Let_def)

theorem list_range_slice_witness:
  "list_range (-2) (-1) (CacheObject_list [''a'', ''b'', ''c'']) = [''b'', ''c'']"
  using list_range_slice [of "CacheObject_list [''a'', ''b'', ''c'']" "-2" "-1"]
  by (simp add: list_size_def norm_index_def slice_def int64_arith Let_def numeral_eq_Suc)

text \<open>Beyond that, the index is normalised twice, here and in \<^verbatim>\<open>clip_range\<close>, and the answer is wrong:
  a stop seven before the start of five elements selects four of them, and a start
  seven before selects the last two instead of all.\<close>

lemma list_range_double_normalisation:
  "list_range 0 (-7) (CacheObject_list [''a'', ''b'', ''c'', ''d'', ''e'']) = [''a'', ''b'', ''c'', ''d'']"
  "list_range (-7) (-1) (CacheObject_list [''a'', ''b'', ''c'', ''d'', ''e'']) = [''d'', ''e'']"
  by code_simp+

end
