(* ===== verification/CC_Object_Codec.thy ===== *)
theory CC_Object_Codec
  imports CC_Object
begin

text \<open>
  The payload format of \<^verbatim>\<open>CacheObject::serialize\<close> and \<^verbatim>\<open>deserialize\<close>, used by RESTORE, by key migration
  and by full synchronisation: a type tag line followed by length-prefixed records.  A reading
  position in the payload is represented by the bytes behind it.
\<close>

section \<open>Records\<close>

definition from_chars_ull :: "string \<Rightarrow> (nat \<times> string) option" where
  "from_chars_ull s =
     (let ds = takeWhile is_digit s in
      if ds = [] \<or> dec_val ds > 18446744073709551615 then None
      else Some (dec_val ds, dropWhile is_digit s))"

definition append_record :: "string \<Rightarrow> string \<Rightarrow> string" where
  "append_record out payload = out @ to_dec (length payload) @ [LF] @ payload"

definition read_record :: "string \<Rightarrow> (string \<times> string) option" where
  "read_record buf =
     (if LF \<notin> set buf then None
      else let head = takeWhile (\<lambda>c. c \<noteq> LF) buf; rest = drop (length head + 1) buf in
           case from_chars_ull head of None \<Rightarrow> None
           | Some (len, tail) \<Rightarrow>
             if tail \<noteq> [] then None
             else if len > length rest then None
             else Some (take len rest, drop len rest))"

definition read_count :: "string \<Rightarrow> (nat \<times> string) option" where
  "read_count buf =
     (case read_record buf of None \<Rightarrow> None
      | Some (head, rest) \<Rightarrow>
        (case from_chars_ull head of None \<Rightarrow> None
         | Some (v, tail) \<Rightarrow> if tail \<noteq> [] then None else Some (v, rest)))"

definition read_score :: "fp_lib \<Rightarrow> string \<Rightarrow> double option" where
  "read_score lib text =
     (case from_chars_double lib text of None \<Rightarrow> None
      | Some (score, tail) \<Rightarrow>
        if tail \<noteq> [] then None
        else if \<not> is_nan score \<and> \<not> is_inf score then Some score else None)"

section \<open>Serialize\<close>

definition serialize :: "fp_lib \<Rightarrow> cache_object \<Rightarrow> string" where
  "serialize lib ob = (case otype ob of
       STRING \<Rightarrow> append_record (''STRING'' @ [LF]) (string_val ob)
     | LIST \<Rightarrow> foldl append_record
         (append_record (''LIST'' @ [LF]) (to_dec (length (list_val ob)))) (list_val ob)
     | HASH \<Rightarrow> foldl (\<lambda>result (k, v). append_record (append_record result k) v)
         (append_record (''HASH'' @ [LF]) (to_dec (length (hash_val ob)))) (hash_val ob)
     | SET \<Rightarrow> foldl append_record
         (append_record (''SET'' @ [LF]) (to_dec (length (set_val ob)))) (set_val ob)
     | ZSET \<Rightarrow> foldl (\<lambda>result (m, s). append_record (append_record result m) (print_g17 lib s))
         (append_record (''ZSET'' @ [LF]) (to_dec (length (zset_val ob)))) (zset_val ob))"

section \<open>Deserialize\<close>

primrec read_list :: "nat \<Rightarrow> string \<Rightarrow> (string list \<times> string) option" where
  "read_list 0 buf = Some ([], buf)"
| "read_list (Suc n) buf =
     (case read_record buf of None \<Rightarrow> None
      | Some (elem, rest) \<Rightarrow>
        (case read_list n rest of None \<Rightarrow> None | Some (elems, rest') \<Rightarrow> Some (elem # elems, rest')))"

primrec load_hash :: "nat \<Rightarrow> string \<Rightarrow> cache_object \<Rightarrow> (cache_object \<times> string) option" where
  "load_hash 0 buf ob = Some (ob, buf)"
| "load_hash (Suc n) buf ob =
     (case read_record buf of None \<Rightarrow> None
      | Some (field, r1) \<Rightarrow>
        (case read_record r1 of None \<Rightarrow> None
         | Some (val, r2) \<Rightarrow> load_hash n r2 (snd (hash_set field val ob))))"

primrec load_set :: "nat \<Rightarrow> string \<Rightarrow> cache_object \<Rightarrow> (cache_object \<times> string) option" where
  "load_set 0 buf ob = Some (ob, buf)"
| "load_set (Suc n) buf ob =
     (case read_record buf of None \<Rightarrow> None
      | Some (m, rest) \<Rightarrow> load_set n rest (snd (set_add m ob)))"

primrec load_zset :: "fp_lib \<Rightarrow> nat \<Rightarrow> nat \<Rightarrow> string \<Rightarrow> cache_object \<Rightarrow> string + (cache_object \<times> string)" where
  "load_zset lib wanted 0 buf ob = Inr (ob, buf)"
| "load_zset lib wanted (Suc n) buf ob =
     (let truncated = Inl (''truncated ZSET payload: wanted '' @ to_dec wanted @ '' members'') in
      case read_record buf of None \<Rightarrow> truncated
      | Some (m, r1) \<Rightarrow>
        (case read_record r1 of None \<Rightarrow> truncated
         | Some (score_text, r2) \<Rightarrow>
           (case read_score lib score_text of
              None \<Rightarrow> Inl (''ZSET score is not a finite number: '' @ [CHR 0x27] @ score_text @ [CHR 0x27])
            | Some score \<Rightarrow> load_zset lib wanted n r2 (snd (zset_add m score ob)))))"

definition finish :: "string \<Rightarrow> cache_object \<times> string \<Rightarrow> string + cache_object" where
  "finish what r = (if snd r \<noteq> [] then Inl (what @ '': trailing bytes in payload'') else Inr (fst r))"

definition deserialize :: "fp_lib \<Rightarrow> string \<Rightarrow> cache_object \<Rightarrow> string + cache_object" where
  "deserialize lib payload ob =
     (if LF \<notin> set payload then Inl ''payload has no type tag''
      else let type = takeWhile (\<lambda>c. c \<noteq> LF) payload; body = drop (length type + 1) payload in
        if type = ''STRING'' then
          (case read_record body of None \<Rightarrow> Inl ''truncated STRING payload''
           | Some (val, rest) \<Rightarrow> finish ''STRING'' (set_string val ob, rest))
        else if type = ''LIST'' then
          (case read_count body of None \<Rightarrow> Inl ''bad LIST element count''
           | Some (count, rest) \<Rightarrow>
             (case read_list count rest of
                None \<Rightarrow> Inl (''truncated LIST payload: wanted '' @ to_dec count @ '' elements'')
              | Some (elems, rest') \<Rightarrow>
                finish ''LIST'' (foldl (\<lambda>ob e. snd (list_push e False ob)) ob elems, rest')))
        else if type = ''HASH'' then
          (case read_count body of None \<Rightarrow> Inl ''bad HASH field count''
           | Some (count, rest) \<Rightarrow>
             (case load_hash count rest ob of
                None \<Rightarrow> Inl (''truncated HASH payload: wanted '' @ to_dec count @ '' pairs'')
              | Some r \<Rightarrow> finish ''HASH'' r))
        else if type = ''SET'' then
          (case read_count body of None \<Rightarrow> Inl ''bad SET member count''
           | Some (count, rest) \<Rightarrow>
             (case load_set count rest ob of
                None \<Rightarrow> Inl (''truncated SET payload: wanted '' @ to_dec count @ '' members'')
              | Some r \<Rightarrow> finish ''SET'' r))
        else if type = ''ZSET'' then
          (case read_count body of None \<Rightarrow> Inl ''bad ZSET member count''
           | Some (count, rest) \<Rightarrow>
             (case load_zset lib count count rest ob of Inl e \<Rightarrow> Inl e | Inr r \<Rightarrow> finish ''ZSET'' r))
        else Inl (''unsupported payload type '' @ [CHR 0x27] @ type @ [CHR 0x27]))"

section \<open>Reading back one record\<close>

abbreviation rec :: "string \<Rightarrow> string" where
  "rec s \<equiv> append_record [] s"

abbreviation recs :: "string list \<Rightarrow> string" where
  "recs ss \<equiv> concat (map rec ss)"

definition size_ok :: "string \<Rightarrow> bool" where
  "size_ok s \<longleftrightarrow> length s \<le> 18446744073709551615"

lemma append_record_rec: "append_record out s = out @ rec s"
  by (simp add: append_record_def)

lemma foldl_append_record: "foldl append_record out ss = out @ recs ss"
proof (induction ss arbitrary: out)
  case (Cons s ss)
  then show ?case
    by (simp add: append_record_rec [of "append_record out s"] append_record_rec [of out])
qed simp

lemma LF_notin_to_dec [simp]: "LF \<notin> set (to_dec n)"
  using to_dec_digits [of n] by (auto simp: list_all_iff)

lemma from_chars_ull_to_dec [codec]: "n \<le> 18446744073709551615 \<Longrightarrow> from_chars_ull (to_dec n) = Some (n, [])"
  by (simp add: from_chars_ull_def del: takeWhile_eq_all_conv dropWhile_eq_Nil_conv)

lemma takeWhile_line: "LF \<notin> set t \<Longrightarrow> takeWhile (\<lambda>c. c \<noteq> LF) (t @ LF # r) = t"
  by (induction t) auto

lemma read_record_rec [codec]: "size_ok s \<Longrightarrow> read_record (rec s @ r) = Some (s, r)"
  by (simp add: read_record_def append_record_def takeWhile_line size_ok_def from_chars_ull_to_dec)

lemma read_record_cut:
  assumes "k < length (rec s)" "size_ok s"
  shows "read_record (take k (rec s)) = None"
proof (cases "k \<le> length (to_dec (length s))")
  case True
  then have "take k (rec s) = take k (to_dec (length s))"
    by (simp add: append_record_def)
  then show ?thesis
    using LF_notin_to_dec [of "length s"] by (auto simp: read_record_def dest: in_set_takeD)
next
  case False
  then have "take k (rec s) = to_dec (length s) @ LF # take (k - length (to_dec (length s)) - 1) s"
    by (simp add: append_record_def take_Cons')
  moreover have "k - length (to_dec (length s)) - 1 < length s"
    using assms(1) False by (simp add: append_record_def)
  ultimately show ?thesis
    using assms(2) by (simp add: read_record_def takeWhile_line size_ok_def from_chars_ull_to_dec)
qed

section \<open>Reading back a sequence of records\<close>

lemma read_list_recs [codec]: "list_all size_ok ss \<Longrightarrow> read_list (length ss) (recs ss @ r) = Some (ss, r)"
  by (induction ss) (simp_all add: read_record_rec)

lemma read_list_cut:
  "list_all size_ok ss \<Longrightarrow> k < length (recs ss) \<Longrightarrow> read_list (length ss) (take k (recs ss)) = None"
proof (induction ss arbitrary: k)
  case (Cons s ss)
  show ?case
  proof (cases "k < length (rec s)")
    case True
    with Cons.prems show ?thesis
      by (simp add: read_record_cut)
  next
    case False
    then have "take k (recs (s # ss)) = rec s @ take (k - length (rec s)) (recs ss)"
      by simp
    moreover have "read_list (length ss) (take (k - length (rec s)) (recs ss)) = None"
      using Cons False by auto
    ultimately show ?thesis
      using Cons.prems by (simp add: read_record_rec)
  qed
qed simp

lemma load_set_as_list:
  "load_set n buf ob =
   map_option (\<lambda>(ss, rest). (foldl (\<lambda>ob m. snd (set_add m ob)) ob ss, rest)) (read_list n buf)"
  by (induction n arbitrary: buf ob) (auto split: option.splits)

fun pairs_of :: "'a list \<Rightarrow> ('a \<times> 'a) list" where
  "pairs_of (a # b # r) = (a, b) # pairs_of r"
| "pairs_of _ = []"

lemma load_hash_as_list:
  "load_hash n buf ob =
   map_option (\<lambda>(ss, rest). (foldl (\<lambda>ob (f, v). snd (hash_set f v ob)) ob (pairs_of ss), rest)) (read_list (2 * n) buf)"
  by (induction n arbitrary: buf ob) (auto split: option.splits)

lemma load_zset_no_list: "read_list (2 * n) buf = None \<Longrightarrow> \<exists>e. load_zset lib w n buf ob = Inl e"
  by (induction n arbitrary: buf ob) (auto simp: Let_def split: option.splits)

section \<open>The record view of a payload\<close>

fun type_tag :: "object_type \<Rightarrow> string" where
  "type_tag STRING = ''STRING''"
| "type_tag LIST = ''LIST''"
| "type_tag HASH = ''HASH''"
| "type_tag SET = ''SET''"
| "type_tag ZSET = ''ZSET''"

definition zfields :: "fp_lib \<Rightarrow> zmember list \<Rightarrow> string list" where
  "zfields lib zs = concat (map (\<lambda>(m, s). [m, print_g17 lib s]) zs)"

definition hfields :: "(string \<times> string) list \<Rightarrow> string list" where
  "hfields al = concat (map (\<lambda>(k, v). [k, v]) al)"

definition elements :: "fp_lib \<Rightarrow> cache_object \<Rightarrow> string list" where
  "elements lib ob = (case otype ob of STRING \<Rightarrow> [string_val ob] | LIST \<Rightarrow> list_val ob | HASH \<Rightarrow> hfields (hash_val ob)
     | SET \<Rightarrow> set_val ob | ZSET \<Rightarrow> zfields lib (zset_val ob))"

definition element_count :: "cache_object \<Rightarrow> nat" where
  "element_count ob = (case otype ob of STRING \<Rightarrow> 1 | LIST \<Rightarrow> length (list_val ob) | HASH \<Rightarrow> length (hash_val ob)
     | SET \<Rightarrow> length (set_val ob) | ZSET \<Rightarrow> length (zset_val ob))"

definition fields :: "fp_lib \<Rightarrow> cache_object \<Rightarrow> string list" where
  "fields lib ob = (if otype ob = STRING then [string_val ob] else to_dec (element_count ob) # elements lib ob)"

lemma foldl_hash_recs:
  "foldl (\<lambda>result (k, v). append_record (append_record result k) v) out al = out @ recs (hfields al)"
proof (induction al arbitrary: out)
  case (Cons p al)
  obtain k v where "p = (k, v)"
    by fastforce
  with Cons show ?case
    by (simp add: hfields_def append_record_def)
qed (simp add: hfields_def)

lemma foldl_zset_recs:
  "foldl (\<lambda>result (m, s). append_record (append_record result m) (print_g17 lib s)) out zs = out @ recs (zfields lib zs)"
proof (induction zs arbitrary: out)
  case (Cons p zs)
  obtain m s where "p = (m, s)"
    by fastforce
  with Cons show ?case
    by (simp add: zfields_def append_record_def)
qed (simp add: zfields_def)

lemma serialize_recs: "serialize lib ob = type_tag (otype ob) @ LF # recs (fields lib ob)"
  by (cases "otype ob")
    (simp_all add: serialize_def fields_def elements_def element_count_def foldl_append_record
      foldl_hash_recs foldl_zset_recs append_record_rec [of "_ @ _"] append_record_rec [of "_ # _"])

lemma LF_notin_tag [simp]: "LF \<notin> set (type_tag t)"
  by (induction t) code_simp+

lemma body_of_tagged:
  "takeWhile (\<lambda>c. c \<noteq> LF) (type_tag t @ LF # r) = type_tag t"
  "drop (length (type_tag t) + 1) (type_tag t @ LF # r) = r"
  by (simp_all add: takeWhile_line)

section \<open>Rebuilding the object\<close>

definition rebuilt :: "object_type \<Rightarrow> string list \<Rightarrow> (string \<times> string) list \<Rightarrow> string list \<Rightarrow> zmember list \<Rightarrow> cache_object" where
  "rebuilt t ls al ss zs =
     (if ls = [] \<and> al = [] \<and> ss = [] \<and> zs = [] then CacheObject
      else CacheObject\<lparr>otype := t, list_val := ls, hash_val := al, set_val := ss, zset_val := zs\<rparr>)"

lemma list_push_rebuilt: "snd (list_push e False (rebuilt LIST ls [] [] [])) = rebuilt LIST (ls @ [e]) [] [] []"
  by (auto simp: rebuilt_def list_push_def CacheObject_def discard_string_payload_def)

lemma foldl_list_push:
  "foldl (\<lambda>ob e. snd (list_push e False ob)) (rebuilt LIST ls [] [] []) es = rebuilt LIST (ls @ es) [] [] []"
  by (induction es arbitrary: ls) (simp_all add: list_push_rebuilt)

lemma update_fresh: "k \<notin> fst ` set al \<Longrightarrow> AList.update k v al = al @ [(k, v)]"
  by (induction al) auto

lemma hash_set_rebuilt:
  "f \<notin> fst ` set al \<Longrightarrow> snd (hash_set f v (rebuilt HASH [] al [] [])) = rebuilt HASH [] (al @ [(f, v)]) [] []"
  by (auto simp: rebuilt_def hash_set_def CacheObject_def discard_string_payload_def update_fresh)

lemma foldl_hash_set:
  "distinct (map fst (al @ ps)) \<Longrightarrow>
   foldl (\<lambda>ob (f, v). snd (hash_set f v ob)) (rebuilt HASH [] al [] []) ps = rebuilt HASH [] (al @ ps) [] []"
  by (induction ps arbitrary: al) (auto simp: hash_set_rebuilt)

lemma pairs_of_hfields [simp]: "pairs_of (hfields al) = al"
  by (induction al) (auto simp: hfields_def)

lemma length_hfields [simp]: "length (hfields al) = 2 * length al"
  by (induction al) (auto simp: hfields_def)

lemma set_add_rebuilt:
  "m \<notin> set ss \<Longrightarrow> snd (set_add m (rebuilt SET [] [] ss [])) = rebuilt SET [] [] (ss @ [m]) []"
  by (auto simp: rebuilt_def set_add_def CacheObject_def discard_string_payload_def Let_def)

lemma foldl_set_add:
  "distinct (ss @ ms) \<Longrightarrow>
   foldl (\<lambda>ob m. snd (set_add m ob)) (rebuilt SET [] [] ss []) ms = rebuilt SET [] [] (ss @ ms) []"
  by (induction ms arbitrary: ss) (auto simp: set_add_rebuilt)

lemma zset_insert_last:
  "list_all (\<lambda>y. \<not> is_nan (snd y)) zs \<Longrightarrow> \<not> is_nan (snd x) \<Longrightarrow> list_all (\<lambda>y. zkey y < zkey x) zs \<Longrightarrow>
   zset_insert x zs = (zs @ [x], True)"
  by (induction zs) (auto simp: zlt_key dest: less_asym)

lemma zset_add_rebuilt:
  assumes "zset_ok (zs @ [(m, s)])"
  shows "snd (zset_add m s (rebuilt ZSET [] [] [] zs)) = rebuilt ZSET [] [] [] (zs @ [(m, s)])"
proof -
  have "map_of zs m = None"
    using assms by (auto simp: zset_ok_def map_of_eq_None_iff)
  moreover have "zset_insert (m, s) zs = (zs @ [(m, s)], True)"
    using assms by (intro zset_insert_last) (auto simp: zset_ok_def sorted_wrt_append list_all_iff)
  ultimately show ?thesis
    by (auto simp: zset_add_def rebuilt_def CacheObject_def discard_string_payload_def Let_def)
qed

lemma length_zfields [simp]: "length (zfields lib zs) = 2 * length zs"
  by (induction zs) (auto simp: zfields_def)

definition g17_exact :: "fp_lib \<Rightarrow> bool" where
  "g17_exact lib \<longleftrightarrow> (\<forall>d. is_finite_double d \<longrightarrow> from_chars_double lib (print_g17 lib d) = Some (d, []))"

lemma read_score_print: "g17_exact lib \<Longrightarrow> is_finite_double d \<Longrightarrow> read_score lib (print_g17 lib d) = Some d"
  by (simp add: g17_exact_def read_score_def is_finite_double_def)

lemma zset_ok_prefix: "zset_ok (xs @ ys) \<Longrightarrow> zset_ok xs"
  by (auto simp: zset_ok_def sorted_wrt_append)

lemma load_zset_recs:
  assumes "g17_exact lib"
  shows "zset_ok (acc @ zs) \<Longrightarrow> list_all size_ok (zfields lib zs) \<Longrightarrow>
    load_zset lib w (length zs) (recs (zfields lib zs) @ r) (rebuilt ZSET [] [] [] acc) = Inr (rebuilt ZSET [] [] [] (acc @ zs), r)"
proof (induction zs arbitrary: acc)
  case (Cons x zs)
  obtain m s where x: "x = (m, s)"
    by fastforce
  have ok: "zset_ok (acc @ [(m, s)])" "is_finite_double s"
    using Cons.prems(1) x zset_ok_prefix [of "acc @ [(m, s)]" zs] by (auto simp: zset_ok_def)
  have "size_ok m" "size_ok (print_g17 lib s)" "list_all size_ok (zfields lib zs)"
    using Cons.prems(2) x by (simp_all add: zfields_def)
  with Cons.IH [of "acc @ [(m, s)]"] Cons.prems(1) ok x show ?case
    using read_record_rec [of "print_g17 lib s" "recs (zfields lib zs) @ r"]
    by (simp add: zfields_def read_record_rec read_score_print [OF assms] zset_add_rebuilt)
qed (simp add: zfields_def)

section \<open>Whole payloads\<close>

definition payload_ok :: "fp_lib \<Rightarrow> cache_object \<Rightarrow> bool" where
  "payload_ok lib ob \<longleftrightarrow> list_all size_ok (elements lib ob) \<and> element_count ob \<le> 18446744073709551615"

lemma length_to_dec: "length (to_dec n) \<le> max 1 n"
proof (induction n rule: to_dec.induct)
  case (1 n)
  show ?case
  proof (cases "n < 10")
    case False
    then have "length (to_dec n) = Suc (length (to_dec (n div 10)))"
      by (subst to_dec.simps) simp
    moreover have "max 1 (n div 10) < n"
      using False by auto
    ultimately show ?thesis
      using 1 [OF False] by linarith
  qed (simp add: to_dec.simps)
qed

lemma size_ok_to_dec [simp]: "n \<le> 18446744073709551615 \<Longrightarrow> size_ok (to_dec n)"
  using length_to_dec [of n] by (auto simp: size_ok_def max_def split: if_splits)

lemma read_count_rec [codec]: "n \<le> 18446744073709551615 \<Longrightarrow> read_count (rec (to_dec n) @ r) = Some (n, r)"
  by (simp add: read_count_def read_record_rec from_chars_ull_to_dec)

lemma read_count_cut:
  "n \<le> 18446744073709551615 \<Longrightarrow> k < length (rec (to_dec n)) \<Longrightarrow> read_count (take k (rec (to_dec n))) = None"
  by (simp add: read_count_def read_record_cut)

lemma deserialize_tagged:
  "deserialize lib (type_tag t @ LF # body) ob = (case t of
       STRING \<Rightarrow> (case read_record body of None \<Rightarrow> Inl ''truncated STRING payload''
           | Some (val, rest) \<Rightarrow> finish ''STRING'' (set_string val ob, rest))
     | LIST \<Rightarrow> (case read_count body of None \<Rightarrow> Inl ''bad LIST element count''
           | Some (count, rest) \<Rightarrow>
             (case read_list count rest of
                None \<Rightarrow> Inl (''truncated LIST payload: wanted '' @ to_dec count @ '' elements'')
              | Some (elems, rest') \<Rightarrow> finish ''LIST'' (foldl (\<lambda>ob e. snd (list_push e False ob)) ob elems, rest')))
     | HASH \<Rightarrow> (case read_count body of None \<Rightarrow> Inl ''bad HASH field count''
           | Some (count, rest) \<Rightarrow>
             (case load_hash count rest ob of
                None \<Rightarrow> Inl (''truncated HASH payload: wanted '' @ to_dec count @ '' pairs'')
              | Some r \<Rightarrow> finish ''HASH'' r))
     | SET \<Rightarrow> (case read_count body of None \<Rightarrow> Inl ''bad SET member count''
           | Some (count, rest) \<Rightarrow>
             (case load_set count rest ob of
                None \<Rightarrow> Inl (''truncated SET payload: wanted '' @ to_dec count @ '' members'')
              | Some r \<Rightarrow> finish ''SET'' r))
     | ZSET \<Rightarrow> (case read_count body of None \<Rightarrow> Inl ''bad ZSET member count''
           | Some (count, rest) \<Rightarrow>
             (case load_zset lib count count rest ob of Inl e \<Rightarrow> Inl e | Inr r \<Rightarrow> finish ''ZSET'' r)))"
  unfolding deserialize_def body_of_tagged Let_def by (cases t) simp_all

lemma rebuilt_same:
  assumes "object_ok ob" "otype ob \<noteq> STRING \<Longrightarrow> element_count ob > 0"
  shows "otype ob = STRING \<Longrightarrow> set_string (string_val ob) CacheObject = ob"
    "otype ob = LIST \<Longrightarrow> rebuilt LIST (list_val ob) [] [] [] = ob"
    "otype ob = HASH \<Longrightarrow> rebuilt HASH [] (hash_val ob) [] [] = ob"
    "otype ob = SET \<Longrightarrow> rebuilt SET [] [] (set_val ob) [] = ob"
    "otype ob = ZSET \<Longrightarrow> rebuilt ZSET [] [] [] (zset_val ob) = ob"
  using assms
  by (auto simp: rebuilt_def set_string_def CacheObject_def object_ok_def element_count_def
      intro!: cache_object.equality)

lemma rebuilt_empty [simp]: "rebuilt t [] [] [] [] = CacheObject"
  by (simp add: rebuilt_def)

lemma deserialize_serialize_append:
  assumes "object_ok ob" "payload_ok lib ob" "g17_exact lib" "otype ob \<noteq> STRING \<Longrightarrow> element_count ob > 0"
  shows "deserialize lib (serialize lib ob @ r) CacheObject = finish (type_tag (otype ob)) (ob, r)"
proof (cases "otype ob")
  case STRING
  with assms rebuilt_same(1) [OF assms(1,4)] show ?thesis
    by (simp add: serialize_recs deserialize_tagged fields_def payload_ok_def elements_def read_record_rec
        del: type_tag.simps) simp
next
  case LIST
  with assms rebuilt_same(2) [OF assms(1,4)] foldl_list_push [of "[]" "list_val ob"] show ?thesis
    by (simp add: serialize_recs deserialize_tagged fields_def payload_ok_def elements_def element_count_def
        read_count_rec read_list_recs del: type_tag.simps) simp
next
  case HASH
  have "read_list (2 * length (hash_val ob)) (recs (hfields (hash_val ob)) @ r) = Some (hfields (hash_val ob), r)"
    using assms(2) HASH read_list_recs [of "hfields (hash_val ob)" r] by (simp add: payload_ok_def elements_def)
  with HASH assms rebuilt_same(3) [OF assms(1,4)] foldl_hash_set [of "[]" "hash_val ob"] show ?thesis
    by (simp add: serialize_recs deserialize_tagged fields_def payload_ok_def elements_def element_count_def
        read_count_rec load_hash_as_list object_ok_def del: type_tag.simps) simp
next
  case SET
  with assms rebuilt_same(4) [OF assms(1,4)] foldl_set_add [of "[]" "set_val ob"] show ?thesis
    by (simp add: serialize_recs deserialize_tagged fields_def payload_ok_def elements_def element_count_def
        read_count_rec read_list_recs load_set_as_list object_ok_def del: type_tag.simps) simp
next
  case ZSET
  with assms rebuilt_same(5) [OF assms(1,4)]
    load_zset_recs [OF assms(3), of "[]" "zset_val ob" "length (zset_val ob)" r] show ?thesis
    by (simp add: serialize_recs deserialize_tagged fields_def payload_ok_def elements_def element_count_def
        read_count_rec object_ok_def del: type_tag.simps) simp
qed

lemma deserialize_cut_body:
  assumes "payload_ok lib ob" "j < length (recs (fields lib ob))"
  shows "\<exists>e. deserialize lib (type_tag (otype ob) @ LF # take j (recs (fields lib ob))) ob0 = Inl e"
proof (cases "otype ob = STRING")
  case True
  with assms show ?thesis
    by (simp add: deserialize_tagged fields_def payload_ok_def elements_def read_record_cut del: type_tag.simps)
next
  case False
  let ?n = "element_count ob" and ?es = "elements lib ob"
  let ?j = "j - length (rec (to_dec ?n))"
  have n: "?n \<le> 18446744073709551615" "list_all size_ok ?es"
    using assms(1) by (simp_all add: payload_ok_def)
  have f: "recs (fields lib ob) = rec (to_dec ?n) @ recs ?es"
    using False by (simp add: fields_def)
  show ?thesis
  proof (cases "j < length (rec (to_dec ?n))")
    case True
    then have "read_count (take j (recs (fields lib ob))) = None"
      using read_count_cut [OF n(1) True] by (simp add: f)
    with False show ?thesis
      by (cases "otype ob") (simp_all add: deserialize_tagged del: type_tag.simps)
  next
    case ge: False
    then have c: "read_count (take j (recs (fields lib ob))) = Some (?n, take ?j (recs ?es))"
      using read_count_rec [OF n(1)] by (simp add: f)
    have "read_list (length ?es) (take ?j (recs ?es)) = None"
      using assms(2) ge n(2) by (intro read_list_cut) (auto simp: f)
    with c False load_zset_no_list [of ?n "take ?j (recs ?es)" lib ?n ob0] show ?thesis
      by (cases "otype ob")
        (auto simp: deserialize_tagged elements_def element_count_def load_hash_as_list load_set_as_list
          simp del: type_tag.simps)
  qed
qed

lemma deserialize_cut:
  assumes "payload_ok lib ob" "k < length (serialize lib ob)"
  shows "\<exists>e. deserialize lib (take k (serialize lib ob)) ob0 = Inl e"
proof (cases "k \<le> length (type_tag (otype ob))")
  case True
  then have "LF \<notin> set (take k (serialize lib ob))"
    using LF_notin_tag [of "otype ob"] by (auto simp: serialize_recs dest: in_set_takeD)
  then show ?thesis
    by (simp add: deserialize_def)
next
  case False
  let ?j = "k - length (type_tag (otype ob)) - 1"
  have "take k (serialize lib ob) = type_tag (otype ob) @ LF # take ?j (recs (fields lib ob))"
    using False by (simp add: serialize_recs take_Cons')
  moreover have "?j < length (recs (fields lib ob))"
    using assms(2) False by (simp add: serialize_recs)
  ultimately show ?thesis
    using deserialize_cut_body [OF assms(1)] by simp
qed

section \<open>Properties\<close>


definition bits_lib :: fp_lib where
  "bits_lib = \<lparr>stod = (\<lambda>s. case from_chars_ull s of None \<Rightarrow> Inl Invalid_argument
                         | Some (n, r) \<Rightarrow> Inr (word_of_nat n, length s - length r)),
     from_chars_double = (\<lambda>s. map_option (\<lambda>(n, r). (word_of_nat n, r)) (from_chars_ull s)),
     print_g17 = (\<lambda>d. to_dec (unat d)), print_fixed = (\<lambda>k d. to_dec (unat d)),
     strtod = (\<lambda>s. word_of_nat (dec_val s)), floor_log10_abs = (\<lambda>d. 0)\<rparr>"

lemma bits_lib_exact: "g17_exact bits_lib"
proof -
  have "unat (d :: double) \<le> 18446744073709551615" for d
    using unsigned_less [where 'a = nat, of d] by simp
  then show ?thesis
    by (simp add: g17_exact_def bits_lib_def from_chars_ull_to_dec)
qed


text \<open>C29: a payload cut short at any byte, or followed by any further byte, is refused; no partial
  value is ever accepted.\<close>

theorem truncated_payload_refused:
  assumes "payload_ok lib ob" "k < length (serialize lib ob)"
  shows "\<exists>e. deserialize lib (take k (serialize lib ob)) ob0 = Inl e"
  using assms by (rule deserialize_cut)

theorem truncated_payload_refused_witness:
  "\<exists>e. deserialize bits_lib (take 9 (serialize bits_lib (CacheObject_list [''abc'']))) CacheObject = Inl e"
proof (rule truncated_payload_refused)
  show "payload_ok bits_lib (CacheObject_list [''abc''])"
    by (simp add: payload_ok_def elements_def element_count_def CacheObject_list_def size_ok_def)
  show "9 < length (serialize bits_lib (CacheObject_list [''abc'']))"
    by code_simp
qed

text \<open>A payload followed by any further byte is refused.\<close>

theorem trailing_bytes_refused:
  assumes "object_ok ob" "payload_ok lib ob" "g17_exact lib" "otype ob = STRING \<or> element_count ob > 0"
    "junk \<noteq> []"
  shows "deserialize lib (serialize lib ob @ junk) CacheObject = Inl (type_tag (otype ob) @ '': trailing bytes in payload'')"
  using deserialize_serialize_append [OF assms(1-3), of junk] assms(4,5) by (auto simp: finish_def)

text \<open>An empty container does not survive: it is read back as the empty string.\<close>

lemma empty_container_becomes_string:
  "deserialize lib (serialize lib (CacheObject_list [])) CacheObject = Inr CacheObject"
  using deserialize_tagged [of lib LIST "rec (to_dec 0)" CacheObject] read_count_rec [of 0 "[]"]
  by (simp add: serialize_recs fields_def elements_def element_count_def finish_def)

end
