(* ===== verification/CC_Expire.thy ===== *)
theory CC_Expire
  imports CC_Base
begin

text \<open>
  \<^verbatim>\<open>ExpireDict\<close> of \<^verbatim>\<open>src/src/cache/expire_dict.cpp\<close>: the map from keys to absolute expiry times in
  milliseconds.  The clock reading of an operation is its argument \<open>now\<close>; the random draws of the
  candidate sampling are the argument \<open>rnd\<close>.  Each operation holds the dictionary's lock, so it is
  one atomic step.  Assertions are those of a release build: compiled out.
\<close>

section \<open>The class\<close>

type_synonym expire_dict = "(string \<times> int) list"

definition sat_deadline :: "int \<Rightarrow> int \<Rightarrow> int" where
  "sat_deadline now ms = (if ms > sub64 int64_max now then int64_max else add64 now ms)"

definition exp_set :: "int \<Rightarrow> string \<Rightarrow> int \<Rightarrow> expire_dict \<Rightarrow> expire_dict" where
  "exp_set now key expire_ms d = AList.update key (sat_deadline now expire_ms) d"

definition set_expire_time :: "string \<Rightarrow> int \<Rightarrow> expire_dict \<Rightarrow> expire_dict" where
  "set_expire_time key expire_time_ms d = AList.update key expire_time_ms d"

definition get_ttl :: "int \<Rightarrow> string \<Rightarrow> expire_dict \<Rightarrow> int" where
  "get_ttl now key d =
     (case map_of d key of None \<Rightarrow> -2
      | Some t \<Rightarrow> let remaining = sub64 t now in if remaining \<le> 0 then -2 else remaining)"

definition get_expire_time :: "string \<Rightarrow> expire_dict \<Rightarrow> int" where
  "get_expire_time key d = (case map_of d key of None \<Rightarrow> -1 | Some t \<Rightarrow> t)"

definition exp_persist :: "string \<Rightarrow> expire_dict \<Rightarrow> bool \<times> expire_dict" where
  "exp_persist key d = (case map_of d key of None \<Rightarrow> (False, d) | Some _ \<Rightarrow> (True, AList.delete key d))"

definition exp_remove :: "string \<Rightarrow> expire_dict \<Rightarrow> expire_dict" where
  "exp_remove key d = AList.delete key d"

definition is_expired :: "int \<Rightarrow> string \<Rightarrow> expire_dict \<Rightarrow> bool" where
  "is_expired now key d = (case map_of d key of None \<Rightarrow> False | Some t \<Rightarrow> now \<ge> t)"

definition exp_contains :: "string \<Rightarrow> expire_dict \<Rightarrow> bool" where
  "exp_contains key d \<longleftrightarrow> map_of d key \<noteq> None"

text \<open>The sampling loop: draws are made monotone so that the iterator only moves forward.\<close>

primrec sample_keys :: "(nat \<Rightarrow> nat) \<Rightarrow> expire_dict \<Rightarrow> nat \<Rightarrow> nat \<Rightarrow> nat \<Rightarrow> string list" where
  "sample_keys rnd d k lastp 0 = []"
| "sample_keys rnd d k lastp (Suc n) =
     (let target = rnd k mod length d;
          target = (if target < lastp then lastp else target) in
      fst (d ! target) # sample_keys rnd d (Suc k) target n)"

definition get_candidates :: "(nat \<Rightarrow> nat) \<Rightarrow> nat \<Rightarrow> expire_dict \<Rightarrow> string list" where
  "get_candidates rnd n d =
     (let total = length d in
      if total = 0 then []
      else let want = min n total in
           if want * 4 \<ge> total then map fst (take want d)
           else sample_keys rnd d 0 0 want)"

definition delete_expired :: "int \<Rightarrow> expire_dict \<Rightarrow> nat \<times> expire_dict" where
  "delete_expired now d =
     (let kept = filter (\<lambda>(k, t). \<not> now \<ge> t) d in (length d - length kept, kept))"

definition exp_size :: "expire_dict \<Rightarrow> nat" where
  "exp_size d = length d"

definition stats :: "int \<Rightarrow> expire_dict \<Rightarrow> nat \<times> int" where
  "stats now d =
     (let (live_count, total) = foldl (\<lambda>(n, total) (k, t). if t > now then (n + 1, add64 total (sub64 t now)) else (n, total)) (0, 0) d in
      (live_count, if live_count > 0 then (if total < 0 then - ((- total) div int live_count) else total div int live_count) else 0))"

definition clear_all :: "expire_dict \<Rightarrow> expire_dict" where
  "clear_all d = []"

section \<open>Facts\<close>

definition clock_ok :: "int \<Rightarrow> bool" where
  "clock_ok now \<longleftrightarrow> 0 \<le> now \<and> now \<le> int64_max"

lemma sat_deadline_eq:
  assumes "clock_ok now" "int64_ok ms"
  shows "sat_deadline now ms = min (now + ms) int64_max"
  using assms
  by (auto simp: sat_deadline_def clock_ok_def sub64_id add64_id int64_arith min_def)

lemma sat_deadline_range:
  assumes "clock_ok now" "0 < ms" "ms \<le> int64_max"
  shows "int64_ok (sat_deadline now ms)" "now < sat_deadline now ms \<or> now = int64_max"
  using assms sat_deadline_eq [of now ms]
  by (auto simp: clock_ok_def int64_arith min_def)

lemmas expire_view_defs = exp_set_def set_expire_time_def exp_remove_def clear_all_def

lemma expire_views [simp]:
  "map_of (exp_set now k ms d) = (map_of d)(k \<mapsto> sat_deadline now ms)"
  "map_of (set_expire_time k t d) = (map_of d)(k \<mapsto> t)"
  "map_of (exp_remove k d) = (map_of d)(k := None)"
  "map_of (snd (exp_persist k d)) = (map_of d)(k := None)"
  by (auto simp: expire_view_defs exp_persist_def fun_upd_idem split: option.splits)

lemma expire_distinct [wf_preserved]:
  assumes "distinct (map fst d)"
  shows "distinct (map fst (exp_set now k ms d))" "distinct (map fst (set_expire_time k t d))"
    "distinct (map fst (exp_remove k d))" "distinct (map fst (snd (exp_persist k d)))"
    "distinct (map fst (snd (delete_expired now d)))"
  using assms
  by (auto simp: expire_view_defs exp_persist_def delete_expired_def Let_def distinct_map_filter
      split: option.splits)

lemma is_expired_remove [simp]: "\<not> is_expired now k (exp_remove k d)"
  by (simp add: is_expired_def)

lemma is_expired_other [simp]: "k' \<noteq> k \<Longrightarrow> is_expired now k' (exp_remove k d) = is_expired now k' d"
  by (simp add: is_expired_def)

lemma sample_keys_in:
  "d \<noteq> [] \<Longrightarrow> lastp < length d \<Longrightarrow>
   set (sample_keys rnd d k lastp n) \<subseteq> fst ` set d \<and> length (sample_keys rnd d k lastp n) = n"
proof (induction n arbitrary: k lastp)
  case (Suc n)
  let ?t = "let target = rnd k mod length d in if target < lastp then lastp else target"
  have "?t < length d"
    using Suc.prems by (simp add: Let_def)
  with Suc.IH [of ?t "Suc k"] Suc.prems(1) show ?case
    by (auto simp: Let_def)
qed simp

lemma delete_expired_map_of:
  assumes "distinct (map fst d)"
  shows "map_of (snd (delete_expired now d)) = (\<lambda>k. if is_expired now k d then None else map_of d k)"
proof (rule map_eq_SomeI)
  fix k v
  have "map_of (snd (delete_expired now d)) k = Some v \<longleftrightarrow> map_of d k = Some v \<and> \<not> now \<ge> v"
    using assms expire_distinct(5) [OF assms, of now]
    by (auto simp: map_of_eq_Some_iff delete_expired_def Let_def)
  then show "map_of (snd (delete_expired now d)) k = Some v \<longleftrightarrow> (if is_expired now k d then None else map_of d k) = Some v"
    by (auto simp: is_expired_def split: option.splits)
qed

section \<open>Properties\<close>

text \<open>C32: a positive time to live, however large, never produces a deadline in the past or outside
  64 bits: the deadline is the exact sum, cut off at the largest 64-bit value; the remaining time
  read back at the same instant is the one that was set, and the key is not expired.\<close>

theorem ttl_saturates:
  assumes "clock_ok now" "0 < ms" "ms \<le> int64_max" "now < int64_max"
  shows "get_expire_time k (exp_set now k ms d) = min (now + ms) int64_max \<and>
         get_ttl now k (exp_set now k ms d) = min ms (int64_max - now) \<and>
         \<not> is_expired now k (exp_set now k ms d)"
proof -
  have "int64_ok ms"
    using assms by (simp add: int64_arith)
  from sat_deadline_eq [OF assms(1) this] assms show ?thesis
    by (auto simp: get_expire_time_def get_ttl_def is_expired_def clock_ok_def sub64_id int64_arith min_def)
qed

theorem ttl_saturates_witness:
  "get_ttl 1000 ''k'' (exp_set 1000 ''k'' 9223372036854775807 []) = 9223372036854774807"
  using ttl_saturates [of 1000 9223372036854775807 "''k''" "[]"]
  by (simp add: clock_ok_def int64_arith)

text \<open>The background sampling only ever proposes keys that have an expiry record, as many as asked
  for or as there are.\<close>

theorem candidates_have_expiry:
  "list_all (\<lambda>k. exp_contains k d) (get_candidates rnd n d) \<and>
   length (get_candidates rnd n d) = min n (length d)"
proof (cases "d = []")
  case False
  have "set (get_candidates rnd n d) \<subseteq> fst ` set d \<and> length (get_candidates rnd n d) = min n (length d)"
    using sample_keys_in [OF False, of 0 rnd 0 "min n (length d)"] False
    by (auto simp: get_candidates_def Let_def dest: in_set_takeD)
  then show ?thesis
    by (auto simp: list_all_iff exp_contains_def map_of_eq_None_iff)
qed (simp add: get_candidates_def)

end
