(* ===== verification/CC_Storage.thy ===== *)
theory CC_Storage
  imports CC_Object CC_Expire
begin

text \<open>
  \<^verbatim>\<open>GlobalStorage\<close> of \<^verbatim>\<open>src/src/cache/storage.cpp\<close>: 64 hash-selected shards of cache entries, the
  expiry dictionary and the dirty counter.  What the code takes from its surroundings is the record
  \<open>env\<close>: the clock reading of the operation, \<^verbatim>\<open>std::hash\<close> on strings, and the random shard draws of
  the eviction.  Every operation works under the lock of its shard and is one atomic step; the
  shards are association lists in the iteration order of the \<^verbatim>\<open>unordered_map\<close>.
\<close>

section \<open>State\<close>

record cache_entry =
  val :: cache_object
  last_access :: int

type_synonym shard = "(string \<times> cache_entry) list"

record storage =
  stores :: "shard list"
  expires :: expire_dict
  dirty_counter :: "64 word"
  max_entries :: nat

record env =
  env_now :: int
  env_hash :: "string \<Rightarrow> nat"
  env_rnd :: "nat \<Rightarrow> nat \<Rightarrow> nat"

datatype set_condition = KNone | KOnlyIfAbsent | KOnlyIfExists

datatype store_op = KNoop | KWrite | KErase

datatype string_promotion = KAllow | KReject

record kv_with_ttl =
  kv_key :: string
  kv_value :: cache_object
  kv_expire :: int

definition kMaxEntries :: nat where "kMaxEntries = 2000000"

definition kDefaultShards :: nat where "kDefaultShards = 64"

definition GlobalStorage :: storage where
  "GlobalStorage = \<lparr>stores = replicate kDefaultShards [], expires = [], dirty_counter = 0, max_entries = kMaxEntries\<rparr>"

definition get_shard_index :: "env \<Rightarrow> string \<Rightarrow> nat" where
  "get_shard_index e key = env_hash e key mod kDefaultShards"

definition shard_of :: "env \<Rightarrow> string \<Rightarrow> storage \<Rightarrow> shard" where
  "shard_of e key s = stores s ! get_shard_index e key"

definition upd_shard :: "env \<Rightarrow> string \<Rightarrow> (shard \<Rightarrow> shard) \<Rightarrow> storage \<Rightarrow> storage" where
  "upd_shard e key f s =
     s\<lparr>stores := (stores s)[get_shard_index e key := f (shard_of e key s)]\<rparr>"

definition find_entry :: "env \<Rightarrow> string \<Rightarrow> storage \<Rightarrow> cache_entry option" where
  "find_entry e key s = map_of (shard_of e key s) key"

definition insert_or_assign :: "env \<Rightarrow> string \<Rightarrow> cache_entry \<Rightarrow> storage \<Rightarrow> storage" where
  "insert_or_assign e key entry s = upd_shard e key (AList.update key entry) s"

definition erase_entry :: "env \<Rightarrow> string \<Rightarrow> storage \<Rightarrow> storage" where
  "erase_entry e key s = upd_shard e key (AList.delete key) s"

definition drop_expiry :: "string \<Rightarrow> storage \<Rightarrow> storage" where
  "drop_expiry key s = s\<lparr>expires := exp_remove key (expires s)\<rparr>"

definition increment_dirty :: "storage \<Rightarrow> storage" where
  "increment_dirty s = s\<lparr>dirty_counter := dirty_counter s + 1\<rparr>"

definition get_dirty_count :: "storage \<Rightarrow> 64 word" where
  "get_dirty_count s = dirty_counter s"

definition reset_dirty_count :: "storage \<Rightarrow> storage" where
  "reset_dirty_count s = s\<lparr>dirty_counter := 0\<rparr>"

definition consume_dirty_count :: "64 word \<Rightarrow> storage \<Rightarrow> storage" where
  "consume_dirty_count saved_count s =
     s\<lparr>dirty_counter := (if dirty_counter s > saved_count then dirty_counter s - saved_count else 0)\<rparr>"

definition set_max_entries :: "nat \<Rightarrow> storage \<Rightarrow> storage" where
  "set_max_entries n s = s\<lparr>max_entries := n\<rparr>"

definition storage_size :: "storage \<Rightarrow> nat" where
  "storage_size s = sum_list (map length (stores s))"

section \<open>Eviction\<close>

fun bit_length :: "nat \<Rightarrow> nat" where
  "bit_length n = (if n = 0 then 0 else Suc (bit_length (n div 2)))"

declare bit_length.simps [simp del]

text \<open>Rounding a natural number to the 53 significant bits of a double, ties to even.\<close>

definition round53 :: "nat \<Rightarrow> nat" where
  "round53 n =
     (let b = bit_length n in
      if b \<le> 53 then n
      else let s = b - 53; q = n div 2 ^ s; r = n mod 2 ^ s; h = 2 ^ (s - 1) in
           (if r > h \<or> (r = h \<and> odd q) then q + 1 else q) * 2 ^ s)"

text \<open>\<^verbatim>\<open>static_cast<size_t>(static_cast<double>(m) * c)\<close> for a double \<open>c\<close> given by its 53-bit
  numerator over \<open>2 ^ 53\<close>.\<close>

definition scaled :: "nat \<Rightarrow> nat \<Rightarrow> nat" where
  "scaled c m = round53 (round53 m * c) div 2 ^ 53"

definition kEvictThreshold :: nat where "kEvictThreshold = 8106479329266893"

definition kEvictTargetRatio :: nat where "kEvictTargetRatio = 5404319552844595"

fun pick_victim :: "int \<Rightarrow> expire_dict \<Rightarrow> string option \<Rightarrow> int \<Rightarrow> shard \<Rightarrow> string option" where
  "pick_victim now d oldest oldest_time [] = oldest"
| "pick_victim now d oldest oldest_time ((key, entry) # rest) =
     (let expire_at = get_expire_time key d in
      if expire_at > 0 \<and> now \<ge> expire_at then Some key
      else if last_access entry < oldest_time
      then pick_victim now d (Some key) (last_access entry) rest
      else pick_victim now d oldest oldest_time rest)"

text \<open>The attempts of \<^verbatim>\<open>evict_one\<close>; the empty string is the answer when no key was found.\<close>

primrec evict_attempts :: "env \<Rightarrow> nat \<Rightarrow> nat \<Rightarrow> storage \<Rightarrow> string \<times> storage" where
  "evict_attempts e call 0 s = ([], s)"
| "evict_attempts e call (Suc n) s =
     (let idx = env_rnd e call n mod kDefaultShards; store = stores s ! idx in
      if store = [] then evict_attempts e call n s
      else case pick_victim (env_now e) (expires s) None int64_max store of
             None \<Rightarrow> evict_attempts e call n s
           | Some victim \<Rightarrow>
             (victim, s\<lparr>stores := (stores s)[idx := AList.delete victim store],
                        expires := exp_remove victim (expires s)\<rparr>))"

definition evict_one :: "env \<Rightarrow> nat \<Rightarrow> storage \<Rightarrow> string \<times> storage" where
  "evict_one e call s = evict_attempts e call 8 s"

definition kMaxEvictPerCycle :: nat where "kMaxEvictPerCycle = 1024"

primrec evict_loop :: "env \<Rightarrow> nat \<Rightarrow> nat \<Rightarrow> storage \<Rightarrow> storage" where
  "evict_loop e target 0 s = s"
| "evict_loop e target (Suc left) s =
     (let evicted_count = kMaxEvictPerCycle - Suc left; (victim, s) = evict_one e evicted_count s in
      if victim = [] then s
      else let evicted_count = evicted_count + 1 in
           if evicted_count mod 64 = 0 \<and> storage_size s \<le> target then s
           else evict_loop e target left s)"

definition evict_if_needed :: "env \<Rightarrow> storage \<Rightarrow> storage" where
  "evict_if_needed e s =
     (let threshold = scaled kEvictThreshold (max_entries s) in
      if storage_size s < threshold then s
      else let target_size = scaled kEvictTargetRatio (max_entries s) in
           evict_loop e target_size kMaxEvictPerCycle s)"

section \<open>Operations\<close>

definition del :: "env \<Rightarrow> string \<Rightarrow> storage \<Rightarrow> bool \<times> storage" where
  "del e key s =
     (let s = drop_expiry key s; erased = (find_entry e key s \<noteq> None); s = erase_entry e key s in
      (erased, if erased then increment_dirty s else s))"

definition storage_get :: "env \<Rightarrow> string \<Rightarrow> storage \<Rightarrow> cache_object option \<times> storage" where
  "storage_get e key s =
     (case find_entry e key s of None \<Rightarrow> (None, s)
      | Some entry \<Rightarrow>
        if is_expired (env_now e) key (expires s) then (None, snd (del e key s))
        else (Some (val entry), insert_or_assign e key (entry\<lparr>last_access := env_now e\<rparr>) s))"

definition storage_set :: "env \<Rightarrow> string \<Rightarrow> cache_object \<Rightarrow> storage \<Rightarrow> storage" where
  "storage_set e key value s =
     (let s = evict_if_needed e s;
          s = drop_expiry key s;
          entry = \<lparr>val = value, last_access = env_now e\<rparr> in
      increment_dirty (insert_or_assign e key entry s))"

text \<open>\<^verbatim>\<open>mutate\<close>: the callback maps the object to the intended store operation, the changed object and
  the values it left in the variables it captured; None is the return value \<^verbatim>\<open>false\<close>.\<close>

definition mutate ::
  "env \<Rightarrow> string \<Rightarrow> object_type \<Rightarrow> (cache_object \<Rightarrow> store_op \<times> cache_object \<times> 'r) \<Rightarrow> string_promotion \<Rightarrow>
   storage \<Rightarrow> 'r option \<times> storage" where
  "mutate e key want_type fn promote s =
     (let s = evict_if_needed e s;
          s = (if find_entry e key s \<noteq> None \<and> is_expired (env_now e) key (expires s)
               then drop_expiry key (erase_entry e key s) else s);
          mismatch = (case find_entry e key s of None \<Rightarrow> False
            | Some entry \<Rightarrow>
              let current_type = otype (val entry);
                  promotable = (current_type = STRING \<and> promote = KAllow) in
              current_type \<noteq> want_type \<and> \<not> promotable) in
      if mismatch then (None, s)
      else let existed = (find_entry e key s \<noteq> None);
               obj = (case find_entry e key s of None \<Rightarrow> CacheObject | Some entry \<Rightarrow> val entry) in
           case fn obj of (op, obj', r) \<Rightarrow>
             (Some r,
              case op of
                KNoop \<Rightarrow> s
              | KErase \<Rightarrow> if existed then increment_dirty (drop_expiry key (erase_entry e key s)) else s
              | KWrite \<Rightarrow> increment_dirty (insert_or_assign e key \<lparr>val = obj', last_access = env_now e\<rparr> s)))"

definition exist :: "env \<Rightarrow> string \<Rightarrow> storage \<Rightarrow> bool" where
  "exist e key s \<longleftrightarrow> find_entry e key s \<noteq> None \<and> \<not> is_expired (env_now e) key (expires s)"

definition clear :: "storage \<Rightarrow> storage" where
  "clear s = s\<lparr>stores := map (\<lambda>_. []) (stores s), expires := clear_all (expires s)\<rparr>"

definition get_all_objects :: "env \<Rightarrow> storage \<Rightarrow> (string \<times> cache_object) list" where
  "get_all_objects e s =
     concat (map (\<lambda>store. map (\<lambda>(k, en). (k, val en))
       (filter (\<lambda>(k, en). \<not> is_expired (env_now e) k (expires s)) store)) (stores s))"

definition get_all_objects_with_ttl :: "env \<Rightarrow> storage \<Rightarrow> kv_with_ttl list" where
  "get_all_objects_with_ttl e s =
     concat (map (\<lambda>store. map (\<lambda>(k, en). \<lparr>kv_key = k, kv_value = val en, kv_expire = get_expire_time k (expires s)\<rparr>)
       (filter (\<lambda>(k, en). \<not> (get_expire_time k (expires s) > 0 \<and> env_now e \<ge> get_expire_time k (expires s))) store)) (stores s))"

definition set_expire :: "env \<Rightarrow> string \<Rightarrow> int \<Rightarrow> storage \<Rightarrow> storage" where
  "set_expire e key ttl_ms s =
     (if key = [] \<or> ttl_ms \<le> 0 then s
      else increment_dirty (s\<lparr>expires := exp_set (env_now e) key ttl_ms (expires s)\<rparr>))"

definition set_conditional ::
  "env \<Rightarrow> string \<Rightarrow> cache_object \<Rightarrow> set_condition \<Rightarrow> int \<Rightarrow> bool \<Rightarrow> storage \<Rightarrow>
   (bool \<times> cache_object option) \<times> storage" where
  "set_conditional e key value cond ttl_ms keep_ttl s =
     (let s = evict_if_needed e s;
          now = env_now e;
          gone = (find_entry e key s \<noteq> None \<and> is_expired now key (expires s));
          s = (if gone then drop_expiry key (erase_entry e key s) else s);
          previous = map_option val (find_entry e key s);
          present = (previous \<noteq> None) in
      if cond = KOnlyIfAbsent \<and> present then ((False, previous), s)
      else if cond = KOnlyIfExists \<and> \<not> present then ((False, previous), s)
      else let kept_expire_at = (if keep_ttl then get_expire_time key (expires s) else -1);
               s = increment_dirty (insert_or_assign e key \<lparr>val = value, last_access = now\<rparr> s);
               s = (if keep_ttl then
                      (if kept_expire_at > 0 then s\<lparr>expires := set_expire_time key kept_expire_at (expires s)\<rparr>
                       else drop_expiry key s)
                    else if ttl_ms > 0 then
                      s\<lparr>expires := set_expire_time key (sat_deadline now ttl_ms) (expires s)\<rparr>
                    else drop_expiry key s) in
           ((True, previous), s))"

definition set_with_expire :: "env \<Rightarrow> string \<Rightarrow> cache_object \<Rightarrow> int \<Rightarrow> storage \<Rightarrow> storage" where
  "set_with_expire e key value ttl_ms s =
     (let s = evict_if_needed e s;
          now = env_now e;
          s = (if ttl_ms > 0 then s\<lparr>expires := set_expire_time key (sat_deadline now ttl_ms) (expires s)\<rparr>
               else drop_expiry key s) in
      increment_dirty (insert_or_assign e key \<lparr>val = value, last_access = now\<rparr> s))"

definition incrby :: "env \<Rightarrow> string \<Rightarrow> int \<Rightarrow> storage \<Rightarrow> int option \<times> storage" where
  "incrby e key delta s =
     (let s = evict_if_needed e s;
          s = (if is_expired (env_now e) key (expires s) then drop_expiry key (erase_entry e key s) else s);
          start = (case find_entry e key s of None \<Rightarrow> Some 0
             | Some entry \<Rightarrow> (case get_string (val entry) of None \<Rightarrow> None | Some str \<Rightarrow> parse_ll_strict str)) in
      case start of None \<Rightarrow> (None, s)
      | Some v \<Rightarrow>
        if (delta > 0 \<and> v > sub64 int64_max delta) \<or> (delta < 0 \<and> v < sub64 int64_min delta) then (None, s)
        else let v = add64 v delta in
             (Some v, increment_dirty (insert_or_assign e key
                \<lparr>val = CacheObject_string (to_string v), last_access = env_now e\<rparr> s)))"

text \<open>One round of the background sweep of \<^verbatim>\<open>ExpirationChecker::run\<close>.\<close>

definition sweep :: "env \<Rightarrow> (nat \<Rightarrow> nat) \<Rightarrow> storage \<Rightarrow> nat \<times> storage" where
  "sweep e draws s =
     foldl (\<lambda>(deleted, s) key.
        if is_expired (env_now e) key (expires s)
        then case del e key s of (erased, s') \<Rightarrow> ((if erased then deleted + 1 else deleted), s')
        else (deleted, s)) (0, s) (get_candidates draws 20 (expires s))"

end
