(* ===== verification/CC_Storage_Facts.thy ===== *)
theory CC_Storage_Facts
  imports CC_Storage
begin

text \<open>
  The sharded store seen as one key space.  \<open>live\<close> is what clients can observe: the value of
  every key that is present and not past its deadline; \<open>live_ttl\<close> are the deadlines of those keys.
  Every operation is described by its effect on these two maps, and keeps the invariant
  \<open>storage_ok\<close>: shards are selected by the hash, keys are unique, values are well formed,
  and every expiry record belongs to a stored key.
\<close>

section \<open>Views and invariant\<close>

definition live :: "env \<Rightarrow> storage \<Rightarrow> string \<Rightarrow> cache_object option" where
  "live e s k = (if is_expired (env_now e) k (expires s) then None else map_option val (find_entry e k s))"

definition live_ttl :: "env \<Rightarrow> storage \<Rightarrow> string \<Rightarrow> int option" where
  "live_ttl e s k = (if live e s k = None then None else map_of (expires s) k)"

definition sized :: "storage \<Rightarrow> bool" where
  "sized s \<longleftrightarrow> length (stores s) = kDefaultShards"

definition storage_ok :: "env \<Rightarrow> storage \<Rightarrow> bool" where
  "storage_ok e s \<longleftrightarrow> sized s \<and>
     (\<forall>i < kDefaultShards. distinct (map fst (stores s ! i)) \<and>
        (\<forall>(k, en) \<in> set (stores s ! i). get_shard_index e k = i \<and> object_ok (val en))) \<and>
     distinct (map fst (expires s)) \<and>
     (\<forall>k. map_of (expires s) k \<noteq> None \<longrightarrow> find_entry e k s \<noteq> None)"

definition no_evict :: "storage \<Rightarrow> bool" where
  "no_evict s \<longleftrightarrow> storage_size s < scaled kEvictThreshold (max_entries s)"

lemma evict_if_needed_below: "no_evict s \<Longrightarrow> evict_if_needed e s = s"
  by (simp add: no_evict_def evict_if_needed_def)

lemma shard_index_less [simp]: "get_shard_index e k < kDefaultShards"
  by (simp add: get_shard_index_def kDefaultShards_def)

lemma storage_ok_sized [simp]: "storage_ok e s \<Longrightarrow> sized s"
  by (simp add: storage_ok_def)

section \<open>Primitive updates\<close>

lemma sized_updates [simp]:
  "sized (insert_or_assign e k en s) = sized s" "sized (erase_entry e k s) = sized s"
  "sized (drop_expiry k s) = sized s" "sized (increment_dirty s) = sized s"
  "sized (expires_update f s) = sized s"
  by (simp_all add: sized_def insert_or_assign_def erase_entry_def upd_shard_def drop_expiry_def increment_dirty_def)

lemma find_entry_updates [simp]:
  "sized s \<Longrightarrow> find_entry e k' (insert_or_assign e k en s) = (if k' = k then Some en else find_entry e k' s)"
  "sized s \<Longrightarrow> find_entry e k' (erase_entry e k s) = (if k' = k then None else find_entry e k' s)"
  "find_entry e k' (drop_expiry k s) = find_entry e k' s"
  "find_entry e k' (increment_dirty s) = find_entry e k' s"
  "find_entry e k' (expires_update f s) = find_entry e k' s"
  by (auto simp: find_entry_def shard_of_def insert_or_assign_def erase_entry_def upd_shard_def sized_def
      drop_expiry_def increment_dirty_def nth_list_update)

lemma expires_updates [simp]:
  "expires (insert_or_assign e k en s) = expires s" "expires (erase_entry e k s) = expires s"
  "expires (drop_expiry k s) = exp_remove k (expires s)" "expires (increment_dirty s) = expires s"
  by (simp_all add: insert_or_assign_def erase_entry_def upd_shard_def drop_expiry_def increment_dirty_def)

lemma storage_ok_I:
  assumes "storage_ok e s" "sized s'"
    "\<And>i. i < kDefaultShards \<Longrightarrow> distinct (map fst (stores s' ! i))"
    "\<And>i k en. i < kDefaultShards \<Longrightarrow> (k, en) \<in> set (stores s' ! i) \<Longrightarrow> get_shard_index e k = i \<and> object_ok (val en)"
    "distinct (map fst (expires s'))"
    "\<And>k. map_of (expires s') k \<noteq> None \<Longrightarrow> find_entry e k s' \<noteq> None"
  shows "storage_ok e s'"
  using assms by (auto simp: storage_ok_def)

lemma storage_ok_entry:
  "storage_ok e s \<Longrightarrow> i < kDefaultShards \<Longrightarrow> (k, en) \<in> set (stores s ! i) \<Longrightarrow> get_shard_index e k = i \<and> object_ok (val en)"
  by (auto simp: storage_ok_def)

lemma storage_ok_val: "storage_ok e s \<Longrightarrow> find_entry e k s = Some en \<Longrightarrow> object_ok (val en)"
  using storage_ok_entry [of e s "get_shard_index e k" k en]
  by (auto simp: find_entry_def shard_of_def dest: map_of_SomeD)

lemma set_update_subset: "set (AList.update k v al) \<subseteq> insert (k, v) (set al)"
  by (induction al) auto

lemma set_delete_subset: "set (AList.delete k al) \<subseteq> set al"
  by (induction al) auto

lemma insert_or_assign_ok [wf_preserved]:
  assumes "storage_ok e s" "object_ok (val en)"
  shows "storage_ok e (insert_or_assign e k en s)"
proof (rule storage_ok_I [OF assms(1)])
  have sz: "length (stores s) = kDefaultShards"
    using assms(1) by (simp add: storage_ok_def sized_def)
  let ?j = "get_shard_index e k"
  have st: "stores (insert_or_assign e k en s) ! i =
    (if i = ?j then AList.update k en (stores s ! i) else stores s ! i)" for i
    using sz by (simp add: insert_or_assign_def upd_shard_def shard_of_def nth_list_update)
  show "distinct (map fst (stores (insert_or_assign e k en s) ! i))" if "i < kDefaultShards" for i
    using assms(1) that by (simp add: st storage_ok_def)
  show "get_shard_index e k' = i \<and> object_ok (val en')"
    if "i < kDefaultShards" "(k', en') \<in> set (stores (insert_or_assign e k en s) ! i)" for i k' en'
    using that storage_ok_entry [OF assms(1) that(1)] assms(2) set_update_subset [of k en "stores s ! i"]
    by (auto simp: st split: if_splits)
qed (use assms in \<open>auto simp: storage_ok_def\<close>)

lemma erase_entry_ok [wf_preserved]:
  assumes "storage_ok e s"
  shows "storage_ok e (drop_expiry k (erase_entry e k s))"
proof (rule storage_ok_I [OF assms])
  have sz: "length (stores s) = kDefaultShards"
    using assms by (simp add: storage_ok_def sized_def)
  let ?j = "get_shard_index e k"
  have st: "stores (drop_expiry k (erase_entry e k s)) ! i =
    (if i = ?j then AList.delete k (stores s ! i) else stores s ! i)" for i
    using sz by (simp add: drop_expiry_def erase_entry_def upd_shard_def shard_of_def nth_list_update)
  show "distinct (map fst (stores (drop_expiry k (erase_entry e k s)) ! i))" if "i < kDefaultShards" for i
    using assms that by (simp add: st storage_ok_def)
  show "get_shard_index e k' = i \<and> object_ok (val en')"
    if "i < kDefaultShards" "(k', en') \<in> set (stores (drop_expiry k (erase_entry e k s)) ! i)" for i k' en'
    using that storage_ok_entry [OF assms that(1)] set_delete_subset [of k "stores s ! i"]
    by (auto simp: st split: if_splits)
qed (use assms in \<open>auto simp: storage_ok_def expire_distinct split: if_splits\<close>)

lemma increment_dirty_ok [wf_preserved]: "storage_ok e (increment_dirty s) = storage_ok e s"
proof -
  have "stores (increment_dirty s) = stores s"
    by (simp add: increment_dirty_def)
  then show ?thesis
    by (simp add: storage_ok_def)
qed

lemma expires_ok [wf_preserved]:
  assumes "storage_ok e s" "distinct (map fst d)" "\<And>k. map_of d k \<noteq> None \<Longrightarrow> find_entry e k s \<noteq> None"
  shows "storage_ok e (s\<lparr>expires := d\<rparr>)"
  using assms by (simp add: storage_ok_def)

lemma drop_expiry_ok [wf_preserved]: "storage_ok e s \<Longrightarrow> storage_ok e (drop_expiry k s)"
  unfolding drop_expiry_def
  by (rule expires_ok) (auto simp: storage_ok_def expire_distinct split: if_splits)

lemmas storage_views = live_def live_ttl_def find_entry_updates expires_updates

lemma drop_erase_commute: "erase_entry e k (drop_expiry k s) = drop_expiry k (erase_entry e k s)"
  by (simp add: erase_entry_def drop_expiry_def upd_shard_def shard_of_def)

lemma live_None_ttl [simp]: "live e s k = None \<Longrightarrow> live_ttl e s k = None"
  by (simp add: live_ttl_def)

lemma no_orphan: "storage_ok e s \<Longrightarrow> find_entry e k s = None \<Longrightarrow> map_of (expires s) k = None"
  unfolding storage_ok_def by blast

lemma live_NoneD:
  "storage_ok e s \<Longrightarrow> live e s k = None \<Longrightarrow> \<not> is_expired (env_now e) k (expires s) \<Longrightarrow>
   find_entry e k s = None \<and> map_of (expires s) k = None"
  by (auto simp: live_def dest: no_orphan split: if_splits)

section \<open>Operations on the views\<close>

lemma del_views [store_abs]:
  assumes "sized s"
  shows "live e (snd (del e k s)) = (live e s)(k := None)"
    "live_ttl e (snd (del e k s)) = (live_ttl e s)(k := None)"
    "fst (del e k s) \<longleftrightarrow> find_entry e k s \<noteq> None"
  using assms by (auto simp: del_def Let_def storage_views is_expired_def fun_eq_iff)

lemma del_ok [wf_preserved]: "storage_ok e s \<Longrightarrow> storage_ok e (snd (del e k s))"
  by (simp add: del_def Let_def drop_erase_commute increment_dirty_ok erase_entry_ok)

lemma get_views [store_abs]:
  assumes "sized s"
  shows "fst (storage_get e k s) = live e s k"
    "live e (snd (storage_get e k s)) = live e s" "live_ttl e (snd (storage_get e k s)) = live_ttl e s"
proof -
  have "fst (storage_get e k s) = live e s k \<and> live e (snd (storage_get e k s)) = live e s \<and>
        live_ttl e (snd (storage_get e k s)) = live_ttl e s"
  proof (cases "is_expired (env_now e) k (expires s)")
    case True
    then have "live e s k = None"
      by (simp add: live_def)
    with True del_views [OF assms, of e k] show ?thesis
      by (simp add: storage_get_def fun_upd_idem split: option.splits)
  next
    case False
    with assms show ?thesis
      by (auto simp: storage_get_def storage_views fun_eq_iff split: option.splits)
  qed
  then show "fst (storage_get e k s) = live e s k"
    "live e (snd (storage_get e k s)) = live e s" "live_ttl e (snd (storage_get e k s)) = live_ttl e s"
    by blast+
qed

lemma get_ok [wf_preserved]: "storage_ok e s \<Longrightarrow> storage_ok e (snd (storage_get e k s))"
  by (auto simp: storage_get_def del_ok storage_ok_val intro!: insert_or_assign_ok split: option.splits)

lemma exist_live [store_abs]: "exist e k s \<longleftrightarrow> live e s k \<noteq> None"
  by (auto simp: exist_def live_def)

lemma set_views [store_abs]:
  assumes "sized s" "no_evict s"
  shows "live e (storage_set e k v s) = (live e s)(k \<mapsto> v)"
    "live_ttl e (storage_set e k v s) = (live_ttl e s)(k := None)"
  using assms
  by (auto simp: storage_set_def evict_if_needed_below storage_views is_expired_def fun_eq_iff)

lemma set_with_expire_views [store_abs]:
  assumes "sized s" "no_evict s" "0 < ms" "env_now e < sat_deadline (env_now e) ms"
  shows "live e (set_with_expire e k v ms s) = (live e s)(k \<mapsto> v)"
    "live_ttl e (set_with_expire e k v ms s) = (live_ttl e s)(k \<mapsto> sat_deadline (env_now e) ms)"
  using assms
  by (auto simp: set_with_expire_def evict_if_needed_below storage_views is_expired_def fun_eq_iff Let_def)

section \<open>Lazy removal of expired keys\<close>

definition purge :: "env \<Rightarrow> string \<Rightarrow> storage \<Rightarrow> storage" where
  "purge e k s =
     (if find_entry e k s \<noteq> None \<and> is_expired (env_now e) k (expires s)
      then drop_expiry k (erase_entry e k s) else s)"

lemma purge_incr:
  assumes "storage_ok e s"
  shows "(if is_expired (env_now e) k (expires s) then drop_expiry k (erase_entry e k s) else s) = purge e k s"
proof -
  have "is_expired (env_now e) k (expires s) \<Longrightarrow> find_entry e k s \<noteq> None"
    using no_orphan [OF assms, of k] by (auto simp: is_expired_def split: option.splits)
  then show ?thesis
    by (auto simp: purge_def)
qed

lemma purge_ok [wf_preserved]: "storage_ok e s \<Longrightarrow> storage_ok e (purge e k s)"
  by (simp add: purge_def erase_entry_ok)

lemma purge_views:
  assumes "storage_ok e s"
  shows "live e (purge e k s) = live e s" "live_ttl e (purge e k s) = live_ttl e s"
    "map_option val (find_entry e k (purge e k s)) = live e s k"
    "\<not> is_expired (env_now e) k (expires (purge e k s))"
    "map_of (expires (purge e k s)) k = live_ttl e s k"
proof -
  have sz: "sized s"
    using assms by simp
  consider (exp) "is_expired (env_now e) k (expires s)" "find_entry e k s \<noteq> None"
    | (none) "find_entry e k s = None" "map_of (expires s) k = None"
    | (live) "\<not> is_expired (env_now e) k (expires s)" "find_entry e k s \<noteq> None"
    using no_orphan [OF assms, of k] by metis
  then have "live e (purge e k s) = live e s \<and> live_ttl e (purge e k s) = live_ttl e s \<and>
    map_option val (find_entry e k (purge e k s)) = live e s k \<and>
    \<not> is_expired (env_now e) k (expires (purge e k s)) \<and> map_of (expires (purge e k s)) k = live_ttl e s k"
  proof cases
    case exp
    then have l: "live e s k = None"
      by (simp add: live_def)
    have "live e (purge e k s) = (live e s)(k := None)" "live_ttl e (purge e k s) = (live_ttl e s)(k := None)"
      using sz exp by (auto simp: purge_def storage_views is_expired_def fun_eq_iff)
    with l exp sz show ?thesis
      by (simp add: fun_upd_idem purge_def)
  next
    case none
    then show ?thesis
      by (simp add: purge_def live_def live_ttl_def is_expired_def)
  next
    case live
    then show ?thesis
      by (auto simp: purge_def live_def live_ttl_def)
  qed
  then show "live e (purge e k s) = live e s" "live_ttl e (purge e k s) = live_ttl e s"
    "map_option val (find_entry e k (purge e k s)) = live e s k"
    "\<not> is_expired (env_now e) k (expires (purge e k s))"
    "map_of (expires (purge e k s)) k = live_ttl e s k"
    by blast+
qed

lemma purge_find: "storage_ok e s \<Longrightarrow> find_entry e k (purge e k s) = None \<longleftrightarrow> live e s k = None"
  using purge_views(3) [of e s k] by (metis option.map_disc_iff)

lemma insert_after_purge_views:
  assumes "storage_ok e s"
  shows "live e (increment_dirty (insert_or_assign e k en (purge e k s))) = (live e s)(k \<mapsto> val en)"
    "live_ttl e (increment_dirty (insert_or_assign e k en (purge e k s))) = live_ttl e s"
proof -
  note pv = purge_views [OF assms, of k]
  have sz: "sized (purge e k s)"
    by (rule storage_ok_sized [OF purge_ok [OF assms]])
  have "live e (increment_dirty (insert_or_assign e k en (purge e k s))) x = ((live e (purge e k s))(k \<mapsto> val en)) x" for x
    using sz pv(4) by (simp add: live_def)
  then show 1: "live e (increment_dirty (insert_or_assign e k en (purge e k s))) = (live e s)(k \<mapsto> val en)"
    unfolding pv(1) by blast
  have "live_ttl e (increment_dirty (insert_or_assign e k en (purge e k s))) x = live_ttl e s x" for x
  proof (cases "x = k")
    case True
    then show ?thesis
      using pv(5) by (simp add: live_ttl_def [of e "increment_dirty _"] 1)
  next
    case False
    then show ?thesis
      using fun_cong [OF pv(2), of x] fun_cong [OF pv(1), of x]
      by (auto simp: live_ttl_def [of e "increment_dirty _"] 1 live_ttl_def [of e "purge e k s"])
  qed
  then show "live_ttl e (increment_dirty (insert_or_assign e k en (purge e k s))) = live_ttl e s"
    by blast
qed

lemma erase_after_purge_views:
  assumes "storage_ok e s"
  shows "live e (increment_dirty (drop_expiry k (erase_entry e k (purge e k s)))) = (live e s)(k := None)"
    "live_ttl e (increment_dirty (drop_expiry k (erase_entry e k (purge e k s)))) = (live_ttl e s)(k := None)"
proof -
  have "sized (purge e k s)"
    by (rule storage_ok_sized [OF purge_ok [OF assms]])
  then have "live e (increment_dirty (drop_expiry k (erase_entry e k (purge e k s)))) = (live e (purge e k s))(k := None)"
    "live_ttl e (increment_dirty (drop_expiry k (erase_entry e k (purge e k s)))) = (live_ttl e (purge e k s))(k := None)"
    by (auto simp: storage_views is_expired_def fun_eq_iff)
  then show "live e (increment_dirty (drop_expiry k (erase_entry e k (purge e k s)))) = (live e s)(k := None)"
    "live_ttl e (increment_dirty (drop_expiry k (erase_entry e k (purge e k s)))) = (live_ttl e s)(k := None)"
    by (simp_all add: purge_views [OF assms])
qed

section \<open>Read-modify-write\<close>

definition type_mismatch :: "object_type \<Rightarrow> string_promotion \<Rightarrow> cache_object option \<Rightarrow> bool" where
  "type_mismatch want promote cur \<longleftrightarrow>
     (case cur of None \<Rightarrow> False | Some ob \<Rightarrow> otype ob \<noteq> want \<and> \<not> (otype ob = STRING \<and> promote = KAllow))"

definition object_or_new :: "cache_object option \<Rightarrow> cache_object" where
  "object_or_new cur = (case cur of None \<Rightarrow> CacheObject | Some ob \<Rightarrow> ob)"

lemma mutate_purged:
  assumes "storage_ok e s" "evict_if_needed e s0 = s"
  shows "mutate e k want fn promote s0 =
    (if type_mismatch want promote (live e s k) then (None, purge e k s)
     else case fn (object_or_new (live e s k)) of (op, ob, r) \<Rightarrow>
       (Some r, case op of KNoop \<Rightarrow> purge e k s
          | KErase \<Rightarrow> if live e s k \<noteq> None then increment_dirty (drop_expiry k (erase_entry e k (purge e k s)))
                     else purge e k s
          | KWrite \<Rightarrow> increment_dirty (insert_or_assign e k \<lparr>val = ob, last_access = env_now e\<rparr> (purge e k s))))"
proof -
  have p: "(if find_entry e k s \<noteq> None \<and> is_expired (env_now e) k (expires s)
            then drop_expiry k (erase_entry e k s) else s) = purge e k s"
    by (simp add: purge_def)
  have v: "live e s k = map_option val (find_entry e k (purge e k s))"
    using purge_views(3) [OF assms(1), of k] by simp
  show ?thesis
    unfolding mutate_def assms(2) Let_def p v
    by (cases "find_entry e k (purge e k s)")
      (simp_all add: type_mismatch_def object_or_new_def split: prod.splits store_op.splits)
qed

lemma mutate_views [store_abs]:
  assumes "storage_ok e s" "no_evict s" "\<not> type_mismatch want promote (live e s k)"
    "fn (object_or_new (live e s k)) = (op, ob, r)"
  shows "fst (mutate e k want fn promote s) = Some r"
    "live e (snd (mutate e k want fn promote s)) =
       (case op of KNoop \<Rightarrow> live e s | KErase \<Rightarrow> (live e s)(k := None) | KWrite \<Rightarrow> (live e s)(k \<mapsto> ob))"
    "live_ttl e (snd (mutate e k want fn promote s)) =
       (case op of KErase \<Rightarrow> (live_ttl e s)(k := None) | _ \<Rightarrow> live_ttl e s)"
  using assms(3,4) erase_after_purge_views [OF assms(1), of k] insert_after_purge_views [OF assms(1), of k]
    purge_views(1,2) [OF assms(1), of k]
  by (auto simp: mutate_purged [OF assms(1) evict_if_needed_below [OF assms(2)]] fun_upd_idem split: store_op.splits)

lemma mutate_mismatch [store_abs]:
  assumes "storage_ok e s" "no_evict s" "type_mismatch want promote (live e s k)"
  shows "fst (mutate e k want fn promote s) = None"
    "live e (snd (mutate e k want fn promote s)) = live e s"
    "live_ttl e (snd (mutate e k want fn promote s)) = live_ttl e s"
  using assms(3) purge_views(1,2) [OF assms(1), of k] by (simp_all add: mutate_purged [OF assms(1) evict_if_needed_below [OF assms(2)]])

lemma live_object_ok: "storage_ok e s \<Longrightarrow> live e s k = Some ob \<Longrightarrow> object_ok ob"
  by (auto simp: live_def storage_ok_val split: if_splits)

lemma object_or_new_ok: "storage_ok e s \<Longrightarrow> object_ok (object_or_new (live e s k))"
  by (auto simp: object_or_new_def live_object_ok split: option.splits)

lemma insert_with_ttl_views:
  assumes "storage_ok e s" "map_of d = (map_of (expires (purge e k s)))(k := t)"
    "\<And>x. t = Some x \<Longrightarrow> env_now e < x"
  shows "live e ((increment_dirty (insert_or_assign e k en (purge e k s)))\<lparr>expires := d\<rparr>) = (live e s)(k \<mapsto> val en)"
    "live_ttl e ((increment_dirty (insert_or_assign e k en (purge e k s)))\<lparr>expires := d\<rparr>) = (live_ttl e s)(k := t)"
proof -
  let ?s = "(increment_dirty (insert_or_assign e k en (purge e k s)))\<lparr>expires := d\<rparr>"
  note pv = purge_views(1,2) [OF assms(1), of k]
  have sz: "sized (purge e k s)"
    by (rule storage_ok_sized [OF purge_ok [OF assms(1)]])
  have ex: "is_expired (env_now e) x d = (if x = k then False else is_expired (env_now e) x (expires (purge e k s)))" for x
    using assms(3) by (auto simp: is_expired_def assms(2) split: option.splits)
  have 1: "live e ?s x = ((live e (purge e k s))(k \<mapsto> val en)) x" for x
    using sz by (simp add: live_def ex)
  then show "live e ?s = (live e s)(k \<mapsto> val en)"
    unfolding pv(1) by blast
  have "live_ttl e ?s x = ((live_ttl e (purge e k s))(k := t)) x" for x
    by (auto simp: live_ttl_def [of e ?s] 1 assms(2) live_ttl_def [of e "purge e k s"])
  then show "live_ttl e ?s = (live_ttl e s)(k := t)"
    unfolding pv(2) by blast
qed

definition set_applies :: "set_condition \<Rightarrow> 'a option \<Rightarrow> bool" where
  "set_applies cond cur \<longleftrightarrow> (case cond of KNone \<Rightarrow> True | KOnlyIfAbsent \<Rightarrow> cur = None | KOnlyIfExists \<Rightarrow> cur \<noteq> None)"

lemma set_conditional_purged:
  assumes "storage_ok e s" "evict_if_needed e s0 = s"
  shows "set_conditional e k v cond ttl_ms keep s0 =
    (if set_applies cond (live e s k) then
       ((True, live e s k),
        (increment_dirty (insert_or_assign e k \<lparr>val = v, last_access = env_now e\<rparr> (purge e k s)))\<lparr>expires :=
           (let d = expires (purge e k s); kept = get_expire_time k d in
            if keep then (if kept > 0 then set_expire_time k kept d else exp_remove k d)
            else if ttl_ms > 0 then set_expire_time k (sat_deadline (env_now e) ttl_ms) d
            else exp_remove k d)\<rparr>)
     else ((False, live e s k), purge e k s))"
proof -
  have p: "(if find_entry e k s \<noteq> None \<and> is_expired (env_now e) k (expires s)
            then drop_expiry k (erase_entry e k s) else s) = purge e k s"
    by (simp add: purge_def)
  have v: "map_option val (find_entry e k (purge e k s)) = live e s k"
    by (rule purge_views(3) [OF assms(1)])
  show ?thesis
    unfolding set_conditional_def assms(2) Let_def p v
    by (cases cond) (auto simp: set_applies_def drop_expiry_def)
qed

lemma set_conditional_views [store_abs]:
  assumes "storage_ok e s" "no_evict s" "set_applies cond (live e s k)"
    "clock_ok (env_now e)" "ttl_ms > 0 \<Longrightarrow> env_now e < sat_deadline (env_now e) ttl_ms"
  shows "fst (set_conditional e k v cond ttl_ms keep s) = (True, live e s k)"
    "live e (snd (set_conditional e k v cond ttl_ms keep s)) = (live e s)(k \<mapsto> v)"
    "live_ttl e (snd (set_conditional e k v cond ttl_ms keep s)) =
       (live_ttl e s)(k := if keep then live_ttl e s k
                           else if ttl_ms > 0 then Some (sat_deadline (env_now e) ttl_ms) else None)"
proof -
  let ?d = "expires (purge e k s)" and ?kept = "get_expire_time k (expires (purge e k s))"
  let ?t = "if keep then live_ttl e s k else if ttl_ms > 0 then Some (sat_deadline (env_now e) ttl_ms) else None"
  let ?d' = "if keep then (if ?kept > 0 then set_expire_time k ?kept ?d else exp_remove k ?d)
             else if ttl_ms > 0 then set_expire_time k (sat_deadline (env_now e) ttl_ms) ?d else exp_remove k ?d"
  note pv = purge_views(4,5) [OF assms(1), of k]
  have kept: "live_ttl e s k = Some x \<Longrightarrow> env_now e < x \<and> ?kept = x" for x
    using pv by (auto simp: is_expired_def get_expire_time_def)
  have nokept: "live_ttl e s k = None \<Longrightarrow> ?kept = -1"
    using pv(2) by (simp add: get_expire_time_def)
  have m: "map_of ?d' = (map_of ?d)(k := ?t)"
    using kept nokept assms(4) by (cases "live_ttl e s k") (auto simp: clock_ok_def)
  have t: "?t = Some x \<Longrightarrow> env_now e < x" for x
    using kept assms(5) by (auto split: if_splits)
  note iv = insert_with_ttl_views [OF assms(1) m t, of "\<lparr>val = v, last_access = env_now e\<rparr>"]
  show "fst (set_conditional e k v cond ttl_ms keep s) = (True, live e s k)"
    using assms(3) by (simp add: set_conditional_purged [OF assms(1) evict_if_needed_below [OF assms(2)]])
  show "live e (snd (set_conditional e k v cond ttl_ms keep s)) = (live e s)(k \<mapsto> v)"
    "live_ttl e (snd (set_conditional e k v cond ttl_ms keep s)) = (live_ttl e s)(k := ?t)"
    using assms(3) iv unfolding set_conditional_purged [OF assms(1) evict_if_needed_below [OF assms(2)]] Let_def by simp_all
qed

lemma set_conditional_refused [store_abs]:
  assumes "storage_ok e s" "no_evict s" "\<not> set_applies cond (live e s k)"
  shows "fst (set_conditional e k v cond ttl_ms keep s) = (False, live e s k)"
    "live e (snd (set_conditional e k v cond ttl_ms keep s)) = live e s"
    "live_ttl e (snd (set_conditional e k v cond ttl_ms keep s)) = live_ttl e s"
  using assms(3) purge_views(1,2) [OF assms(1), of k] by (simp_all add: set_conditional_purged [OF assms(1) evict_if_needed_below [OF assms(2)]])

section \<open>Counters\<close>

text \<open>The number a counter starts from: 0 for a missing key, the decimal value of a string.\<close>

definition counter_value :: "cache_object option \<Rightarrow> int option" where
  "counter_value cur = (case cur of None \<Rightarrow> Some 0
     | Some ob \<Rightarrow> (case get_string ob of None \<Rightarrow> None | Some str \<Rightarrow> parse_ll_strict str))"

lemma counter_value_ok: "counter_value cur = Some v \<Longrightarrow> int64_ok v"
  by (auto simp: counter_value_def parse_ll_strict_iff int64_arith split: option.splits)

lemma incrby_guard:
  assumes "int64_ok v" "int64_ok delta"
  shows "(delta > 0 \<and> v > sub64 int64_max delta) \<or> (delta < 0 \<and> v < sub64 int64_min delta) \<longleftrightarrow> \<not> int64_ok (v + delta)"
  using assms by (auto simp: int64_arith sub64_id)

lemma incrby_purged:
  assumes "storage_ok e s" "evict_if_needed e s0 = s" "int64_ok delta"
  shows "incrby e k delta s0 =
    (case counter_value (live e s k) of None \<Rightarrow> (None, purge e k s)
     | Some v \<Rightarrow> if int64_ok (v + delta)
         then (Some (v + delta), increment_dirty (insert_or_assign e k
                 \<lparr>val = CacheObject_string (to_string (v + delta)), last_access = env_now e\<rparr> (purge e k s)))
         else (None, purge e k s))"
proof -
  have v: "(case find_entry e k (purge e k s) of None \<Rightarrow> Some 0
      | Some entry \<Rightarrow> (case get_string (val entry) of None \<Rightarrow> None | Some str \<Rightarrow> parse_ll_strict str)) = counter_value (live e s k)"
    using purge_views(3) [OF assms(1), of k, symmetric]
    by (cases "find_entry e k (purge e k s)") (auto simp: counter_value_def)
  show ?thesis
    unfolding incrby_def assms(2) Let_def purge_incr [OF assms(1)] v
    using counter_value_ok [of "live e s k"]
    by (auto simp: incrby_guard [OF _ assms(3)] add64_id split: option.splits)
qed

lemma incrby_views [store_abs]:
  assumes "storage_ok e s" "no_evict s" "int64_ok delta" "counter_value (live e s k) = Some v" "int64_ok (v + delta)"
  shows "fst (incrby e k delta s) = Some (v + delta)"
    "live e (snd (incrby e k delta s)) = (live e s)(k \<mapsto> CacheObject_string (to_string (v + delta)))"
    "live_ttl e (snd (incrby e k delta s)) = live_ttl e s"
  using assms(4,5) insert_after_purge_views [OF assms(1), of k]
  by (simp_all add: incrby_purged [OF assms(1) evict_if_needed_below [OF assms(2)] assms(3)])

lemma incrby_refused [store_abs]:
  assumes "storage_ok e s" "no_evict s" "int64_ok delta"
    "case counter_value (live e s k) of None \<Rightarrow> True | Some v \<Rightarrow> \<not> int64_ok (v + delta)"
  shows "fst (incrby e k delta s) = None" "live e (snd (incrby e k delta s)) = live e s"
    "live_ttl e (snd (incrby e k delta s)) = live_ttl e s"
  using assms(4) purge_views(1,2) [OF assms(1), of k]
  by (auto simp: incrby_purged [OF assms(1) evict_if_needed_below [OF assms(2)] assms(3)] split: option.splits)

section \<open>Eviction\<close>

definition expired_at :: "int \<Rightarrow> expire_dict \<Rightarrow> string \<Rightarrow> bool" where
  "expired_at now d k \<longleftrightarrow> get_expire_time k d > 0 \<and> now \<ge> get_expire_time k d"

lemma pick_victim_expired:
  "x \<in> set store \<Longrightarrow> expired_at now d (fst x) \<Longrightarrow>
   \<exists>y \<in> set store. pick_victim now d oldest t store = Some (fst y) \<and> expired_at now d (fst y)"
  by (induction now d oldest t store rule: pick_victim.induct) (auto simp: Let_def expired_at_def)

lemma pick_victim_lru:
  "\<forall>x \<in> set store. \<not> expired_at now d (fst x) \<Longrightarrow>
   (\<exists>x \<in> set store. last_access (snd x) < t \<and> pick_victim now d oldest t store = Some (fst x) \<and>
      (\<forall>y \<in> set store. last_access (snd x) \<le> last_access (snd y))) \<or>
   pick_victim now d oldest t store = oldest \<and> (\<forall>x \<in> set store. t \<le> last_access (snd x))"
proof (induction store arbitrary: oldest t)
  case (Cons x rest)
  obtain key entry where x: "x = (key, entry)"
    by fastforce
  have ne: "\<forall>x \<in> set rest. \<not> expired_at now d (fst x)"
    using Cons.prems by simp
  have pv: "pick_victim now d oldest t (x # rest) =
    (if last_access entry < t then pick_victim now d (Some key) (last_access entry) rest else pick_victim now d oldest t rest)"
    using Cons.prems x by (auto simp: expired_at_def Let_def)
  define o' t' where "o' = (if last_access entry < t then Some key else oldest)"
    and "t' = (if last_access entry < t then last_access entry else t)"
  have pv': "pick_victim now d oldest t (x # rest) = pick_victim now d o' t' rest" "t' \<le> t" "t' \<le> last_access entry"
    using pv by (auto simp: o'_def t'_def)
  from Cons.IH [OF ne, of t' o'] consider
    (a) y where "y \<in> set rest" "last_access (snd y) < t'" "pick_victim now d o' t' rest = Some (fst y)"
      "\<forall>z \<in> set rest. last_access (snd y) \<le> last_access (snd z)"
    | (b) "pick_victim now d o' t' rest = o'" "\<forall>z \<in> set rest. t' \<le> last_access (snd z)"
    by blast
  then show ?case
  proof cases
    case a
    with pv' x show ?thesis
      by (intro disjI1 bexI [of _ y]) auto
  next
    case b
    show ?thesis
    proof (cases "last_access entry < t")
      case True
      with b pv' x show ?thesis
        by (intro disjI1 bexI [of _ x]) (auto simp: o'_def t'_def)
    next
      case False
      with b pv' x show ?thesis
        by (intro disjI2) (auto simp: o'_def t'_def)
    qed
  qed
qed simp

lemma pick_victim_member:
  assumes "pick_victim now d None t store = Some k"
  shows "k \<in> fst ` set store"
proof (cases "\<exists>x \<in> set store. expired_at now d (fst x)")
  case True
  then obtain x where "x \<in> set store" "expired_at now d (fst x)"
    by blast
  from pick_victim_expired [OF this, of None t] show ?thesis
    using assms by auto
next
  case False
  then show ?thesis
    using pick_victim_lru [of store now d t None] assms by auto
qed

text \<open>One eviction is the removal of one stored key.\<close>

lemma evict_attempts_step:
  assumes "storage_ok e s" "evict_attempts e c n s = (v, s')"
  shows "s' = s \<and> v = [] \<or> find_entry e v s \<noteq> None \<and> s' = drop_expiry v (erase_entry e v s)"
  using assms
proof (induction n)
  case (Suc n)
  let ?i = "env_rnd e c n mod kDefaultShards"
  have i: "?i < kDefaultShards"
    by (simp add: kDefaultShards_def)
  show ?case
  proof (cases "pick_victim (env_now e) (expires s) None int64_max (stores s ! ?i)")
    case (Some w)
    then obtain en where w: "(w, en) \<in> set (stores s ! ?i)"
      using pick_victim_member by fastforce
    with storage_ok_entry [OF Suc.prems(1) i] have j: "get_shard_index e w = ?i"
      by blast
    have ne: "stores s ! ?i \<noteq> []"
      using w by auto
    have "w \<in> fst ` set (stores s ! ?i)"
      using w by force
    then have "find_entry e w s \<noteq> None"
      by (simp add: find_entry_def shard_of_def j map_of_eq_None_iff)
    moreover have "evict_attempts e c (Suc n) s = (w, drop_expiry w (erase_entry e w s))"
      using Some ne by (simp add: Let_def drop_expiry_def erase_entry_def upd_shard_def shard_of_def j)
    ultimately show ?thesis
      using Suc.prems(2) by (simp only: prod.inject) blast
  qed (use Suc in \<open>auto simp: Let_def split: if_splits\<close>)
qed simp

lemma storage_size_erase:
  assumes "storage_ok e s" "find_entry e k s \<noteq> None"
  shows "Suc (storage_size (drop_expiry k (erase_entry e k s))) = storage_size s"
proof -
  let ?i = "get_shard_index e k"
  have len: "length (stores s) = kDefaultShards" and d: "distinct (map fst (stores s ! ?i))"
    using assms(1) by (auto simp: storage_ok_def sized_def)
  have "Suc (length (AList.delete k (stores s ! ?i))) = length (stores s ! ?i)"
    using assms(2) d by (intro length_delete_present) (simp_all add: find_entry_def shard_of_def)
  moreover have "length (stores s ! ?i) \<le> sum_list (map length (stores s))"
    using len by (intro elem_le_sum_list [of ?i "map length (stores s)", simplified]) simp_all
  ultimately show ?thesis
    using len
    by (simp add: storage_size_def drop_expiry_def erase_entry_def upd_shard_def shard_of_def map_update sum_list_update)
qed

definition kept_or_gone :: "env \<Rightarrow> storage \<Rightarrow> storage \<Rightarrow> string \<Rightarrow> bool" where
  "kept_or_gone e s s' k \<longleftrightarrow>
     find_entry e k s' = find_entry e k s \<and> map_of (expires s') k = map_of (expires s) k \<or>
     find_entry e k s' = None \<and> map_of (expires s') k = None"

definition shrinks :: "env \<Rightarrow> storage \<Rightarrow> storage \<Rightarrow> bool" where
  "shrinks e s s' \<longleftrightarrow> max_entries s' = max_entries s \<and> dirty_counter s' = dirty_counter s \<and> (\<forall>k. kept_or_gone e s s' k)"

lemma kept_or_gone_trans: "kept_or_gone e s s' k \<Longrightarrow> kept_or_gone e s' s'' k \<Longrightarrow> kept_or_gone e s s'' k"
  by (auto simp: kept_or_gone_def)

lemma shrinks_refl [simp]: "shrinks e s s"
  by (simp add: shrinks_def kept_or_gone_def)

lemma shrinks_trans: "shrinks e s s' \<Longrightarrow> shrinks e s' s'' \<Longrightarrow> shrinks e s s''"
  unfolding shrinks_def using kept_or_gone_trans by force

lemma shrinks_erase: "sized s \<Longrightarrow> shrinks e s (drop_expiry k (erase_entry e k s))"
  by (simp add: shrinks_def kept_or_gone_def) (simp add: drop_expiry_def erase_entry_def upd_shard_def)

lemma evict_loop_facts:
  "storage_ok e s \<Longrightarrow>
   storage_ok e (evict_loop e target n s) \<and> shrinks e s (evict_loop e target n s) \<and>
   storage_size s \<le> storage_size (evict_loop e target n s) + n"
proof (induction n arbitrary: s)
  case (Suc n)
  let ?c = "kMaxEvictPerCycle - Suc n"
  obtain v s' where ev: "evict_one e ?c s = (v, s')"
    by fastforce
  from evict_attempts_step [OF Suc.prems, of ?c 8 v s'] ev
  consider "s' = s" "v = []" | "find_entry e v s \<noteq> None" "s' = drop_expiry v (erase_entry e v s)"
    by (auto simp: evict_one_def)
  then show ?case
  proof cases
    case 1
    with ev show ?thesis
      using Suc.prems by (simp add: Let_def)
  next
    case 2
    then have s': "storage_ok e s'" "shrinks e s s'" "storage_size s \<le> Suc (storage_size s')"
      using Suc.prems storage_size_erase [OF Suc.prems 2(1)] by (simp_all add: erase_entry_ok shrinks_erase)
    have "evict_loop e target (Suc n) s = s' \<or> evict_loop e target (Suc n) s = evict_loop e target n s'"
      using ev by (simp add: Let_def)
    with Suc.IH [OF s'(1)] s' shrinks_trans [OF s'(2), of "evict_loop e target n s'"] show ?thesis
      by (elim disjE) simp_all
  qed
qed simp

lemma evict_if_needed_facts:
  assumes "storage_ok e s"
  shows "storage_ok e (evict_if_needed e s)" "shrinks e s (evict_if_needed e s)"
    "storage_size s \<le> storage_size (evict_if_needed e s) + kMaxEvictPerCycle"
  using evict_loop_facts [OF assms, of "scaled kEvictTargetRatio (max_entries s)" kMaxEvictPerCycle] assms
  by (simp_all add: evict_if_needed_def Let_def)

lemma shrinks_live: "shrinks e s s' \<Longrightarrow> live e s' \<subseteq>\<^sub>m live e s"
proof (unfold map_le_def, intro ballI)
  fix k
  assume sh: "shrinks e s s'" and k: "k \<in> dom (live e s')"
  then have "find_entry e k s' \<noteq> None"
    by (auto simp: live_def split: if_splits)
  moreover have "kept_or_gone e s s' k"
    using sh by (simp add: shrinks_def)
  ultimately have "find_entry e k s' = find_entry e k s \<and> map_of (expires s') k = map_of (expires s) k"
    unfolding kept_or_gone_def by argo
  then show "live e s' k = live e s k"
    by (simp add: live_def is_expired_def)
qed

section \<open>Every operation keeps the invariant\<close>

lemma insert_expires_commute:
  "insert_or_assign e k en (s\<lparr>expires := d\<rparr>) = (insert_or_assign e k en s)\<lparr>expires := d\<rparr>"
  by (simp add: insert_or_assign_def upd_shard_def shard_of_def)

lemma expires_upd_ok:
  assumes "storage_ok e s" "find_entry e k s \<noteq> None" "distinct (map fst d)" "map_of d = (map_of (expires s))(k \<mapsto> t)"
  shows "storage_ok e (s\<lparr>expires := d\<rparr>)"
proof (rule expires_ok [OF assms(1,3)])
  show "find_entry e x s \<noteq> None" if "map_of d x \<noteq> None" for x
    using that assms(2) no_orphan [OF assms(1), of x] unfolding assms(4) by (metis fun_upd_other)
qed

lemma expires_write_ok:
  assumes "storage_ok e s" "find_entry e k s \<noteq> None"
  shows "storage_ok e (s\<lparr>expires := set_expire_time k t (expires s)\<rparr>)"
    "storage_ok e (s\<lparr>expires := exp_set now k ms (expires s)\<rparr>)"
proof -
  have d: "distinct (map fst (expires s))"
    using assms(1) by (simp add: storage_ok_def)
  show "storage_ok e (s\<lparr>expires := set_expire_time k t (expires s)\<rparr>)"
    "storage_ok e (s\<lparr>expires := exp_set now k ms (expires s)\<rparr>)"
    by (rule expires_upd_ok [OF assms expire_distinct(2) [OF d]], simp)
      (rule expires_upd_ok [OF assms expire_distinct(1) [OF d]], simp)
qed

lemma drop_expiry_alt: "s\<lparr>expires := exp_remove k (expires s)\<rparr> = drop_expiry k s"
  by (simp add: drop_expiry_def)

lemma set_ok [wf_preserved]:
  "storage_ok e s \<Longrightarrow> object_ok v \<Longrightarrow> storage_ok e (storage_set e k v s)"
  by (simp add: storage_set_def Let_def increment_dirty_ok insert_or_assign_ok drop_expiry_ok evict_if_needed_facts)

lemma set_with_expire_ok [wf_preserved]:
  assumes "storage_ok e s" "object_ok v"
  shows "storage_ok e (set_with_expire e k v ms s)"
proof -
  let ?en = "\<lparr>val = v, last_access = env_now e\<rparr>" and ?s = "evict_if_needed e s"
  have i: "storage_ok e (insert_or_assign e k ?en ?s)"
    using assms by (simp add: insert_or_assign_ok evict_if_needed_facts)
  have f: "find_entry e k (insert_or_assign e k ?en ?s) \<noteq> None"
    using storage_ok_sized [OF evict_if_needed_facts(1) [OF assms(1)]] by simp
  from expires_write_ok(1) [OF i f, of "sat_deadline (env_now e) ms"] drop_expiry_ok [OF i, of k] show ?thesis
    by (auto simp: set_with_expire_def Let_def increment_dirty_ok insert_expires_commute drop_expiry_def)
qed

lemma mutate_ok [wf_preserved]:
  assumes "storage_ok e s" "\<And>ob op ob' r. object_ok ob \<Longrightarrow> fn ob = (op, ob', r) \<Longrightarrow> op = KWrite \<Longrightarrow> object_ok ob'"
  shows "storage_ok e (snd (mutate e k want fn promote s))"
proof -
  note ev = evict_if_needed_facts(1) [OF assms(1)]
  note p = purge_ok [OF ev, of k]
  obtain op ob r where fn: "fn (object_or_new (live e (evict_if_needed e s) k)) = (op, ob, r)"
    using prod_cases3 by blast
  have "op = KWrite \<Longrightarrow> object_ok ob"
    using assms(2) object_or_new_ok [OF ev] fn by blast
  with fn p show ?thesis
    by (auto simp: mutate_purged [OF ev refl] increment_dirty_ok erase_entry_ok insert_or_assign_ok split: store_op.splits)
qed

lemma set_conditional_ok [wf_preserved]:
  assumes "storage_ok e s" "object_ok v"
  shows "storage_ok e (snd (set_conditional e k v cond ms keep s))"
proof -
  note ev = evict_if_needed_facts(1) [OF assms(1)]
  let ?p = "purge e k (evict_if_needed e s)"
  let ?i = "increment_dirty (insert_or_assign e k \<lparr>val = v, last_access = env_now e\<rparr> ?p)"
  note p = purge_ok [OF ev, of k]
  have i: "storage_ok e ?i"
    using assms(2) p by (simp add: increment_dirty_ok insert_or_assign_ok)
  have f: "find_entry e k ?i \<noteq> None"
    using storage_ok_sized [OF p] by simp
  have x: "expires ?i = expires ?p"
    by simp
  from expires_write_ok(1) [OF i f] drop_expiry_ok [OF i, of k] p show ?thesis
    unfolding set_conditional_purged [OF ev refl] Let_def drop_expiry_def x by simp
qed

lemma incrby_ok [wf_preserved]:
  assumes "storage_ok e s" "int64_ok delta"
  shows "storage_ok e (snd (incrby e k delta s))"
proof -
  note ev = evict_if_needed_facts(1) [OF assms(1)]
  show ?thesis
    using purge_ok [OF ev, of k]
    by (auto simp: incrby_purged [OF ev refl assms(2)] increment_dirty_ok insert_or_assign_ok split: option.splits)
qed

lemma clear_facts:
  "storage_ok e s \<Longrightarrow> storage_ok e (clear s)" "storage_ok e s \<Longrightarrow> live e (clear s) = (\<lambda>_. None)"
  by (auto simp: storage_ok_def sized_def clear_def clear_all_def live_def find_entry_def shard_of_def)

lemma persist_ok:
  "storage_ok e s \<Longrightarrow> storage_ok e (s\<lparr>expires := snd (exp_persist k (expires s))\<rparr>)"
  using drop_expiry_ok [of e s k]
  by (cases "map_of (expires s) k") (simp_all add: exp_persist_def drop_expiry_def exp_remove_def)

lemma storage_ok_env: "env_hash e = env_hash e' \<Longrightarrow> storage_ok e s = storage_ok e' s"
  by (simp add: storage_ok_def get_shard_index_def find_entry_def shard_of_def)

lemma new_ok: "storage_ok e GlobalStorage"
  by (simp add: storage_ok_def sized_def GlobalStorage_def kDefaultShards_def)

lemma sweep_facts:
  assumes "storage_ok e s"
  shows "storage_ok e (snd (sweep e draws s)) \<and> live e (snd (sweep e draws s)) = live e s \<and>
         live_ttl e (snd (sweep e draws s)) = live_ttl e s"
proof -
  let ?f = "\<lambda>(deleted, s) key. if is_expired (env_now e) key (expires s)
        then case del e key s of (erased, s') \<Rightarrow> ((if erased then deleted + 1 else deleted), s') else (deleted, s)"
  have "storage_ok e s \<Longrightarrow> storage_ok e (snd (foldl ?f (n, s) ks)) \<and> live e (snd (foldl ?f (n, s) ks)) = live e s \<and>
        live_ttl e (snd (foldl ?f (n, s) ks)) = live_ttl e s" for ks n s
  proof (induction ks arbitrary: n s)
    case (Cons k ks)
    obtain m s' where st: "?f (n, s) k = (m, s')"
      by fastforce
    have "storage_ok e s' \<and> live e s' = live e s \<and> live_ttl e s' = live_ttl e s"
    proof (cases "is_expired (env_now e) k (expires s)")
      case True
      then have "live e s k = None" "s' = snd (del e k s)"
        using st by (auto simp: live_def split: prod.splits)
      then show ?thesis
        using del_ok [OF Cons.prems] del_views(1,2) [OF storage_ok_sized [OF Cons.prems], of e k]
        by (simp add: fun_upd_idem)
    qed (use st Cons.prems in simp)
    with Cons.IH [of s' m] st show ?case
      by simp
  qed simp
  from this [OF assms] show ?thesis
    by (simp add: sweep_def)
qed

section \<open>Reachable states\<close>

text \<open>The states a server can be in: any sequence of storage operations, each at its own clock reading
  and with its own random draws, on the store a process starts with.  The callback of \<^verbatim>\<open>mutate\<close> and
  the values written must keep objects well formed, which the commands do; the values a callback
  captures have no influence on the store, so their type is \<open>unit\<close> here.\<close>

definition keeps_objects :: "(cache_object \<Rightarrow> store_op \<times> cache_object \<times> 'r) \<Rightarrow> bool" where
  "keeps_objects fn \<longleftrightarrow> (\<forall>ob. object_ok ob \<longrightarrow> fst (fn ob) = KWrite \<longrightarrow> object_ok (fst (snd (fn ob))))"

inductive reachable :: "(string \<Rightarrow> nat) \<Rightarrow> storage \<Rightarrow> bool" for h where
  start: "reachable h (set_max_entries n GlobalStorage)"
| get: "reachable h s \<Longrightarrow> env_hash e = h \<Longrightarrow> reachable h (snd (storage_get e k s))"
| set: "reachable h s \<Longrightarrow> env_hash e = h \<Longrightarrow> object_ok v \<Longrightarrow> reachable h (storage_set e k v s)"
| del: "reachable h s \<Longrightarrow> env_hash e = h \<Longrightarrow> reachable h (snd (del e k s))"
| mutate: "reachable h s \<Longrightarrow> env_hash e = h \<Longrightarrow> keeps_objects fn \<Longrightarrow>
    reachable h (snd (mutate e k want (fn :: cache_object \<Rightarrow> store_op \<times> cache_object \<times> unit) promote s))"
| set_conditional: "reachable h s \<Longrightarrow> env_hash e = h \<Longrightarrow> object_ok v \<Longrightarrow>
    reachable h (snd (set_conditional e k v cond ms keep s))"
| set_with_expire: "reachable h s \<Longrightarrow> env_hash e = h \<Longrightarrow> object_ok v \<Longrightarrow> reachable h (set_with_expire e k v ms s)"
| incrby: "reachable h s \<Longrightarrow> env_hash e = h \<Longrightarrow> int64_ok delta \<Longrightarrow> reachable h (snd (incrby e k delta s))"
| expire: "reachable h s \<Longrightarrow> env_hash e = h \<Longrightarrow> exist e k s \<Longrightarrow>
    reachable h (increment_dirty (s\<lparr>expires := exp_set (env_now e) k ms (expires s)\<rparr>))"
| persist: "reachable h s \<Longrightarrow> reachable h (s\<lparr>expires := snd (exp_persist k (expires s))\<rparr>)"
| sweep: "reachable h s \<Longrightarrow> env_hash e = h \<Longrightarrow> reachable h (snd (sweep e draws s))"
| clear: "reachable h s \<Longrightarrow> reachable h (clear s)"

definition some_env :: "(string \<Rightarrow> nat) \<Rightarrow> env" where
  "some_env h = \<lparr>env_now = 0, env_hash = h, env_rnd = (\<lambda>_ _. 0)\<rparr>"

lemma storage_ok_some: "env_hash e = h \<Longrightarrow> storage_ok (some_env h) s = storage_ok e s"
  by (rule storage_ok_env) (simp add: some_env_def)

lemma reachable_some: "reachable h s \<Longrightarrow> storage_ok (some_env h) s"
proof (induction rule: reachable.induct)
  case (start n)
  show ?case
    by (simp add: storage_ok_def sized_def set_max_entries_def GlobalStorage_def kDefaultShards_def)
next
  case (mutate s e fn k want promote)
  have "storage_ok e (snd (mutate e k want fn promote s))"
    by (rule mutate_ok) (use mutate storage_ok_some in \<open>auto simp: keeps_objects_def\<close>)
  then show ?case
    using mutate.hyps(2) storage_ok_some by simp
next
  case (expire s e k ms)
  have "storage_ok e s" "find_entry e k s \<noteq> None"
    using expire storage_ok_some by (simp_all add: exist_def)
  from expires_write_ok(2) [OF this] show ?case
    using expire.hyps(2) storage_ok_some by (simp add: increment_dirty_ok)
next
  case (persist s k)
  then show ?case
    by (simp add: persist_ok)
next
  case (clear s)
  then show ?case
    by (simp add: clear_facts)
qed (metis storage_ok_some get_ok set_ok del_ok set_conditional_ok set_with_expire_ok incrby_ok sweep_facts)+

end
