(* ===== verification/CC_Keyspace.thy ===== *)
theory CC_Keyspace
  imports CC_Storage_Facts
begin

text \<open>
  The contract of the storage engine towards the command layer: the interface \<open>keyspace\<close> of
  removing keys with its client lemmas and its interpretation on the sharded store, and the
  properties of the storage operations stated on what clients can observe.
\<close>

section \<open>Removing many keys\<close>

locale keyspace =
  fixes look :: "'s \<Rightarrow> string \<Rightarrow> 'v option"
    and remove :: "string \<Rightarrow> 's \<Rightarrow> bool \<times> 's"
    and ok :: "'s \<Rightarrow> bool"
  assumes remove_ok: "ok s \<Longrightarrow> ok (snd (remove k s))"
    and look_remove: "ok s \<Longrightarrow> look (snd (remove k s)) = (look s)(k := None)"
    and remove_result: "ok s \<Longrightarrow> fst (remove k s) \<longleftrightarrow> look s k \<noteq> None"
begin

primrec remove_all :: "string list \<Rightarrow> 's \<Rightarrow> nat \<times> 's" where
  "remove_all [] s = (0, s)"
| "remove_all (k # ks) s =
     (case remove k s of (hit, s') \<Rightarrow>
        (case remove_all ks s' of (n, s'') \<Rightarrow> ((if hit then Suc n else n), s'')))"

lemma remove_all_state:
  "ok s \<Longrightarrow> ok (snd (remove_all ks s)) \<and> look (snd (remove_all ks s)) = look s |` (- set ks)"
proof (induction ks arbitrary: s)
  case (Cons k ks)
  have "ok (snd (remove k s))"
    by (rule remove_ok [OF Cons.prems])
  from Cons.IH [OF this] look_remove [OF Cons.prems, of k] show ?case
    by (auto simp: case_prod_unfold restrict_map_def fun_eq_iff)
qed (simp add: restrict_map_def)

lemma remove_all_count:
  "ok s \<Longrightarrow> fst (remove_all ks s) = card {k \<in> set ks. look s k \<noteq> None}"
proof (induction ks arbitrary: s)
  case (Cons k ks)
  let ?s = "snd (remove k s)"
  have "{x \<in> set (k # ks). look s x \<noteq> None} =
    (if look s k \<noteq> None then insert k {x \<in> set ks. look ?s x \<noteq> None} else {x \<in> set ks. look ?s x \<noteq> None})"
    using look_remove [OF Cons.prems, of k] by auto
  moreover have "k \<notin> {x \<in> set ks. look ?s x \<noteq> None}"
    using look_remove [OF Cons.prems, of k] by simp
  ultimately show ?case
    using Cons.IH [OF remove_ok [OF Cons.prems]] remove_result [OF Cons.prems, of k]
    by (simp add: case_prod_unfold)
qed simp

end

interpretation raw_keys: keyspace "\<lambda>s k. find_entry e k s" "del e" "storage_ok e" for e
proof unfold_locales
  fix s k
  assume ok: "storage_ok e s"
  show "storage_ok e (snd (del e k s))"
    by (rule del_ok [OF ok])
  show "(\<lambda>x. find_entry e x (snd (del e k s))) = (\<lambda>x. find_entry e x s)(k := None)"
    using ok by (auto simp: del_def Let_def)
  show "fst (del e k s) \<longleftrightarrow> find_entry e k s \<noteq> None"
    by (rule del_views(3) [OF storage_ok_sized [OF ok]])
qed

section \<open>A concrete setting\<close>

definition demo_env :: env where
  "demo_env = \<lparr>env_now = 1000, env_hash = length, env_rnd = (\<lambda>_ _. 0)\<rparr>"

definition positive_deadlines :: "expire_dict \<Rightarrow> bool" where
  "positive_deadlines d = list_all (\<lambda>(k, t). 0 < t) d"

definition two_entries :: storage where
  "two_entries = (let entry = (\<lambda>t. \<lparr>val = CacheObject_string ''v'', last_access = t\<rparr>) in
     \<lparr>stores = (replicate 64 [])[1 := [(''a'', entry 5), (''b'', entry 3)]], expires = [], dirty_counter = 0, max_entries = 2\<rparr>)"

lemma demo_facts [simp]:
  "no_evict GlobalStorage" "storage_ok demo_env GlobalStorage" "env_now demo_env = 1000"
  "live demo_env GlobalStorage k = None" "live_ttl demo_env GlobalStorage k = None"
proof -
  show "no_evict GlobalStorage"
    by (simp add: no_evict_def storage_size_def GlobalStorage_def scaled_def round53_def bit_length.simps
        kEvictThreshold_def kMaxEntries_def Let_def sum_list_replicate)
  show "live demo_env GlobalStorage k = None"
    by (simp add: live_def find_entry_def shard_of_def GlobalStorage_def)
  then show "live_ttl demo_env GlobalStorage k = None"
    by simp
qed (simp_all add: new_ok demo_env_def)

section \<open>Helper facts\<close>

lemma entries_iff:
  assumes "storage_ok e s"
  shows "(\<exists>sh \<in> set (stores s). (k, en) \<in> set sh) \<longleftrightarrow> find_entry e k s = Some en"
proof -
  have sz: "length (stores s) = kDefaultShards"
    using assms by (simp add: storage_ok_def sized_def)
  have d: "distinct (map fst (stores s ! get_shard_index e k))"
    using assms by (simp add: storage_ok_def)
  have "(k, en) \<in> set (stores s ! get_shard_index e k)" if "sh \<in> set (stores s)" "(k, en) \<in> set sh" for sh
  proof -
    note sh = that
    obtain i where "i < kDefaultShards" "sh = stores s ! i"
      using sh(1) sz in_set_conv_nth [of sh "stores s"] by auto
    with storage_ok_entry [OF assms, of i k en] sh(2) show ?thesis
      by simp
  qed
  moreover have "stores s ! get_shard_index e k \<in> set (stores s)"
    using sz by simp
  ultimately have "(\<exists>sh \<in> set (stores s). (k, en) \<in> set sh) \<longleftrightarrow> (k, en) \<in> set (stores s ! get_shard_index e k)"
    by blast
  also have "\<dots> \<longleftrightarrow> find_entry e k s = Some en"
    using d by (simp add: find_entry_def shard_of_def)
  finally show ?thesis .
qed

lemma distinct_concat_keys:
  assumes "\<And>i. i < length xss \<Longrightarrow> distinct (map fst (xss ! i))"
    "\<And>i x. i < length xss \<Longrightarrow> x \<in> set (xss ! i) \<Longrightarrow> f (fst x) = i"
  shows "distinct (map fst (concat xss))"
  using assms
proof (induction xss rule: rev_induct)
  case (snoc xs xss)
  have old: "f (fst x) = i" if "i < length xss" "x \<in> set (xss ! i)" for i x
    using snoc.prems(2) [of i x] that by (simp add: nth_append)
  have "distinct (map fst (xss ! i))" if "i < length xss" for i
    using snoc.prems(1) [of i] that by (simp add: nth_append)
  from snoc.IH [OF this old] have "distinct (map fst (concat xss))"
    by simp
  moreover have "distinct (map fst xs)"
    using snoc.prems(1) [of "length xss"] by simp
  moreover have "k \<notin> fst ` set xs" if "k \<in> fst ` set (concat xss)" for k
  proof
    assume "k \<in> fst ` set xs"
    then have "f k = length xss"
      using snoc.prems(2) [of "length xss"] by auto
    moreover have "f k < length xss"
      using that old by (auto simp: in_set_conv_nth [of _ xss])
    ultimately show False
      by simp
  qed
  ultimately show ?case
    by (auto simp: map_concat)
qed simp

lemma evict_attempts_choice:
  assumes "evict_attempts e c n s = (v, s')" "v \<noteq> []"
  shows "\<exists>i < kDefaultShards. \<exists>en. (v, en) \<in> set (stores s ! i) \<and>
    (expired_at (env_now e) (expires s) v \<or>
     (\<forall>y \<in> set (stores s ! i). \<not> expired_at (env_now e) (expires s) (fst y) \<and> last_access en \<le> last_access (snd y)))"
  using assms
proof (induction n)
  case (Suc n)
  let ?i = "env_rnd e c n mod kDefaultShards"
  let ?sh = "stores s ! ?i"
  have i: "?i < kDefaultShards"
    by (simp add: kDefaultShards_def)
  show ?case
  proof (cases "?sh = [] \<or> pick_victim (env_now e) (expires s) None int64_max ?sh = None")
    case True
    then have "evict_attempts e c (Suc n) s = evict_attempts e c n s"
      by (auto simp: Let_def)
    with Suc show ?thesis
      by metis
  next
    case False
    with Suc.prems have pv: "pick_victim (env_now e) (expires s) None int64_max ?sh = Some v"
      by (auto simp: Let_def)
    show ?thesis
    proof (cases "\<exists>x \<in> set ?sh. expired_at (env_now e) (expires s) (fst x)")
      case True
      then obtain x where "x \<in> set ?sh" "expired_at (env_now e) (expires s) (fst x)"
        by blast
      from pick_victim_expired [OF this, of None int64_max] pv i show ?thesis
        by (metis option.inject prod.collapse)
    next
      case False
      with pick_victim_lru [of ?sh "env_now e" "expires s" int64_max None] pv i show ?thesis
        by (metis option.distinct(1) option.inject prod.collapse)
    qed
  qed
qed simp

lemma dirty_after_writes: "dirty_counter ((increment_dirty ^^ n) s) = dirty_counter s + of_nat n"
  by (induction n) (simp_all add: increment_dirty_def)

lemma reachable_ok: "reachable (env_hash e) s \<Longrightarrow> storage_ok e s"
  using reachable_some [of "env_hash e" s] storage_ok_some [of e "env_hash e" s] by simp

lemma snapshot_keys:
  assumes "storage_ok e s"
  shows "distinct (map kv_key (get_all_objects_with_ttl e s))"
proof -
  let ?P = "\<lambda>(k, en). \<not> (get_expire_time k (expires s) > 0 \<and> env_now e \<ge> get_expire_time k (expires s))"
  have "map kv_key (get_all_objects_with_ttl e s) = map fst (concat (map (filter ?P) (stores s)))"
    by (simp add: get_all_objects_with_ttl_def map_concat comp_def case_prod_unfold)
  moreover have "distinct (map fst (concat (map (filter ?P) (stores s))))"
  proof (rule distinct_concat_keys [where f = "get_shard_index e"])
    fix i
    assume "i < length (map (filter ?P) (stores s))"
    then have i: "i < length (stores s)" "i < kDefaultShards"
      using assms by (simp_all add: storage_ok_def sized_def)
    show "distinct (map fst (map (filter ?P) (stores s) ! i))"
      using assms i by (simp add: storage_ok_def distinct_map_filter)
    show "get_shard_index e (fst x) = i" if "x \<in> set (map (filter ?P) (stores s) ! i)" for x
      using storage_ok_entry [OF assms i(2), of "fst x" "snd x"] that i(1) by simp
  qed
  ultimately show ?thesis
    by simp
qed

lemma snapshot_members:
  assumes "storage_ok e s" "positive_deadlines (expires s)"
  shows "kv \<in> set (get_all_objects_with_ttl e s) \<longleftrightarrow>
    live e s (kv_key kv) = Some (kv_value kv) \<and>
    kv_expire kv = (case live_ttl e s (kv_key kv) of None \<Rightarrow> -1 | Some t \<Rightarrow> t)"
proof -
  obtain k v t where kv: "kv = \<lparr>kv_key = k, kv_value = v, kv_expire = t\<rparr>"
    by (cases kv) auto
  have exp: "(get_expire_time k (expires s) > 0 \<and> env_now e \<ge> get_expire_time k (expires s)) = is_expired (env_now e) k (expires s)"
    using assms(2) by (auto simp: get_expire_time_def is_expired_def positive_deadlines_def list_all_iff
        dest: map_of_SomeD split: option.splits)
  have "kv \<in> set (get_all_objects_with_ttl e s) \<longleftrightarrow>
    (\<exists>en. (\<exists>sh \<in> set (stores s). (k, en) \<in> set sh) \<and> \<not> is_expired (env_now e) k (expires s) \<and> v = val en \<and>
       t = get_expire_time k (expires s))"
    using exp by (auto simp: kv get_all_objects_with_ttl_def image_iff)
  also have "\<dots> \<longleftrightarrow> live e s k = Some v \<and> t = get_expire_time k (expires s)"
    unfolding entries_iff [OF assms(1)] by (auto simp: live_def)
  finally show ?thesis
    by (auto simp: kv live_ttl_def get_expire_time_def)
qed

section \<open>Properties\<close>





text \<open>C13: a write survives the eviction it may trigger: after SET the key holds the value without
  expiry, and every other key either is untouched or has been evicted.\<close>

theorem set_survives_eviction:
  assumes "storage_ok e s"
  shows "live e (storage_set e k v s) k = Some v \<and> live_ttl e (storage_set e k v s) k = None \<and>
         (k' \<noteq> k \<longrightarrow> live e (storage_set e k v s) k' = live e s k' \<or> live e (storage_set e k v s) k' = None)"
proof -
  let ?s = "evict_if_needed e s"
  have ev: "sized ?s" "live e ?s \<subseteq>\<^sub>m live e s"
    using evict_if_needed_facts [OF assms] by (auto intro: shrinks_live)
  have "live e (storage_set e k v s) x = (if x = k then Some v else live e ?s x)" for x
    using ev(1) by (auto simp: storage_set_def storage_views is_expired_def Let_def)
  moreover have "live_ttl e (storage_set e k v s) k = None"
    using ev(1) by (simp add: storage_set_def live_ttl_def Let_def)
  moreover have "live e ?s k' = live e s k' \<or> live e ?s k' = None"
    using ev(2) by (auto simp: map_le_def)
  ultimately show ?thesis
    by simp
qed

theorem set_survives_eviction_witness:
  "live demo_env (storage_set demo_env ''k'' (CacheObject_string ''v'') GlobalStorage) ''k'' = Some (CacheObject_string ''v'')"
  using set_survives_eviction [of demo_env GlobalStorage "''k''" "CacheObject_string ''v''" "''k''"] by simp









text \<open>The entry evicted from a shard is one past its deadline whenever the shard has one, and
  otherwise one that was accessed no later than any other entry of the shard.\<close>

theorem victim_expired_or_lru:
  assumes "evict_one e call s = (v, s')" "v \<noteq> []"
  shows "\<exists>i < kDefaultShards. \<exists>en. (v, en) \<in> set (stores s ! i) \<and>
    (expired_at (env_now e) (expires s) v \<or>
     (\<forall>y \<in> set (stores s ! i). \<not> expired_at (env_now e) (expires s) (fst y) \<and> last_access en \<le> last_access (snd y)))"
  using assms evict_attempts_choice unfolding evict_one_def by blast

theorem victim_expired_or_lru_witness:
  "fst (evict_one (demo_env\<lparr>env_rnd := (\<lambda>c n. n)\<rparr>) 0 two_entries) = ''b'' \<and>
   (\<exists>i < kDefaultShards. \<exists>en. (''b'', en) \<in> set (stores two_entries ! i))"
proof -
  let ?e = "demo_env\<lparr>env_rnd := (\<lambda>c n. n)\<rparr>"
  have fst: "fst (evict_one ?e 0 two_entries) = ''b''"
    by code_simp
  then have "evict_one ?e 0 two_entries = (''b'', snd (evict_one ?e 0 two_entries))"
    by (simp add: prod_eq_iff)
  from victim_expired_or_lru [OF this] fst show ?thesis
    by blast
qed

text \<open>Consuming the dirty count of a finished snapshot keeps exactly the writes made after the
  snapshot was taken.\<close>

theorem consume_keeps_later_writes:
  assumes "unat (get_dirty_count s) + n < 2 ^ 64"
  shows "get_dirty_count (consume_dirty_count (get_dirty_count s) ((increment_dirty ^^ n) s)) = of_nat n"
proof (cases n)
  case (Suc m)
  have "unat (of_nat n :: 64 word) = n"
    using assms by (simp add: unat_of_nat)
  then have "get_dirty_count s < get_dirty_count s + of_nat n"
    using assms Suc by (simp add: word_less_nat_alt unat_add_lem [THEN iffD1])
  then show ?thesis
    by (simp add: consume_dirty_count_def get_dirty_count_def dirty_after_writes)
qed (simp add: consume_dirty_count_def get_dirty_count_def)



text \<open>C14: a snapshot lists every live key exactly once, with its value and its deadline (-1 when it
  has none), and nothing else.\<close>

theorem snapshot_exact:
  assumes "storage_ok e s" "positive_deadlines (expires s)"
  shows "distinct (map kv_key (get_all_objects_with_ttl e s)) \<and>
         (kv \<in> set (get_all_objects_with_ttl e s) \<longleftrightarrow>
            live e s (kv_key kv) = Some (kv_value kv) \<and>
            kv_expire kv = (case live_ttl e s (kv_key kv) of None \<Rightarrow> -1 | Some t \<Rightarrow> t))"
  using snapshot_keys [OF assms(1)] snapshot_members [OF assms, of kv] by blast

theorem snapshot_exact_witness:
  "get_all_objects_with_ttl demo_env GlobalStorage = [] \<and>
   (\<lparr>kv_key = ''k'', kv_value = CacheObject, kv_expire = -1\<rparr> \<notin> set (get_all_objects_with_ttl demo_env GlobalStorage))"
  using snapshot_exact [of demo_env GlobalStorage "\<lparr>kv_key = ''k'', kv_value = CacheObject, kv_expire = -1\<rparr>"]
  by (simp add: get_all_objects_with_ttl_def GlobalStorage_def positive_deadlines_def)

text \<open>The size is compared with the target only after every 64th eviction, so a cache configured
  with a small limit is emptied instead of being brought down to 60 percent of the limit.\<close>

lemma small_cache_emptied:
  "storage_size two_entries = 2 \<and> scaled kEvictTargetRatio (max_entries two_entries) = 1 \<and>
   storage_size (evict_if_needed (demo_env\<lparr>env_rnd := (\<lambda>c n. n)\<rparr>) two_entries) = 0"
proof -
  have sz: "storage_size two_entries = 2"
    by code_simp
  have m: "max_entries two_entries = 2"
    by (simp add: two_entries_def)
  have "scaled kEvictThreshold 2 = 1" "scaled kEvictTargetRatio 2 = 1"
    by (simp_all add: scaled_def round53_def bit_length.simps kEvictThreshold_def kEvictTargetRatio_def Let_def)
  moreover have "storage_size (evict_loop (demo_env\<lparr>env_rnd := (\<lambda>c n. n)\<rparr>) 1 kMaxEvictPerCycle two_entries) = 0"
    by code_simp
  ultimately show ?thesis
    by (simp add: sz m evict_if_needed_def)
qed

end
