(* ===== verification/CC_Commands.thy ===== *)
theory CC_Commands
  imports CC_Keyspace CC_Object_Codec CC_Resp
begin

text \<open>
  The commands on the key space: \<^verbatim>\<open>src/src/command/string_cmd.h\<close>, \<^verbatim>\<open>expire_cmd.h\<close> and
  \<^verbatim>\<open>restore_cmd.cpp\<close>.  A command maps the argument vector (with the command name first) and the
  store to its reply and the new store.  The clock, the hash and the random draws come from \<open>env\<close>,
  the floating-point text conversions from \<open>fp_lib\<close>.  Log output is left out.
\<close>

section \<open>Replies\<close>

definition wrong_args :: "string \<Rightarrow> string" where
  "wrong_args name = encode_error (''ERR wrong number of arguments for '' @ [CHR 0x27] @ name @ [CHR 0x27] @ '' command'')"

definition wrongtype :: string where
  "wrongtype = encode_error ''WRONGTYPE Operation against a key holding the wrong kind of value''"

definition syntax_error :: string where
  "syntax_error = encode_error ''ERR syntax error''"

definition not_integer :: string where
  "not_integer = encode_error ''ERR value is not an integer or out of range''"

text \<open>The shape shared by the commands that read one key of one type.\<close>

definition read_typed ::
  "env \<Rightarrow> object_type \<Rightarrow> string \<Rightarrow> string \<Rightarrow> (cache_object \<Rightarrow> string) \<Rightarrow> storage \<Rightarrow> string \<times> storage" where
  "read_typed e ty key absent f s =
     (case storage_get e key s of (None, s) \<Rightarrow> (absent, s)
      | (Some ob, s) \<Rightarrow> if otype ob \<noteq> ty then (wrongtype, s) else (f ob, s))"

text \<open>The reply after \<^verbatim>\<open>mutate\<close>: WRONGTYPE when it returned false.\<close>

definition reply_mutate :: "('r \<Rightarrow> string) \<Rightarrow> 'r option \<times> storage \<Rightarrow> string \<times> storage" where
  "reply_mutate f res = ((case fst res of None \<Rightarrow> wrongtype | Some r \<Rightarrow> f r), snd res)"

section \<open>Strings and counters\<close>

definition PingCommand :: "string list \<Rightarrow> string" where
  "PingCommand args =
     (if length args = 1 then encode_simple_string ''PONG'' else encode_bulk_string (args ! 1))"

definition GetCommand :: "env \<Rightarrow> string list \<Rightarrow> storage \<Rightarrow> string \<times> storage" where
  "GetCommand e args s =
     (case args of [_, key] \<Rightarrow>
        (case storage_get e key s of (None, s) \<Rightarrow> (encode_nil, s)
         | (Some ob, s) \<Rightarrow>
           (case get_string ob of None \<Rightarrow> (wrongtype, s) | Some str \<Rightarrow> (encode_bulk_string str, s)))
      | _ \<Rightarrow> (wrong_args ''get'', s))"

datatype exp_mode = MNone | MEx | MPx | MExat | MPxat

record set_opts =
  mode :: exp_mode
  raw :: int
  nx :: bool
  xx :: bool
  want_get :: bool
  keep_ttl :: bool

definition no_opts :: set_opts where
  "no_opts = \<lparr>mode = MNone, raw = 0, nx = False, xx = False, want_get = False, keep_ttl = False\<rparr>"

definition parse_ll :: "string \<Rightarrow> int option" where
  "parse_ll str = (case from_chars_ll str of None \<Rightarrow> None | Some (v, rest) \<Rightarrow> if rest = [] then Some v else None)"

definition exp_mode_of :: "string \<Rightarrow> exp_mode" where
  "exp_mode_of opt = (if opt = ''EX'' then MEx else if opt = ''PX'' then MPx else if opt = ''EXAT'' then MExat else MPxat)"

text \<open>The option loop of SET; \<^term>\<open>Inl\<close> is the reply that ends the command.\<close>

function set_options :: "string list \<Rightarrow> set_opts \<Rightarrow> string + set_opts" where
  "set_options [] opts = Inr opts"
| "set_options (arg # rest) opts =
     (let opt = map to_upper arg in
      if opt = ''EX'' \<or> opt = ''PX'' \<or> opt = ''EXAT'' \<or> opt = ''PXAT'' then
        (if mode opts \<noteq> MNone \<or> keep_ttl opts then Inl syntax_error
         else if rest = [] then Inl syntax_error
         else case parse_ll (hd rest) of None \<Rightarrow> Inl not_integer
              | Some v \<Rightarrow> set_options (tl rest) (opts\<lparr>mode := exp_mode_of opt, raw := v\<rparr>))
      else if opt = ''NX'' then
        (if xx opts \<or> nx opts then Inl syntax_error else set_options rest (opts\<lparr>nx := True\<rparr>))
      else if opt = ''XX'' then
        (if xx opts \<or> nx opts then Inl syntax_error else set_options rest (opts\<lparr>xx := True\<rparr>))
      else if opt = ''GET'' then set_options rest (opts\<lparr>want_get := True\<rparr>)
      else if opt = ''KEEPTTL'' then
        (if mode opts \<noteq> MNone \<or> keep_ttl opts then Inl syntax_error else set_options rest (opts\<lparr>keep_ttl := True\<rparr>))
      else Inl syntax_error)"
  by pat_completeness auto
termination
  by (relation "measure (\<lambda>(args, opts). length args)") auto

text \<open>The expiry of SET: whether the deadline has already passed, and the relative time to live.\<close>

definition set_expiry :: "int \<Rightarrow> set_opts \<Rightarrow> string + (bool \<times> int)" where
  "set_expiry now opts =
     (let invalid = Inl (encode_error (''ERR invalid expire time in '' @ [CHR 0x27] @ ''set'' @ [CHR 0x27] @ '' command'')) in
      if mode opts = MEx \<or> mode opts = MPx then
        (if raw opts \<le> 0 then invalid
         else if mode opts = MEx \<and> raw opts > int64_max div 1000 then invalid
         else Inr (False, if mode opts = MEx then mul64 (raw opts) 1000 else raw opts))
      else if mode opts = MExat \<or> mode opts = MPxat then
        (if raw opts < 0 then invalid
         else let abs_ms = (if mode opts = MExat
                            then (if raw opts > int64_max div 1000 then int64_max else mul64 (raw opts) 1000)
                            else raw opts) in
              if abs_ms \<le> now then Inr (True, 0) else Inr (False, sub64 abs_ms now))
      else Inr (False, 0))"

definition is_non_string :: "env \<Rightarrow> string \<Rightarrow> storage \<Rightarrow> bool \<times> storage" where
  "is_non_string e key s =
     (case storage_get e key s of (cur, s) \<Rightarrow>
        ((case cur of None \<Rightarrow> False | Some ob \<Rightarrow> get_string ob = None), s))"

definition string_or_empty :: "cache_object \<Rightarrow> string" where
  "string_or_empty ob = (case get_string ob of None \<Rightarrow> [] | Some str \<Rightarrow> str)"

text \<open>SET with an absolute deadline in the past deletes the key.\<close>

definition set_expired :: "env \<Rightarrow> string \<Rightarrow> set_opts \<Rightarrow> storage \<Rightarrow> string \<times> storage" where
  "set_expired e key opts s =
     (case storage_get e key s of (cur, s) \<Rightarrow>
        if nx opts \<and> cur \<noteq> None \<or> xx opts \<and> cur = None then (encode_nil, s)
        else let s = snd (del e key s) in
             (if want_get opts
              then (case cur of None \<Rightarrow> encode_nil | Some ob \<Rightarrow> encode_bulk_string (string_or_empty ob))
              else encode_ok, s))"

definition set_store :: "env \<Rightarrow> string \<Rightarrow> string \<Rightarrow> set_opts \<Rightarrow> int \<Rightarrow> storage \<Rightarrow> string \<times> storage" where
  "set_store e key value opts ttl_ms s =
     (let condition = (if nx opts then KOnlyIfAbsent else if xx opts then KOnlyIfExists else KNone) in
      case set_conditional e key (CacheObject_string value) condition
             (if keep_ttl opts then 0 else ttl_ms) (keep_ttl opts) s of
        ((applied, previous), s) \<Rightarrow>
          (if want_get opts
           then (if \<not> applied then encode_nil
                 else case previous of None \<Rightarrow> encode_nil | Some ob \<Rightarrow> encode_bulk_string (string_or_empty ob))
           else if applied then encode_ok else encode_nil, s))"

definition SetCommand :: "env \<Rightarrow> string list \<Rightarrow> storage \<Rightarrow> string \<times> storage" where
  "SetCommand e args s =
     (case args of _ # key # value # rest \<Rightarrow>
        (case set_options rest no_opts of Inl err \<Rightarrow> (err, s)
         | Inr opts \<Rightarrow>
           if nx opts \<and> want_get opts then (syntax_error, s)
           else case set_expiry (env_now e) opts of Inl err \<Rightarrow> (err, s)
                | Inr (already_expired, ttl_ms) \<Rightarrow>
                  (case (if want_get opts then is_non_string e key s else (False, s)) of (wrong_type, s) \<Rightarrow>
                     if wrong_type then (wrongtype, s)
                     else if already_expired then set_expired e key opts s
                     else set_store e key value opts ttl_ms s))
      | _ \<Rightarrow> (wrong_args ''set'', s))"

definition apply_incrby :: "env \<Rightarrow> string \<Rightarrow> int \<Rightarrow> storage \<Rightarrow> string \<times> storage" where
  "apply_incrby e key delta s =
     (case incrby e key delta s of (Some v, s) \<Rightarrow> (encode_integer v, s)
      | (None, s) \<Rightarrow>
        (case storage_get e key s of (opt, s) \<Rightarrow>
           (case opt of None \<Rightarrow> wrongtype
            | Some ob \<Rightarrow>
              (case get_string ob of None \<Rightarrow> wrongtype
               | Some str \<Rightarrow>
                 (case parse_ll_strict str of None \<Rightarrow> encode_error ''ERR value is not an integer''
                  | Some prev \<Rightarrow> encode_error ''ERR increment or decrement would overflow'')), s)))"

definition IncrCommand :: "env \<Rightarrow> string list \<Rightarrow> storage \<Rightarrow> string \<times> storage" where
  "IncrCommand e args s = (case args of [_, key] \<Rightarrow> apply_incrby e key 1 s | _ \<Rightarrow> (wrong_args ''incr'', s))"

definition DecrCommand :: "env \<Rightarrow> string list \<Rightarrow> storage \<Rightarrow> string \<times> storage" where
  "DecrCommand e args s = (case args of [_, key] \<Rightarrow> apply_incrby e key (-1) s | _ \<Rightarrow> (wrong_args ''decr'', s))"

definition IncrbyCommand :: "env \<Rightarrow> string list \<Rightarrow> storage \<Rightarrow> string \<times> storage" where
  "IncrbyCommand e args s =
     (case args of [_, key, amount] \<Rightarrow>
        (case parse_ll_strict amount of None \<Rightarrow> (not_integer, s) | Some delta \<Rightarrow> apply_incrby e key delta s)
      | _ \<Rightarrow> (wrong_args ''incrby'', s))"

definition DecrbyCommand :: "env \<Rightarrow> string list \<Rightarrow> storage \<Rightarrow> string \<times> storage" where
  "DecrbyCommand e args s =
     (case args of [_, key, amount] \<Rightarrow>
        (case parse_ll_strict amount of None \<Rightarrow> (not_integer, s)
         | Some delta \<Rightarrow>
           if delta = int64_min then (not_integer, s) else apply_incrby e key (sub64 0 delta) s)
      | _ \<Rightarrow> (wrong_args ''decrby'', s))"

text \<open>The loop of DEL over its keys.\<close>

primrec del_keys :: "env \<Rightarrow> string list \<Rightarrow> nat \<Rightarrow> storage \<Rightarrow> nat \<times> storage" where
  "del_keys e [] deleted s = (deleted, s)"
| "del_keys e (key # keys) deleted s =
     (case del e key s of (hit, s) \<Rightarrow> del_keys e keys (if hit then deleted + 1 else deleted) s)"

definition DelCommand :: "env \<Rightarrow> string list \<Rightarrow> storage \<Rightarrow> string \<times> storage" where
  "DelCommand e args s =
     (case args of _ # key # keys \<Rightarrow>
        (case del_keys e (key # keys) 0 s of (deleted, s) \<Rightarrow> (encode_integer (int deleted), s))
      | _ \<Rightarrow> (wrong_args ''del'', s))"

definition ExistsCommand :: "env \<Rightarrow> string list \<Rightarrow> storage \<Rightarrow> string" where
  "ExistsCommand e args s =
     (case args of [_, key] \<Rightarrow> encode_integer (if exist e key s then 1 else 0) | _ \<Rightarrow> wrong_args ''exists'')"

section \<open>Lists\<close>

definition push_all :: "bool \<Rightarrow> string list \<Rightarrow> cache_object \<Rightarrow> cache_object" where
  "push_all front vals ob = foldl (\<lambda>ob v. snd (list_push v front ob)) ob vals"

definition push_fn :: "bool \<Rightarrow> string list \<Rightarrow> cache_object \<Rightarrow> store_op \<times> cache_object \<times> nat" where
  "push_fn front vals ob = (let ob = push_all front vals ob in (KWrite, ob, list_size ob))"

definition LpushCommand :: "env \<Rightarrow> string list \<Rightarrow> storage \<Rightarrow> string \<times> storage" where
  "LpushCommand e args s =
     (case args of _ # key # v # vs \<Rightarrow>
        reply_mutate (\<lambda>new_len. encode_integer (int new_len)) (mutate e key LIST (push_fn True (v # vs)) KAllow s)
      | _ \<Rightarrow> (wrong_args ''lpush'', s))"

definition RpushCommand :: "env \<Rightarrow> string list \<Rightarrow> storage \<Rightarrow> string \<times> storage" where
  "RpushCommand e args s =
     (case args of _ # key # v # vs \<Rightarrow>
        reply_mutate (\<lambda>new_len. encode_integer (int new_len)) (mutate e key LIST (push_fn False (v # vs)) KAllow s)
      | _ \<Rightarrow> (wrong_args ''rpush'', s))"

definition pop_fn :: "bool \<Rightarrow> cache_object \<Rightarrow> store_op \<times> cache_object \<times> string option" where
  "pop_fn front ob =
     (case list_pop front ob of (None, ob) \<Rightarrow> (KNoop, ob, None)
      | (Some v, ob) \<Rightarrow> (if list_size ob = 0 then KErase else KWrite, ob, Some v))"

definition bulk_or_nil :: "string option \<Rightarrow> string" where
  "bulk_or_nil popped = (case popped of None \<Rightarrow> encode_nil | Some v \<Rightarrow> encode_bulk_string v)"

definition LpopCommand :: "env \<Rightarrow> string list \<Rightarrow> storage \<Rightarrow> string \<times> storage" where
  "LpopCommand e args s =
     (case args of [_, key] \<Rightarrow> reply_mutate bulk_or_nil (mutate e key LIST (pop_fn True) KReject s)
      | _ \<Rightarrow> (wrong_args ''lpop'', s))"

definition RpopCommand :: "env \<Rightarrow> string list \<Rightarrow> storage \<Rightarrow> string \<times> storage" where
  "RpopCommand e args s =
     (case args of [_, key] \<Rightarrow> reply_mutate bulk_or_nil (mutate e key LIST (pop_fn False) KReject s)
      | _ \<Rightarrow> (wrong_args ''rpop'', s))"

definition LlenCommand :: "env \<Rightarrow> string list \<Rightarrow> storage \<Rightarrow> string \<times> storage" where
  "LlenCommand e args s =
     (case args of [_, key] \<Rightarrow>
        read_typed e LIST key (encode_integer 0) (\<lambda>ob. encode_integer (int (list_size ob))) s
      | _ \<Rightarrow> (wrong_args ''llen'', s))"

definition LrangeCommand :: "env \<Rightarrow> string list \<Rightarrow> storage \<Rightarrow> string \<times> storage" where
  "LrangeCommand e args s =
     (case args of [_, key, a, b] \<Rightarrow>
        (case parse_ll_strict a of None \<Rightarrow> (not_integer, s)
         | Some start \<Rightarrow>
           (case parse_ll_strict b of None \<Rightarrow> (not_integer, s)
            | Some stop \<Rightarrow>
              read_typed e LIST key (encode_array []) (\<lambda>ob. encode_array (list_range start stop ob)) s))
      | _ \<Rightarrow> (wrong_args ''lrange'', s))"

section \<open>Hashes\<close>

definition hset_fn :: "string \<Rightarrow> string \<Rightarrow> cache_object \<Rightarrow> store_op \<times> cache_object \<times> int" where
  "hset_fn field value ob =
     (let added = (if hash_exists field ob then 0 else 1) in (KWrite, snd (hash_set field value ob), added))"

definition HsetCommand :: "env \<Rightarrow> string list \<Rightarrow> storage \<Rightarrow> string \<times> storage" where
  "HsetCommand e args s =
     (case args of [_, key, field, value] \<Rightarrow>
        reply_mutate encode_integer (mutate e key HASH (hset_fn field value) KAllow s)
      | _ \<Rightarrow> (wrong_args ''hset'', s))"

definition HgetCommand :: "env \<Rightarrow> string list \<Rightarrow> storage \<Rightarrow> string \<times> storage" where
  "HgetCommand e args s =
     (case args of [_, key, field] \<Rightarrow>
        read_typed e HASH key encode_nil (\<lambda>ob. bulk_or_nil (hash_get field ob)) s
      | _ \<Rightarrow> (wrong_args ''hget'', s))"

text \<open>The counting loops of HDEL, SADD and ZADD: one object operation per element, and the number of
  operations that returned true.\<close>

definition count_ops :: "('x \<Rightarrow> cache_object \<Rightarrow> bool \<times> cache_object) \<Rightarrow> 'x list \<Rightarrow> cache_object \<Rightarrow> nat \<times> cache_object" where
  "count_ops f xs ob =
     foldl (\<lambda>(n, ob) x. case f x ob of (hit, ob) \<Rightarrow> ((if hit then n + 1 else n), ob)) (0, ob) xs"

definition hdel_fn :: "string list \<Rightarrow> cache_object \<Rightarrow> store_op \<times> cache_object \<times> nat" where
  "hdel_fn fs ob =
     (case count_ops hash_del fs ob of (deleted, ob) \<Rightarrow>
        (if deleted = 0 then KNoop else if hash_size ob = 0 then KErase else KWrite, ob, deleted))"

definition HdelCommand :: "env \<Rightarrow> string list \<Rightarrow> storage \<Rightarrow> string \<times> storage" where
  "HdelCommand e args s =
     (case args of _ # key # f # fs \<Rightarrow>
        reply_mutate (\<lambda>deleted. encode_integer (int deleted)) (mutate e key HASH (hdel_fn (f # fs)) KReject s)
      | _ \<Rightarrow> (wrong_args ''hdel'', s))"

definition HlenCommand :: "env \<Rightarrow> string list \<Rightarrow> storage \<Rightarrow> string \<times> storage" where
  "HlenCommand e args s =
     (case args of [_, key] \<Rightarrow>
        read_typed e HASH key (encode_integer 0) (\<lambda>ob. encode_integer (int (hash_size ob))) s
      | _ \<Rightarrow> (wrong_args ''hlen'', s))"

definition HgetallCommand :: "env \<Rightarrow> string list \<Rightarrow> storage \<Rightarrow> string \<times> storage" where
  "HgetallCommand e args s =
     (case args of [_, key] \<Rightarrow>
        read_typed e HASH key (encode_array [])
          (\<lambda>ob. encode_array (concat (map (\<lambda>(field, value). [field, value]) (hash_items ob)))) s
      | _ \<Rightarrow> (wrong_args ''hgetall'', s))"

section \<open>Sets\<close>

definition sadd_fn :: "string list \<Rightarrow> cache_object \<Rightarrow> store_op \<times> cache_object \<times> nat" where
  "sadd_fn ms ob =
     (case count_ops set_add ms ob of (added, ob) \<Rightarrow> (if added = 0 then KNoop else KWrite, ob, added))"

definition SaddCommand :: "env \<Rightarrow> string list \<Rightarrow> storage \<Rightarrow> string \<times> storage" where
  "SaddCommand e args s =
     (case args of _ # key # m # ms \<Rightarrow>
        reply_mutate (\<lambda>added. encode_integer (int added)) (mutate e key SET (sadd_fn (m # ms)) KAllow s)
      | _ \<Rightarrow> (wrong_args ''sadd'', s))"

text \<open>SPOP; the draw of \<^verbatim>\<open>uniform_int_distribution\<close> is the argument \<open>rnd\<close> reduced to the range.\<close>

definition spop_fn :: "nat \<Rightarrow> cache_object \<Rightarrow> store_op \<times> cache_object \<times> string option" where
  "spop_fn rnd ob =
     (let members = set_members ob in
      if members = [] then (KNoop, ob, None)
      else let member = members ! (rnd mod length members); ob = snd (set_remove member ob) in
           (if set_size ob = 0 then KErase else KWrite, ob, Some member))"

definition SpopCommand :: "env \<Rightarrow> string list \<Rightarrow> storage \<Rightarrow> string \<times> storage" where
  "SpopCommand e args s =
     (case args of [_, key] \<Rightarrow>
        reply_mutate bulk_or_nil (mutate e key SET (spop_fn (env_rnd e kMaxEvictPerCycle 0)) KReject s)
      | _ \<Rightarrow> (wrong_args ''spop'', s))"

definition ScardCommand :: "env \<Rightarrow> string list \<Rightarrow> storage \<Rightarrow> string \<times> storage" where
  "ScardCommand e args s =
     (case args of [_, key] \<Rightarrow>
        read_typed e SET key (encode_integer 0) (\<lambda>ob. encode_integer (int (set_size ob))) s
      | _ \<Rightarrow> (wrong_args ''scard'', s))"

definition SismemberCommand :: "env \<Rightarrow> string list \<Rightarrow> storage \<Rightarrow> string \<times> storage" where
  "SismemberCommand e args s =
     (case args of [_, key, m] \<Rightarrow>
        read_typed e SET key (encode_integer 0) (\<lambda>ob. encode_integer (if set_contains m ob then 1 else 0)) s
      | _ \<Rightarrow> (wrong_args ''sismember'', s))"

definition SmembersCommand :: "env \<Rightarrow> string list \<Rightarrow> storage \<Rightarrow> string \<times> storage" where
  "SmembersCommand e args s =
     (case args of [_, key] \<Rightarrow>
        read_typed e SET key (encode_array []) (\<lambda>ob. encode_array (set_members ob)) s
      | _ \<Rightarrow> (wrong_args ''smembers'', s))"

section \<open>Sorted sets\<close>

text \<open>The scores are parsed before the store is touched; \<^term>\<open>Inl\<close> is the error reply.\<close>

fun zadd_entries :: "fp_lib \<Rightarrow> string list \<Rightarrow> string + zmember list" where
  "zadd_entries lib (text # m # rest) =
     (case stod lib text of Inl exn \<Rightarrow> Inl (encode_error ''ERR value is not a valid float'')
      | Inr (score, consumed) \<Rightarrow>
        if consumed \<noteq> length text then Inl (encode_error ''ERR value is not a valid float'')
        else if is_nan score \<or> is_inf score then Inl (encode_error ''ERR value is NaN or Infinity'')
        else case zadd_entries lib rest of Inl err \<Rightarrow> Inl err | Inr es \<Rightarrow> Inr ((m, score) # es))"
| "zadd_entries lib _ = Inr []"

definition zadd_fn :: "zmember list \<Rightarrow> cache_object \<Rightarrow> store_op \<times> cache_object \<times> nat" where
  "zadd_fn es ob =
     (case count_ops (\<lambda>(m, score). zset_add m score) es ob of (added, ob) \<Rightarrow>
        (if added = 0 then KNoop else KWrite, ob, added))"

definition ZaddCommand :: "env \<Rightarrow> fp_lib \<Rightarrow> string list \<Rightarrow> storage \<Rightarrow> string \<times> storage" where
  "ZaddCommand e lib args s =
     (if length args < 4 \<or> (length args - 2) mod 2 \<noteq> 0 then (wrong_args ''zadd'', s)
      else case zadd_entries lib (drop 2 args) of Inl err \<Rightarrow> (err, s)
           | Inr es \<Rightarrow>
             reply_mutate (\<lambda>added. encode_integer (int added)) (mutate e (args ! 1) ZSET (zadd_fn es) KAllow s))"

definition ZscoreCommand :: "env \<Rightarrow> fp_lib \<Rightarrow> string list \<Rightarrow> storage \<Rightarrow> string \<times> storage" where
  "ZscoreCommand e lib args s =
     (case args of [_, key, m] \<Rightarrow>
        read_typed e ZSET key encode_nil (\<lambda>ob. bulk_or_nil (map_option (format_double lib) (zset_score m ob))) s
      | _ \<Rightarrow> (wrong_args ''zscore'', s))"

definition ZcardCommand :: "env \<Rightarrow> string list \<Rightarrow> storage \<Rightarrow> string \<times> storage" where
  "ZcardCommand e args s =
     (case args of [_, key] \<Rightarrow>
        read_typed e ZSET key (encode_integer 0) (\<lambda>ob. encode_integer (int (zset_size ob))) s
      | _ \<Rightarrow> (wrong_args ''zcard'', s))"

definition ZrangeCommand :: "env \<Rightarrow> fp_lib \<Rightarrow> string list \<Rightarrow> storage \<Rightarrow> string \<times> storage" where
  "ZrangeCommand e lib args s =
     (if length args \<noteq> 4 \<and> length args \<noteq> 5 then (wrong_args ''zrange'', s)
      else case parse_ll_strict (args ! 2) of None \<Rightarrow> (not_integer, s)
           | Some start \<Rightarrow>
             (case parse_ll_strict (args ! 3) of None \<Rightarrow> (not_integer, s)
              | Some stop \<Rightarrow>
                let with_scores = (length args = 5 \<and> args ! 4 = ''WITHSCORES'') in
                read_typed e ZSET (args ! 1) (encode_array [])
                  (\<lambda>ob. encode_array (concat (map (\<lambda>(m, score).
                     if with_scores then [m, format_double lib score] else [m]) (zset_range_by_index start stop ob)))) s))"

section \<open>Expiry\<close>

definition ttl_seconds_to_ms :: "int \<Rightarrow> int" where
  "ttl_seconds_to_ms seconds = (if seconds > int64_max div 1000 then int64_max else mul64 seconds 1000)"

definition invalid_key :: string where
  "invalid_key = encode_error ''ERR invalid key''"

definition ExpireCommand :: "env \<Rightarrow> string list \<Rightarrow> storage \<Rightarrow> string \<times> storage" where
  "ExpireCommand e args s =
     (case args of [_, key, seconds_str] \<Rightarrow>
        if key = [] then (invalid_key, s)
        else (case stoll seconds_str of Inl exn \<Rightarrow> (encode_error ''ERR value is not an integer'', s)
              | Inr (seconds, _) \<Rightarrow>
                if seconds \<le> 0 then
                  (if \<not> exist e key s then (encode_integer 0, s) else (encode_integer 1, snd (del e key s)))
                else if \<not> exist e key s then (encode_integer 0, s)
                else (encode_integer 1,
                      increment_dirty (s\<lparr>expires := exp_set (env_now e) key (ttl_seconds_to_ms seconds) (expires s)\<rparr>)))
      | _ \<Rightarrow> (wrong_args ''expire'', s))"

definition TtlCommand :: "env \<Rightarrow> string list \<Rightarrow> storage \<Rightarrow> string" where
  "TtlCommand e args s =
     (case args of [_, key] \<Rightarrow>
        if key = [] then invalid_key
        else if \<not> exist e key s then encode_integer (-2)
        else if \<not> exp_contains key (expires s) then encode_integer (-1)
        else let ttl_ms = get_ttl (env_now e) key (expires s) in
             if ttl_ms \<le> 0 then encode_integer (-2) else encode_integer (ttl_ms div 1000)
      | _ \<Rightarrow> wrong_args ''ttl'')"

definition PTtlCommand :: "env \<Rightarrow> string list \<Rightarrow> storage \<Rightarrow> string" where
  "PTtlCommand e args s =
     (case args of [_, key] \<Rightarrow>
        if key = [] then invalid_key
        else if \<not> exist e key s then encode_integer (-2)
        else if \<not> exp_contains key (expires s) then encode_integer (-1)
        else let ttl_ms = get_ttl (env_now e) key (expires s) in
             if ttl_ms = -2 then encode_integer (-2)
             else if ttl_ms \<le> 0 then encode_integer (-2) else encode_integer ttl_ms
      | _ \<Rightarrow> wrong_args ''pttl'')"

definition PersistCommand :: "env \<Rightarrow> string list \<Rightarrow> storage \<Rightarrow> string \<times> storage" where
  "PersistCommand e args s =
     (case args of [_, key] \<Rightarrow>
        if key = [] then (invalid_key, s)
        else if \<not> exist e key s then (encode_integer 0, s)
        else (case exp_persist key (expires s) of (success, d) \<Rightarrow>
                let s = s\<lparr>expires := d\<rparr> in
                if success then (encode_integer 1, increment_dirty s) else (encode_integer 0, s))
      | _ \<Rightarrow> (wrong_args ''persist'', s))"

definition SetexCommand :: "env \<Rightarrow> string list \<Rightarrow> storage \<Rightarrow> string \<times> storage" where
  "SetexCommand e args s =
     (case args of [_, key, seconds_str, value] \<Rightarrow>
        if key = [] then (invalid_key, s)
        else if seconds_str = [] then (encode_error ''ERR value is not an integer'', s)
        else (case stoll seconds_str of Inl exn \<Rightarrow> (encode_error ''ERR value is not an integer'', s)
              | Inr (seconds, _) \<Rightarrow>
                if seconds \<le> 0 then (encode_error ''ERR invalid expire time'', s)
                else (encode_ok, set_with_expire e key (CacheObject_string value) (ttl_seconds_to_ms seconds) s))
      | _ \<Rightarrow> (wrong_args ''setex'', s))"

section \<open>Restore and server commands\<close>

definition RestoreCommand :: "env \<Rightarrow> fp_lib \<Rightarrow> string list \<Rightarrow> storage \<Rightarrow> string \<times> storage" where
  "RestoreCommand e lib args s =
     (case args of _ # key # ttl_str # serialized # rest \<Rightarrow>
        (case stoll ttl_str of Inl exn \<Rightarrow> (encode_error ''ERR invalid TTL'', s)
         | Inr (ttl_ms, _) \<Rightarrow>
           let replace = (rest \<noteq> [] \<and> hd rest = ''REPLACE'') in
           if \<not> replace \<and> exist e key s then (encode_error ''BUSYKEY Target key name already exists'', s)
           else case deserialize lib serialized CacheObject of
                  Inl err \<Rightarrow> (encode_error ''ERR Invalid or malformed serialized payload'', s)
                | Inr ob \<Rightarrow>
                  (encode_simple_string ''OK'',
                   if ttl_ms > 0 then set_with_expire e key ob ttl_ms s else storage_set e key ob s))
      | _ \<Rightarrow> (wrong_args ''restore'', s))"

definition no_replicas :: string where
  "no_replicas = encode_error ''ERR this server does not accept external replicas; internal replication uses the cluster bus''"

definition PsyncCommand :: "string list \<Rightarrow> string" where
  "PsyncCommand args = no_replicas"

definition SyncCommand :: "string list \<Rightarrow> string" where
  "SyncCommand args = no_replicas"

definition ReplconfCommand :: "string list \<Rightarrow> string" where
  "ReplconfCommand args = no_replicas"

definition DbsizeCommand :: "string list \<Rightarrow> storage \<Rightarrow> string" where
  "DbsizeCommand args s = encode_integer (int (storage_size s))"

definition FlushdbCommand :: "string list \<Rightarrow> storage \<Rightarrow> string \<times> storage" where
  "FlushdbCommand args s = (encode_simple_string ''OK'', clear s)"

definition DebugCommand :: "env \<Rightarrow> string list \<Rightarrow> storage \<Rightarrow> string \<times> storage" where
  "DebugCommand e args s =
     (case args of _ # subcommand # rest \<Rightarrow>
        if subcommand = ''sleep'' then (encode_error ''ERR DEBUG SLEEP is not supported'', s)
        else if subcommand = ''object'' then
          (case rest of [] \<Rightarrow>
             (encode_error (''ERR wrong number of arguments for '' @ [CHR 0x27] @ ''debug object'' @ [CHR 0x27]), s)
           | key # _ \<Rightarrow>
             (case storage_get e key s of (None, s) \<Rightarrow> (encode_error ''ERR no such key'', s)
              | (Some ob, s) \<Rightarrow>
                (encode_bulk_string (''Type: '' @ (case otype ob of STRING \<Rightarrow> ''string'' | LIST \<Rightarrow> ''list''
                   | HASH \<Rightarrow> ''hash'' | SET \<Rightarrow> ''set'' | ZSET \<Rightarrow> ''zset'')), s)))
        else (encode_error ''ERR Unknown DEBUG subcommand'', s)
      | _ \<Rightarrow> (wrong_args ''debug'', s))"

end
