(* ===== verification/CC_Memory.thy ===== *)
theory CC_Memory
  imports CC_Base
begin

text \<open>
  The memory image of an unsigned integer on the little-endian target: what \<^verbatim>\<open>memcpy\<close> and
  \<^verbatim>\<open>fwrite\<close> of an integer copy.  Reading the bytes back gives the integer, at every width.
\<close>

unbundle bit_operations_syntax

text \<open>The bytes of a word in memory, and the word that bytes in memory make up.\<close>

definition mem_bytes :: "nat \<Rightarrow> 'a::len word \<Rightarrow> string" where
  "mem_bytes n w = map (\<lambda>i. char_of (unat (drop_bit (8 * i) w AND 0xFF))) [0..<n]"

primrec mem_word :: "string \<Rightarrow> 'a::len word" where
  "mem_word [] = 0"
| "mem_word (b # bs) = of_nat (byte b) OR push_bit 8 (mem_word bs)"

lemma not_bit_byte: "8 \<le> n \<Longrightarrow> \<not> bit (byte b) n"
proof -
  assume "8 \<le> n"
  then have "(2 :: nat) ^ 8 \<le> 2 ^ n"
    by (intro power_increasing) simp_all
  moreover have "byte b < 2 ^ 8"
    using byte_less [of b] by simp
  ultimately have "byte b < 2 ^ n"
    by linarith
  then show ?thesis
    by (simp add: bit_nat_def)
qed

lemma bit_mem_word:
  "bit (mem_word bs :: 'a::len word) n \<longleftrightarrow> n < LENGTH('a) \<and> n < 8 * length bs \<and> bit (byte (bs ! (n div 8))) (n mod 8)"
proof (induction bs arbitrary: n)
  case (Cons b bs)
  show ?case
  proof (cases "n < 8")
    case True
    then show ?thesis
      by (auto simp: bit_simps)
  next
    case False
    then obtain k where "n = k + 8"
      by (metis add.commute le_Suc_ex not_less)
    moreover have "(k + 8) div 8 = Suc (k div 8)"
      by simp
    ultimately show ?thesis
      using not_bit_byte [of n b] Cons.IH [of k] by (auto simp: bit_simps simp del: div_add_self2)
  qed
qed simp

lemma and_255: "x AND 0xFF = take_bit 8 x" for x :: "'a::len word"
  by (simp add: take_bit_eq_mask mask_eq_exp_minus_1)

lemma byte_mem_bytes:
  fixes w :: "'a::len word"
  assumes "i < n"
  shows "byte (mem_bytes n w ! i) = unat (take_bit 8 (drop_bit (8 * i) w))"
proof -
  have "unat (take_bit 8 (drop_bit (8 * i) w)) < 2 ^ 8"
    by (simp add: unsigned_take_bit_eq del: power_numeral)
  then show ?thesis
    using assms by (simp add: mem_bytes_def and_255)
qed

lemma bit_mem_bytes:
  fixes w :: "'a::len word"
  assumes "i < n" "m < 8"
  shows "bit (byte (mem_bytes n w ! i)) m \<longleftrightarrow> bit w (8 * i + m)"
  using assms by (auto simp: byte_mem_bytes bit_simps dest: bit_imp_le_length)

lemma length_mem_bytes [simp]: "length (mem_bytes n w) = n"
  by (simp add: mem_bytes_def)

lemma mem_word_bytes: "LENGTH('a::len) = 8 * n \<Longrightarrow> mem_word (mem_bytes n w) = (w :: 'a word)"
  by (rule bit_word_eqI) (simp add: bit_mem_word bit_mem_bytes less_mult_imp_div_less mult.commute)

lemma mem_bytes_word:
  assumes "LENGTH('a::len) = 8 * length bs"
  shows "mem_bytes (length bs) (mem_word bs :: 'a word) = bs"
proof (rule nth_equalityI)
  fix i
  assume "i < length (mem_bytes (length bs) (mem_word bs :: 'a word))"
  then have i: "i < length bs"
    by simp
  have "bit (byte (mem_bytes (length bs) (mem_word bs :: 'a word) ! i)) m = bit (byte (bs ! i)) m" for m
  proof (cases "m < 8")
    case True
    then show ?thesis
      using i assms by (auto simp: bit_mem_bytes bit_mem_word)
  qed (simp add: not_bit_byte)
  then have "byte (mem_bytes (length bs) (mem_word bs :: 'a word) ! i) = byte (bs ! i)"
    by (simp add: bit_eq_iff)
  then show "mem_bytes (length bs) (mem_word bs :: 'a word) ! i = bs ! i"
    by simp
qed simp

end
