(* ===== verification/CC_Rdb.thy ===== *)
theory CC_Rdb
  imports CC_Keyspace CC_Object_Codec CC_Memory
begin

text \<open>
  RDB persistence: \<^verbatim>\<open>src/src/persistence/rdb.cpp\<close> and the scheduler of \<^verbatim>\<open>rdb_scheduler.cpp\<close>.
  Files are byte strings and the file system maps paths to contents.  zlib's \<^verbatim>\<open>crc32\<close> is the
  argument \<open>zlib\<close>; the outcomes of the system calls of a save are the record \<open>save_io\<close>.  The
  machine is little-endian; an exception of the reading functions is \<^term>\<open>None\<close>.  A file being
  read is the suffix from the current position on, including the four bytes of the checksum.
\<close>

unbundle bit_operations_syntax

section \<open>Integers and strings\<close>

definition host_to_big32 :: "32 word \<Rightarrow> 32 word" where
  "host_to_big32 v =
     (drop_bit 24 (v AND 0xFF000000)) OR (drop_bit 8 (v AND 0x00FF0000)) OR
     (push_bit 8 (v AND 0x0000FF00)) OR (push_bit 24 (v AND 0x000000FF))"

text \<open>\<^verbatim>\<open>htobe64\<close> reverses the bytes.\<close>

definition host_to_big64 :: "64 word \<Rightarrow> 64 word" where
  "host_to_big64 v = mem_word (rev (mem_bytes 8 v))"

definition write_uint32 :: "32 word \<Rightarrow> string" where
  "write_uint32 v = mem_bytes 4 (host_to_big32 v)"

definition write_uint64 :: "64 word \<Rightarrow> string" where
  "write_uint64 v = mem_bytes 8 (host_to_big64 v)"

definition write_uint8 :: "nat \<Rightarrow> string" where
  "write_uint8 v = [char_of v]"

definition write_string :: "string \<Rightarrow> string" where
  "write_string str = write_uint32 (of_nat (length str)) @ str"

definition read_uint32 :: "string \<Rightarrow> (32 word \<times> string) option" where
  "read_uint32 f = (if length f < 4 then None else Some (host_to_big32 (mem_word (take 4 f)), drop 4 f))"

definition read_uint64 :: "string \<Rightarrow> (64 word \<times> string) option" where
  "read_uint64 f = (if length f < 8 then None else Some (host_to_big64 (mem_word (take 8 f)), drop 8 f))"

definition read_uint8 :: "string \<Rightarrow> (nat \<times> string) option" where
  "read_uint8 f = (case f of [] \<Rightarrow> None | c # r \<Rightarrow> Some (byte c, r))"

text \<open>\<^verbatim>\<open>read_string\<close>: the declared length is compared with what is left of the body before the
  bytes are read; the body ends four bytes before the end of the file.\<close>

definition read_string :: "string \<Rightarrow> (string \<times> string) option" where
  "read_string f =
     (case read_uint32 f of None \<Rightarrow> None
      | Some (len, r) \<Rightarrow>
        if len = 0 then Some ([], r)
        else let remaining = int (length r) - 4 in
             if remaining < 0 \<or> int (unat len) > remaining then None
             else Some (take (unat len) r, drop (unat len) r))"

section \<open>Records\<close>

definition KV_WITH_TTL :: nat where "KV_WITH_TTL = 0xFE"

definition EOF_MARKER :: nat where "EOF_MARKER = 0xFF"

definition rdb_value_type :: "object_type \<Rightarrow> nat" where
  "rdb_value_type t = (case t of STRING \<Rightarrow> 0 | LIST \<Rightarrow> 1 | HASH \<Rightarrow> 2 | SET \<Rightarrow> 3 | ZSET \<Rightarrow> 4)"

definition serialize_string :: "string \<Rightarrow> string" where
  "serialize_string str = write_string str"

definition serialize_list :: "cache_object \<Rightarrow> string" where
  "serialize_list ob =
     (let items = list_range 0 (-1) ob in
      write_uint32 (of_nat (length items)) @ concat (map write_string items))"

definition serialize_hash :: "cache_object \<Rightarrow> string" where
  "serialize_hash ob =
     (let items = hash_items ob in
      write_uint32 (of_nat (length items)) @ concat (map (\<lambda>(k, v). write_string k @ write_string v) items))"

definition serialize_set :: "cache_object \<Rightarrow> string" where
  "serialize_set ob =
     (let members = set_members ob in
      write_uint32 (of_nat (length members)) @ concat (map write_string members))"

definition serialize_zset :: "cache_object \<Rightarrow> string" where
  "serialize_zset ob =
     (let members = zset_all ob in
      write_uint32 (of_nat (length members)) @ concat (map (\<lambda>(m, score). write_string m @ write_uint64 score) members))"

definition write_kv_pair :: "string \<Rightarrow> cache_object \<Rightarrow> int \<Rightarrow> string" where
  "write_kv_pair key ob expire_time_ms =
     (if expire_time_ms > 0 then write_uint8 KV_WITH_TTL @ write_uint64 (of_int expire_time_ms) else []) @
     write_string key @ write_uint8 (rdb_value_type (otype ob)) @
     (case otype ob of
        STRING \<Rightarrow> serialize_string (case get_string ob of None \<Rightarrow> [] | Some str \<Rightarrow> str)
      | LIST \<Rightarrow> serialize_list ob | HASH \<Rightarrow> serialize_hash ob
      | SET \<Rightarrow> serialize_set ob | ZSET \<Rightarrow> serialize_zset ob)"

definition deserialize_string :: "string \<Rightarrow> (cache_object \<times> string) option" where
  "deserialize_string f = (case read_string f of None \<Rightarrow> None | Some (v, r) \<Rightarrow> Some (CacheObject_string v, r))"

primrec deserialize_list :: "nat \<Rightarrow> string \<Rightarrow> cache_object \<Rightarrow> (cache_object \<times> string) option" where
  "deserialize_list 0 f ob = Some (ob, f)"
| "deserialize_list (Suc n) f ob =
     (case read_string f of None \<Rightarrow> None | Some (item, r) \<Rightarrow> deserialize_list n r (snd (list_push item False ob)))"

primrec deserialize_hash :: "nat \<Rightarrow> string \<Rightarrow> cache_object \<Rightarrow> (cache_object \<times> string) option" where
  "deserialize_hash 0 f ob = Some (ob, f)"
| "deserialize_hash (Suc n) f ob =
     (case read_string f of None \<Rightarrow> None
      | Some (field, r) \<Rightarrow>
        (case read_string r of None \<Rightarrow> None
         | Some (v, r) \<Rightarrow> deserialize_hash n r (snd (hash_set field v ob))))"

primrec deserialize_set :: "nat \<Rightarrow> string \<Rightarrow> cache_object \<Rightarrow> (cache_object \<times> string) option" where
  "deserialize_set 0 f ob = Some (ob, f)"
| "deserialize_set (Suc n) f ob =
     (case read_string f of None \<Rightarrow> None | Some (m, r) \<Rightarrow> deserialize_set n r (snd (set_add m ob)))"

primrec deserialize_zset :: "nat \<Rightarrow> string \<Rightarrow> cache_object \<Rightarrow> (cache_object \<times> string) option" where
  "deserialize_zset 0 f ob = Some (ob, f)"
| "deserialize_zset (Suc n) f ob =
     (case read_string f of None \<Rightarrow> None
      | Some (m, r) \<Rightarrow>
        (case read_uint64 r of None \<Rightarrow> None
         | Some (score, r) \<Rightarrow> deserialize_zset n r (snd (zset_add m score ob))))"

text \<open>The element count in front of a container.\<close>

definition counted ::
  "(nat \<Rightarrow> string \<Rightarrow> cache_object \<Rightarrow> (cache_object \<times> string) option) \<Rightarrow> string \<Rightarrow> (cache_object \<times> string) option" where
  "counted load f = (case read_uint32 f of None \<Rightarrow> None | Some (count, r) \<Rightarrow> load (unat count) r CacheObject)"

text \<open>\<^verbatim>\<open>read_kv_pair\<close>: whether the record is to be stored, the key, the value and the deadline.\<close>

definition read_kv_pair :: "string \<Rightarrow> ((bool \<times> string \<times> cache_object \<times> int) \<times> string) option" where
  "read_kv_pair f =
     (case read_uint8 f of None \<Rightarrow> None
      | Some (marker, r) \<Rightarrow>
        (case (if marker = KV_WITH_TTL
               then map_option (\<lambda>(expire, r). (sint expire, r)) (read_uint64 r) else Some (-1, f)) of
           None \<Rightarrow> None
         | Some (expire_time_ms, r) \<Rightarrow>
           (case read_string r of None \<Rightarrow> None
            | Some (key, r) \<Rightarrow>
              (case read_uint8 r of None \<Rightarrow> None
               | Some (type_val, r) \<Rightarrow>
                 (case (if type_val = 0 then deserialize_string r
                        else if type_val = 1 then counted deserialize_list r
                        else if type_val = 2 then counted deserialize_hash r
                        else if type_val = 3 then counted deserialize_set r
                        else if type_val = 4 then counted deserialize_zset r
                        else None) of
                    None \<Rightarrow> None
                  | Some (ob, r) \<Rightarrow> Some ((key \<noteq> [], key, ob, expire_time_ms), r))))))"

section \<open>Saving\<close>

record zlib =
  crc_init :: "32 word"
  crc_update :: "32 word \<Rightarrow> string \<Rightarrow> 32 word"

text \<open>The checksum loop over blocks of 4096 bytes.\<close>

function crc_blocks :: "zlib \<Rightarrow> 32 word \<Rightarrow> string \<Rightarrow> 32 word" where
  "crc_blocks z crc bs = (if bs = [] then crc else crc_blocks z (crc_update z crc (take 4096 bs)) (drop 4096 bs))"
  by pat_completeness auto
termination
  by (relation "measure (\<lambda>(z, crc, bs). length bs)") auto

declare crc_blocks.simps [simp del]

definition calculate_crc32_for_range :: "zlib \<Rightarrow> nat \<Rightarrow> string \<Rightarrow> 32 word" where
  "calculate_crc32_for_range z end_pos f = crc_blocks z (crc_init z) (take end_pos f)"

datatype bgsave_status = IDLE | IN_PROGRESS | SUCCESS | FAILED

record rdb =
  bgsave_in_progress :: bool
  last_bgsave_time_sec :: int
  last_bgsave_status :: bgsave_status
  last_bgsave_keys :: nat
  total_bgsave_calls :: "64 word"
  total_rdb_saved_keys :: "64 word"

definition RdbPersistence :: rdb where
  "RdbPersistence = \<lparr>bgsave_in_progress = False, last_bgsave_time_sec = 0, last_bgsave_status = IDLE,
     last_bgsave_keys = 0, total_bgsave_calls = 0, total_rdb_saved_keys = 0\<rparr>"

definition record_save_result :: "env \<Rightarrow> bgsave_status \<Rightarrow> nat \<Rightarrow> rdb \<Rightarrow> rdb" where
  "record_save_result e status ks r =
     (let r = (if status = SUCCESS
               then r\<lparr>last_bgsave_time_sec := env_now e div 1000, last_bgsave_keys := ks,
                      total_rdb_saved_keys := total_rdb_saved_keys r + of_nat ks\<rparr>
               else r) in
      r\<lparr>last_bgsave_status := status\<rparr>)"

definition kRdbMagic :: "32 word" where "kRdbMagic = 0x43435244"

definition kRdbVersion :: string where "kRdbVersion = ''0002''"

text \<open>The bytes of a snapshot: header, records, end marker and checksum.\<close>

definition rdb_body :: "kv_with_ttl list \<Rightarrow> string" where
  "rdb_body all_kvs =
     write_uint32 kRdbMagic @ kRdbVersion @ write_uint32 1 @ write_uint32 (of_nat (length all_kvs)) @
     concat (map (\<lambda>kv. write_kv_pair (kv_key kv) (kv_value kv) (kv_expire kv)) all_kvs) @
     write_uint8 EOF_MARKER"

definition rdb_file :: "zlib \<Rightarrow> kv_with_ttl list \<Rightarrow> string" where
  "rdb_file z all_kvs =
     (let body = rdb_body all_kvs in body @ write_uint32 (calculate_crc32_for_range z (length body) body))"

text \<open>The outcome of the system calls of one save: opening the temporary file, writing and
  flushing it, and renaming it.\<close>

record save_io =
  open_ok :: bool
  write_ok :: bool
  rename_ok :: bool

type_synonym files = "string \<Rightarrow> string option"

definition save ::
  "env \<Rightarrow> zlib \<Rightarrow> save_io \<Rightarrow> string \<Rightarrow> storage \<Rightarrow> rdb \<Rightarrow> files \<Rightarrow> bool \<times> rdb \<times> files" where
  "save e z io path st r fs =
     (let tmp_path = path @ ''.tmp'' in
      if \<not> open_ok io then (False, r, fs)
      else let all_kvs = get_all_objects_with_ttl e st; kv_count = unat (of_nat (length all_kvs) :: 32 word) in
        if \<not> write_ok io then (False, record_save_result e FAILED 0 r, fs(tmp_path := None))
        else let fs = fs(tmp_path \<mapsto> rdb_file z all_kvs) in
          if \<not> rename_ok io then (False, record_save_result e FAILED 0 r, fs(tmp_path := None))
          else (True, record_save_result e SUCCESS kv_count r, (fs(path := fs tmp_path))(tmp_path := None)))"

text \<open>\<^verbatim>\<open>save_in_background\<close>: taking the flag and starting the thread, and what the thread does.\<close>

definition save_in_background :: "rdb \<Rightarrow> bool \<times> rdb" where
  "save_in_background r =
     (if bgsave_in_progress r then (False, r)
      else (True, r\<lparr>bgsave_in_progress := True, last_bgsave_status := IN_PROGRESS,
                    total_bgsave_calls := total_bgsave_calls r + 1\<rparr>))"

definition snapshot_thread ::
  "env \<Rightarrow> zlib \<Rightarrow> save_io \<Rightarrow> string \<Rightarrow> storage \<Rightarrow> rdb \<Rightarrow> files \<Rightarrow> rdb \<times> files" where
  "snapshot_thread e z io path st r fs =
     (case save e z io path st r fs of (success, r, fs) \<Rightarrow>
        (r\<lparr>last_bgsave_status := (if success then SUCCESS else FAILED), bgsave_in_progress := False\<rparr>, fs))"

section \<open>Loading\<close>

definition store_loaded :: "env \<Rightarrow> string \<Rightarrow> cache_object \<Rightarrow> int \<Rightarrow> storage \<Rightarrow> storage" where
  "store_loaded e key ob expire_time_ms st =
     (if expire_time_ms > 0
      then let ttl_ms = sub64 expire_time_ms (env_now e) in
           if ttl_ms > 0 then set_with_expire e key ob ttl_ms st else st
      else storage_set e key ob st)"

text \<open>The loops over records and databases: the rest of the file or the exception, and the store as
  far as it was filled.\<close>

primrec load_kvs :: "env \<Rightarrow> nat \<Rightarrow> string \<Rightarrow> storage \<Rightarrow> string option \<times> storage" where
  "load_kvs e 0 f st = (Some f, st)"
| "load_kvs e (Suc n) f st =
     (case read_kv_pair f of None \<Rightarrow> (None, st)
      | Some ((keep, key, ob, expire_time_ms), r) \<Rightarrow>
        load_kvs e n r (if keep then store_loaded e key ob expire_time_ms st else st))"

primrec load_dbs :: "env \<Rightarrow> nat \<Rightarrow> string \<Rightarrow> storage \<Rightarrow> string option \<times> storage" where
  "load_dbs e 0 f st = (Some f, st)"
| "load_dbs e (Suc n) f st =
     (case read_uint32 f of None \<Rightarrow> (None, st)
      | Some (kv_count, r) \<Rightarrow>
        (case load_kvs e (unat kv_count) r st of (None, st) \<Rightarrow> (None, st) | (Some r, st) \<Rightarrow> load_dbs e n r st))"

definition load_body :: "env \<Rightarrow> nat \<Rightarrow> string \<Rightarrow> storage \<Rightarrow> bool \<times> storage" where
  "load_body e file_size body st =
     (case read_uint32 body of None \<Rightarrow> (False, st)
      | Some (db_count, r) \<Rightarrow>
        (case load_dbs e (unat db_count) r st of (None, st) \<Rightarrow> (False, st)
         | (Some r, st) \<Rightarrow>
           let body_end = file_size - length r; data_len = file_size - 4 in
           if int body_end \<noteq> int data_len - 1 then (False, st)
           else case read_uint8 r of None \<Rightarrow> (False, st)
                | Some (eof, _) \<Rightarrow> (eof = EOF_MARKER, st)))"

definition load :: "env \<Rightarrow> zlib \<Rightarrow> string \<Rightarrow> storage \<Rightarrow> files \<Rightarrow> bool \<times> storage" where
  "load e z path st fs =
     (case fs path of None \<Rightarrow> (False, st)
      | Some f \<Rightarrow>
        if f = [] then (True, st)
        else case read_uint32 f of None \<Rightarrow> (False, st)
             | Some (magic, r) \<Rightarrow>
               if magic \<noteq> kRdbMagic then (False, st)
               else if length r < 4 then (False, st)
               else if take 4 r \<noteq> kRdbVersion then (False, st)
               else let file_size = length f; data_len = file_size - 4 in
                    if file_size < 4 then (False, st)
                    else case read_uint32 (drop data_len f) of None \<Rightarrow> (False, st)
                         | Some (stored_crc, _) \<Rightarrow>
                           if stored_crc \<noteq> calculate_crc32_for_range z data_len f then (False, st)
                           else load_body e file_size (drop 4 r) st)"

section \<open>The scheduler\<close>

definition should_save :: "int \<Rightarrow> nat \<Rightarrow> int \<Rightarrow> 64 word \<Rightarrow> bool" where
  "should_save interval_sec dirty_threshold elapsed current_dirty \<longleftrightarrow>
     elapsed \<ge> interval_sec \<or> unat current_dirty \<ge> dirty_threshold"

definition do_save :: "rdb \<Rightarrow> storage \<Rightarrow> rdb \<times> storage" where
  "do_save r st =
     (let dirty_snapshot = get_dirty_count st in
      case save_in_background r of (started, r) \<Rightarrow>
        (r, if started then consume_dirty_count dirty_snapshot st else st))"

end
