(* ===== verification/CC_Rdb_Facts.thy ===== *)
theory CC_Rdb_Facts
  imports CC_Rdb
begin

text \<open>
  Correctness of the RDB file: the integer and string encodings read back, a record reads back to
  the key, the value and the deadline it was written from, a saved store loads into the same key
  space, a damaged file is refused before the store is touched, and a failed save leaves the
  previous snapshot in place.
\<close>

unbundle bit_operations_syntax

section \<open>Integers\<close>

lemma bit_masks32:
  "bit (0xFF000000 :: 32 word) n \<longleftrightarrow> 24 \<le> n \<and> n < 32" "bit (0x00FF0000 :: 32 word) n \<longleftrightarrow> 16 \<le> n \<and> n < 24"
  "bit (0x0000FF00 :: 32 word) n \<longleftrightarrow> 8 \<le> n \<and> n < 16" "bit (0x000000FF :: 32 word) n \<longleftrightarrow> n < 8"
proof -
  have m: "(0xFF000000 :: 32 word) = push_bit 24 (mask 8)" "(0x00FF0000 :: 32 word) = push_bit 16 (mask 8)"
    "(0x0000FF00 :: 32 word) = push_bit 8 (mask 8)" "(0x000000FF :: 32 word) = mask 8"
    by (simp_all add: mask_eq_exp_minus_1)
  show "bit (0xFF000000 :: 32 word) n \<longleftrightarrow> 24 \<le> n \<and> n < 32" "bit (0x00FF0000 :: 32 word) n \<longleftrightarrow> 16 \<le> n \<and> n < 24"
    "bit (0x0000FF00 :: 32 word) n \<longleftrightarrow> 8 \<le> n \<and> n < 16" "bit (0x000000FF :: 32 word) n \<longleftrightarrow> n < 8"
    unfolding m by (simp_all only: bit_push_bit_iff bit_mask_iff possible_bit_word) auto
qed

lemma bit_host_to_big32:
  "bit (host_to_big32 v) n \<longleftrightarrow>
     (if n < 8 then bit v (n + 24) else if n < 16 then bit v (n + 8)
      else if n < 24 then bit v (n - 8) else n < 32 \<and> bit v (n - 24))"
  unfolding host_to_big32_def bit_or_iff bit_and_iff bit_drop_bit_eq bit_push_bit_iff o_def bit_masks32
  using bit_imp_le_length [of v n] by (auto simp: add.commute)

lemma host_to_big32_twice [simp]: "host_to_big32 (host_to_big32 v) = v"
proof (rule bit_word_eqI)
  fix n
  assume "n < LENGTH(32)"
  then consider "n < 8" | "8 \<le> n" "n < 16" | "16 \<le> n" "n < 24" | "24 \<le> n" "n < 32"
    by force
  then show "bit (host_to_big32 (host_to_big32 v)) n = bit v n"
    by cases (auto simp: bit_host_to_big32)
qed

lemma host_to_big64_twice [simp]: "host_to_big64 (host_to_big64 v) = v"
proof -
  have "mem_bytes 8 (mem_word (rev (mem_bytes 8 v)) :: 64 word) = rev (mem_bytes 8 v)"
    using mem_bytes_word [where 'a = 64, of "rev (mem_bytes 8 v)"] by simp
  then show ?thesis
    by (simp add: host_to_big64_def mem_word_bytes)
qed

lemma read_write_uint32 [codec]: "read_uint32 (write_uint32 v @ r) = Some (v, r)"
  by (simp add: read_uint32_def write_uint32_def mem_word_bytes)

lemma read_write_uint64 [codec]: "read_uint64 (write_uint64 v @ r) = Some (v, r)"
  by (simp add: read_uint64_def write_uint64_def mem_word_bytes)

lemma length_write_uint [simp]: "length (write_uint32 v) = 4" "length (write_uint64 w) = 8"
  by (simp_all add: write_uint32_def write_uint64_def)

section \<open>Strings and records\<close>

definition fits32 :: "nat \<Rightarrow> bool" where
  "fits32 n \<longleftrightarrow> n < 2 ^ 32"

lemma unat_of_nat_fits [simp]: "fits32 n \<Longrightarrow> unat (of_nat n :: 32 word) = n"
  by (simp add: fits32_def unat_of_nat)

lemma of_nat_eq_0_fits [simp]: "fits32 n \<Longrightarrow> (of_nat n :: 32 word) = 0 \<longleftrightarrow> n = 0"
  by (metis unat_of_nat_fits unat_eq_zero)

lemma read_write_string [codec]:
  "fits32 (length str) \<Longrightarrow> 4 \<le> length r \<Longrightarrow> read_string (write_string str @ r) = Some (str, r)"
  by (simp add: read_string_def write_string_def read_write_uint32 Let_def)

lemma read_write_uint8 [codec]: "v < 256 \<Longrightarrow> read_uint8 (write_uint8 v @ r) = Some (v, r)"
  by (simp add: read_uint8_def write_uint8_def)

lemma deserialize_list_items:
  "list_all (\<lambda>x. fits32 (length x)) xs \<Longrightarrow> 4 \<le> length r \<Longrightarrow>
   deserialize_list (length xs) (concat (map write_string xs) @ r) ob =
     Some (foldl (\<lambda>ob e. snd (list_push e False ob)) ob xs, r)"
  by (induction xs arbitrary: ob) (simp_all add: read_write_string)

lemma deserialize_set_items:
  "list_all (\<lambda>x. fits32 (length x)) xs \<Longrightarrow> 4 \<le> length r \<Longrightarrow>
   deserialize_set (length xs) (concat (map write_string xs) @ r) ob =
     Some (foldl (\<lambda>ob m. snd (set_add m ob)) ob xs, r)"
  by (induction xs arbitrary: ob) (simp_all add: read_write_string)

lemma deserialize_hash_items:
  "list_all (\<lambda>(k, v). fits32 (length k) \<and> fits32 (length v)) al \<Longrightarrow> 4 \<le> length r \<Longrightarrow>
   deserialize_hash (length al) (concat (map (\<lambda>(k, v). write_string k @ write_string v) al) @ r) ob =
     Some (foldl (\<lambda>ob (f, v). snd (hash_set f v ob)) ob al, r)"
  by (induction al arbitrary: ob) (auto simp: read_write_string)

lemma deserialize_zset_items:
  "list_all (\<lambda>(m, s). fits32 (length m)) zs \<Longrightarrow> zset_ok (acc @ zs) \<Longrightarrow> 4 \<le> length r \<Longrightarrow>
   deserialize_zset (length zs) (concat (map (\<lambda>(m, s). write_string m @ write_uint64 s) zs) @ r)
     (rebuilt ZSET [] [] [] acc) = Some (rebuilt ZSET [] [] [] (acc @ zs), r)"
proof (induction zs arbitrary: acc)
  case (Cons x zs)
  obtain m d where x: "x = (m, d)"
    by fastforce
  have "zset_ok (acc @ [(m, d)])"
    using Cons.prems(2) x zset_ok_prefix [of "acc @ [(m, d)]" zs] by simp
  with Cons x show ?case
    by (simp add: read_write_string read_write_uint64 zset_add_rebuilt)
qed simp

definition rdb_object_ok :: "cache_object \<Rightarrow> bool" where
  "rdb_object_ok ob \<longleftrightarrow> object_ok ob \<and> 0 < element_count ob \<and> fits32 (element_count ob) \<and>
     fits32 (length (string_val ob)) \<and> list_all (\<lambda>x. fits32 (length x)) (list_val ob) \<and>
     list_all (\<lambda>(k, v). fits32 (length k) \<and> fits32 (length v)) (hash_val ob) \<and>
     list_all (\<lambda>x. fits32 (length x)) (set_val ob) \<and> list_all (\<lambda>(m, s). fits32 (length m)) (zset_val ob)"

text \<open>What \<^verbatim>\<open>write_kv_pair\<close> writes after the type byte, and how \<^verbatim>\<open>read_kv_pair\<close> reads it.\<close>

definition value_bytes :: "cache_object \<Rightarrow> string" where
  "value_bytes ob = (case otype ob of
        STRING \<Rightarrow> serialize_string (case get_string ob of None \<Rightarrow> [] | Some str \<Rightarrow> str)
      | LIST \<Rightarrow> serialize_list ob | HASH \<Rightarrow> serialize_hash ob
      | SET \<Rightarrow> serialize_set ob | ZSET \<Rightarrow> serialize_zset ob)"

definition read_value :: "nat \<Rightarrow> string \<Rightarrow> (cache_object \<times> string) option" where
  "read_value type_val r =
     (if type_val = 0 then deserialize_string r
      else if type_val = 1 then counted deserialize_list r
      else if type_val = 2 then counted deserialize_hash r
      else if type_val = 3 then counted deserialize_set r
      else if type_val = 4 then counted deserialize_zset r
      else None)"

lemma list_range_all:
  assumes "otype ob = LIST" "fits32 (length (list_val ob))"
  shows "list_range 0 (-1) ob = list_val ob"
proof (cases "list_val ob = []")
  case False
  then have "1 \<le> length (list_val ob)"
    by (simp add: Suc_le_eq)
  with range_of_index [of "list_val ob" 0 "-1"] assms show ?thesis
    by (simp add: list_range_def fits32_def int64_arith norm_index_def slice_def Let_def)
qed (simp add: assms list_range_def range_of_def)

lemma read_value_bytes:
  assumes "rdb_object_ok ob" "4 \<le> length r"
  shows "read_value (rdb_value_type (otype ob)) (value_bytes ob @ r) = Some (ob, r)"
proof -
  have ok: "object_ok ob" "0 < element_count ob"
    using assms(1) by (simp_all add: rdb_object_ok_def)
  note defs = read_value_def value_bytes_def rdb_value_type_def counted_def read_write_uint32 Let_def
  show ?thesis
  proof (cases "otype ob")
    case STRING
    then have "CacheObject_string (string_val ob) = ob"
      using ok(1) by (simp add: object_ok_def CacheObject_string_def CacheObject_def zset_ok_def)
    with STRING assms show ?thesis
      by (simp add: defs deserialize_string_def serialize_string_def get_string_def read_write_string rdb_object_ok_def)
  next
    case LIST
    with assms rebuilt_same(2) [OF ok] foldl_list_push [of "[]" "list_val ob"] show ?thesis
      by (simp add: defs serialize_list_def list_range_all deserialize_list_items rdb_object_ok_def element_count_def)
  next
    case HASH
    with assms rebuilt_same(3) [OF ok] foldl_hash_set [of "[]" "hash_val ob"] show ?thesis
      by (simp add: defs serialize_hash_def hash_items_def deserialize_hash_items rdb_object_ok_def element_count_def object_ok_def)
  next
    case SET
    with assms rebuilt_same(4) [OF ok] foldl_set_add [of "[]" "set_val ob"] show ?thesis
      by (simp add: defs serialize_set_def set_members_def deserialize_set_items rdb_object_ok_def element_count_def object_ok_def)
  next
    case ZSET
    with assms rebuilt_same(5) [OF ok] deserialize_zset_items [of "zset_val ob" "[]" r] show ?thesis
      by (simp add: defs serialize_zset_def zset_all_def rdb_object_ok_def element_count_def object_ok_def)
  qed
qed

lemma first_byte_of_length:
  assumes "n < 0xFE000000"
  shows "byte (hd (write_uint32 (of_nat n) @ r)) < KV_WITH_TTL"
proof -
  let ?v = "of_nat n :: 32 word"
  have "take_bit 8 (host_to_big32 ?v) = drop_bit 24 ?v"
    by (rule bit_word_eqI) (auto simp: bit_take_bit_iff bit_host_to_big32 bit_drop_bit_eq add.commute dest: bit_imp_le_length)
  then have "byte (write_uint32 ?v ! 0) = unat (drop_bit 24 ?v)"
    by (simp add: write_uint32_def byte_mem_bytes)
  also have "\<dots> = unat ?v div 2 ^ 24"
    using unat_drop_bit_eq [of 24 ?v] by (simp add: drop_bit_eq_div)
  also have "\<dots> = n div 2 ^ 24"
    using assms by (simp add: fits32_def)
  also have "\<dots> < KV_WITH_TTL"
    using assms by (simp add: KV_WITH_TTL_def less_mult_imp_div_less)
  finally show ?thesis
    by (metis append_is_Nil_conv hd_append2 hd_conv_nth length_write_uint(1) list.size(3) zero_neq_numeral)
qed

lemma read_kv_pair_value:
  "read_kv_pair f =
     (case read_uint8 f of None \<Rightarrow> None
      | Some (marker, r) \<Rightarrow>
        (case (if marker = KV_WITH_TTL
               then map_option (\<lambda>(expire, r). (sint expire, r)) (read_uint64 r) else Some (-1, f)) of
           None \<Rightarrow> None
         | Some (expire_time_ms, r) \<Rightarrow>
           (case read_string r of None \<Rightarrow> None
            | Some (key, r) \<Rightarrow>
              (case read_uint8 r of None \<Rightarrow> None
               | Some (type_val, r) \<Rightarrow>
                 (case read_value type_val r of None \<Rightarrow> None
                  | Some (ob, r) \<Rightarrow> Some ((key \<noteq> [], key, ob, expire_time_ms), r))))))"
  unfolding read_kv_pair_def read_value_def by (rule refl)

definition rdb_kv_ok :: "kv_with_ttl \<Rightarrow> bool" where
  "rdb_kv_ok kv \<longleftrightarrow> kv_key kv \<noteq> [] \<and> length (kv_key kv) < 0xFE000000 \<and> rdb_object_ok (kv_value kv) \<and>
     (kv_expire kv = -1 \<or> 0 < kv_expire kv \<and> kv_expire kv \<le> int64_max)"

lemma write_kv_pair_parts:
  "write_kv_pair k ob t =
     (if t > 0 then write_uint8 KV_WITH_TTL @ write_uint64 (of_int t) else []) @
     write_string k @ write_uint8 (rdb_value_type (otype ob)) @ value_bytes ob"
  by (simp add: write_kv_pair_def value_bytes_def)

lemma rdb_value_type_less: "rdb_value_type t < 256"
  by (cases t) (simp_all add: rdb_value_type_def)

lemma sint_deadline: "0 < t \<Longrightarrow> t \<le> int64_max \<Longrightarrow> sint (of_int t :: 64 word) = t"
  by (simp add: int64_arith sint_sbintrunc' signed_take_bit_int_eq_self)

lemma read_write_kv_pair:
  assumes "rdb_kv_ok kv" "4 \<le> length r"
  shows "read_kv_pair (write_kv_pair (kv_key kv) (kv_value kv) (kv_expire kv) @ r) =
    Some ((True, kv_key kv, kv_value kv, kv_expire kv), r)"
proof -
  let ?k = "kv_key kv" and ?ob = "kv_value kv" and ?t = "kv_expire kv"
  let ?rest = "write_uint8 (rdb_value_type (otype ?ob)) @ value_bytes ?ob @ r"
  have ok: "fits32 (length ?k)" "rdb_object_ok ?ob" "?k \<noteq> []"
    using assms(1) by (auto simp: rdb_kv_ok_def fits32_def)
  have tail: "read_string (write_string ?k @ ?rest) = Some (?k, ?rest)"
    "read_uint8 ?rest = Some (rdb_value_type (otype ?ob), value_bytes ?ob @ r)"
    "read_value (rdb_value_type (otype ?ob)) (value_bytes ?ob @ r) = Some (?ob, r)"
    using ok assms(2) by (simp_all add: read_write_string read_write_uint8 rdb_value_type_less read_value_bytes)
  show ?thesis
  proof (cases "?t > 0")
    case True
    then have "?t \<le> int64_max"
      using assms(1) by (auto simp: rdb_kv_ok_def)
    with True tail ok(3) show ?thesis
      by (simp add: read_kv_pair_value write_kv_pair_parts read_write_uint8 KV_WITH_TTL_def read_write_uint64 sint_deadline)
  next
    case False
    let ?f = "write_string ?k @ ?rest"
    have "byte (hd ?f) < KV_WITH_TTL" "?f \<noteq> []"
      using assms(1) first_byte_of_length [of "length ?k" "?k @ ?rest"]
      by (auto simp: rdb_kv_ok_def write_string_def write_uint8_def)
    then have "read_uint8 ?f = Some (byte (hd ?f), tl ?f)" "byte (hd ?f) \<noteq> KV_WITH_TTL"
      by (auto simp: read_uint8_def split: list.splits)
    with False tail ok(3) assms(1) show ?thesis
      by (simp add: read_kv_pair_value write_kv_pair_parts rdb_kv_ok_def)
  qed
qed

section \<open>Loading a snapshot\<close>

definition load_one :: "env \<Rightarrow> storage \<Rightarrow> kv_with_ttl \<Rightarrow> storage" where
  "load_one e st kv = store_loaded e (kv_key kv) (kv_value kv) (kv_expire kv) st"

lemma load_kvs_records:
  "list_all rdb_kv_ok kvs \<Longrightarrow> 4 \<le> length r \<Longrightarrow>
   load_kvs e (length kvs) (concat (map (\<lambda>kv. write_kv_pair (kv_key kv) (kv_value kv) (kv_expire kv)) kvs) @ r) st =
     (Some r, foldl (load_one e) st kvs)"
  by (induction kvs arbitrary: st) (simp_all add: read_write_kv_pair load_one_def)

definition room_for :: "nat \<Rightarrow> storage \<Rightarrow> bool" where
  "room_for n st \<longleftrightarrow> storage_size st + n \<le> scaled kEvictThreshold (max_entries st)"

lemma room_for_Suc: "room_for (Suc n) st \<Longrightarrow> no_evict st"
  by (simp add: room_for_def no_evict_def)

lemma storage_size_insert: "sized s \<Longrightarrow> storage_size (insert_or_assign e k en s) \<le> Suc (storage_size s)"
proof -
  assume sz: "sized s"
  let ?i = "get_shard_index e k"
  have i: "?i < length (stores s)"
    using sz by (simp add: sized_def)
  have "length (AList.update k en al) \<le> Suc (length al)" for al :: shard
    by (induction al) auto
  then have "length (AList.update k en (stores s ! ?i)) \<le> Suc (length (stores s ! ?i))" .
  moreover have "length (stores s ! ?i) \<le> sum_list (map length (stores s))"
    using i by (simp add: elem_le_sum_list [of ?i "map length (stores s)", simplified])
  ultimately show ?thesis
    using i by (simp add: storage_size_def insert_or_assign_def upd_shard_def shard_of_def map_update sum_list_update)
qed

lemma storage_size_updates [simp]:
  "storage_size (increment_dirty s) = storage_size s" "storage_size (drop_expiry k s) = storage_size s"
  "storage_size (s\<lparr>expires := d\<rparr>) = storage_size s"
  by (simp_all add: storage_size_def increment_dirty_def drop_expiry_def)

lemma max_entries_updates [simp]:
  "max_entries (increment_dirty s) = max_entries s" "max_entries (drop_expiry k s) = max_entries s"
  "max_entries (insert_or_assign e k en s) = max_entries s"
  by (simp_all add: increment_dirty_def drop_expiry_def insert_or_assign_def upd_shard_def)

lemma room_for_updates [simp]:
  "room_for n (drop_expiry k s) = room_for n s" "room_for n (s\<lparr>expires := d\<rparr>) = room_for n s"
  by (simp_all add: room_for_def)

lemma room_for_insert:
  "sized s \<Longrightarrow> room_for (Suc n) s \<Longrightarrow> room_for n (increment_dirty (insert_or_assign e k en s))"
  using storage_size_insert [of s e k en] by (simp add: room_for_def)

definition loadable :: "env \<Rightarrow> kv_with_ttl \<Rightarrow> bool" where
  "loadable e kv \<longleftrightarrow> kv_expire kv = -1 \<or> env_now e < kv_expire kv \<and> kv_expire kv \<le> int64_max"

definition deadline_of :: "kv_with_ttl \<Rightarrow> int option" where
  "deadline_of kv = (if kv_expire kv > 0 then Some (kv_expire kv) else None)"

lemma load_one_views:
  assumes "sized st" "room_for (Suc n) st" "clock_ok (env_now e)" "loadable e kv"
  shows "live e (load_one e st kv) = (live e st)(kv_key kv \<mapsto> kv_value kv) \<and>
    live_ttl e (load_one e st kv) = (live_ttl e st)(kv_key kv := deadline_of kv) \<and>
    sized (load_one e st kv) \<and> room_for n (load_one e st kv)"
proof -
  note ne = room_for_Suc [OF assms(2)]
  note ev = evict_if_needed_below [OF ne]
  show ?thesis
  proof (cases "kv_expire kv > 0")
    case True
    let ?ms = "kv_expire kv - env_now e"
    have ms: "sub64 (kv_expire kv) (env_now e) = ?ms" "0 < ?ms" "sat_deadline (env_now e) ?ms = kv_expire kv"
      "env_now e < kv_expire kv"
      using assms(3,4) True sat_deadline_eq [OF assms(3), of ?ms]
      by (auto simp: loadable_def clock_ok_def int64_arith sub64_id)
    have "load_one e st kv = set_with_expire e (kv_key kv) (kv_value kv) ?ms st"
      using True ms by (simp add: load_one_def store_loaded_def Let_def)
    moreover have "sized (set_with_expire e k v m st) \<and> room_for n (set_with_expire e k v m st)" for k v m
      using assms(1,2) by (simp add: set_with_expire_def ev Let_def room_for_insert)
    ultimately show ?thesis
      using set_with_expire_views [OF assms(1) ne, of ?ms e "kv_key kv" "kv_value kv"] ms True by (simp add: deadline_of_def)
  next
    case False
    then have "load_one e st kv = storage_set e (kv_key kv) (kv_value kv) st"
      by (simp add: load_one_def store_loaded_def)
    moreover have "sized (storage_set e k v st) \<and> room_for n (storage_set e k v st)" for k v
      using assms(1,2) by (simp add: storage_set_def ev Let_def room_for_insert)
    ultimately show ?thesis
      using set_views [OF assms(1) ne, of e "kv_key kv" "kv_value kv"] False by (simp add: deadline_of_def)
  qed
qed

abbreviation by_key :: "kv_with_ttl list \<Rightarrow> string \<Rightarrow> kv_with_ttl option" where
  "by_key kvs \<equiv> map_of (map (\<lambda>kv. (kv_key kv, kv)) kvs)"

lemma load_all_views:
  "sized st \<Longrightarrow> room_for (length kvs) st \<Longrightarrow> clock_ok (env_now e) \<Longrightarrow> list_all (loadable e) kvs \<Longrightarrow>
   distinct (map kv_key kvs) \<Longrightarrow>
   live e (foldl (load_one e) st kvs) k = (case by_key kvs k of None \<Rightarrow> live e st k | Some kv \<Rightarrow> Some (kv_value kv)) \<and>
   live_ttl e (foldl (load_one e) st kvs) k = (case by_key kvs k of None \<Rightarrow> live_ttl e st k | Some kv \<Rightarrow> deadline_of kv)"
proof (induction kvs arbitrary: st)
  case (Cons kv kvs)
  have step: "live e (load_one e st kv) = (live e st)(kv_key kv \<mapsto> kv_value kv) \<and>
    live_ttl e (load_one e st kv) = (live_ttl e st)(kv_key kv := deadline_of kv) \<and>
    sized (load_one e st kv) \<and> room_for (length kvs) (load_one e st kv)"
    using Cons.prems by (intro load_one_views) simp_all
  have "by_key kvs (kv_key kv) = None"
    using Cons.prems(5) by (auto simp: map_of_eq_None_iff)
  then show ?case
    using Cons.IH [of "load_one e st kv"] Cons.prems step by (auto split: option.splits)
qed simp

definition still_live :: "env \<Rightarrow> kv_with_ttl \<Rightarrow> bool" where
  "still_live e kv \<longleftrightarrow> \<not> (0 < kv_expire kv \<and> kv_expire kv \<le> env_now e)"

lemma load_one_expired:
  assumes "clock_ok (env_now e)" "rdb_kv_ok kv" "\<not> still_live e kv"
  shows "load_one e st kv = st"
proof -
  have "sub64 (kv_expire kv) (env_now e) = kv_expire kv - env_now e"
    using assms by (auto simp: clock_ok_def rdb_kv_ok_def still_live_def int64_arith sub64_id)
  then show ?thesis
    using assms(3) by (simp add: load_one_def store_loaded_def still_live_def Let_def)
qed

lemma load_filter_live:
  "clock_ok (env_now e) \<Longrightarrow> list_all rdb_kv_ok kvs \<Longrightarrow>
   foldl (load_one e) st kvs = foldl (load_one e) st (filter (still_live e) kvs)"
  by (induction kvs arbitrary: st) (simp_all add: load_one_expired)

lemma load_body_file:
  assumes "list_all rdb_kv_ok kvs" "fits32 (length kvs)"
  shows "load_body e (length (rdb_file z kvs)) (drop 8 (rdb_file z kvs)) st = (True, foldl (load_one e) st kvs)"
proof -
  let ?recs = "concat (map (\<lambda>kv. write_kv_pair (kv_key kv) (kv_value kv) (kv_expire kv)) kvs)"
  let ?trailer = "write_uint8 EOF_MARKER @ write_uint32 (calculate_crc32_for_range z (length (rdb_body kvs)) (rdb_body kvs))"
  have f: "rdb_file z kvs = (write_uint32 kRdbMagic @ kRdbVersion) @
      write_uint32 1 @ write_uint32 (of_nat (length kvs)) @ ?recs @ ?trailer"
    by (simp add: rdb_file_def rdb_body_def Let_def)
  have hd8: "length (write_uint32 kRdbMagic @ kRdbVersion) = 8" and end5: "length ?trailer = 5"
    by (simp_all add: kRdbVersion_def write_uint8_def)
  have "drop 8 (rdb_file z kvs) = write_uint32 1 @ write_uint32 (of_nat (length kvs)) @ ?recs @ ?trailer"
    unfolding f by (simp only: append_assoc drop_append hd8) (simp add: kRdbVersion_def)
  moreover have "length (rdb_file z kvs) = 16 + length ?recs + 5"
    unfolding f using end5 by (simp add: kRdbVersion_def)
  moreover have "load_kvs e (length kvs) (?recs @ ?trailer) st = (Some ?trailer, foldl (load_one e) st kvs)"
    using assms(1) end5 by (intro load_kvs_records) simp_all
  ultimately show ?thesis
    using assms(2) end5
    by (simp add: load_body_def read_write_uint32 read_write_uint8 EOF_MARKER_def Let_def)
qed

lemma load_saved_file:
  assumes "list_all rdb_kv_ok kvs" "fits32 (length kvs)" "fs path = Some (rdb_file z kvs)"
  shows "load e z path st fs = (True, foldl (load_one e) st kvs)"
proof -
  let ?f = "rdb_file z kvs" and ?crc = "calculate_crc32_for_range z (length (rdb_body kvs)) (rdb_body kvs)"
  have f: "?f = rdb_body kvs @ write_uint32 ?crc"
    by (simp add: rdb_file_def Let_def)
  obtain body where body: "rdb_body kvs = write_uint32 kRdbMagic @ kRdbVersion @ body"
    by (simp add: rdb_body_def)
  have crc: "read_uint32 (drop (length ?f - 4) ?f) = Some (?crc, [])"
    "calculate_crc32_for_range z (length ?f - 4) ?f = ?crc"
    using read_write_uint32 [of ?crc "[]"] by (simp_all add: f calculate_crc32_for_range_def)
  have start: "read_uint32 ?f = Some (kRdbMagic, kRdbVersion @ body @ write_uint32 ?crc)" "?f \<noteq> []" "4 \<le> length ?f"
    using read_write_uint32 [of kRdbMagic] by (simp_all add: f body kRdbVersion_def)
  have "drop 4 (kRdbVersion @ body @ write_uint32 ?crc) = drop 8 ?f"
    by (simp add: f body kRdbVersion_def)
  with load_body_file [OF assms(1,2), of e z st] start crc assms(3) show ?thesis
    by (simp add: load_def Let_def kRdbVersion_def)
qed

lemma by_key_snapshot:
  assumes "storage_ok e s" "positive_deadlines (expires s)"
  shows "by_key (get_all_objects_with_ttl e s) k =
    map_option (\<lambda>ob. \<lparr>kv_key = k, kv_value = ob, kv_expire = (case live_ttl e s k of None \<Rightarrow> -1 | Some t \<Rightarrow> t)\<rparr>) (live e s k)"
proof -
  let ?kvs = "get_all_objects_with_ttl e s"
  have dist: "distinct (map fst (map (\<lambda>kv. (kv_key kv, kv)) ?kvs))"
    using snapshot_keys [OF assms(1)] by (simp add: comp_def)
  have mem: "by_key ?kvs k = Some kv \<longleftrightarrow> kv \<in> set ?kvs \<and> kv_key kv = k" for kv
    using map_of_eq_Some_iff [OF dist, of k kv] by auto
  show ?thesis
  proof (cases "live e s k")
    case None
    have "by_key ?kvs k \<noteq> Some kv" for kv
      using mem [of kv] snapshot_members [OF assms, of kv] None by auto
    then show ?thesis
      using None by (cases "by_key ?kvs k") auto
  next
    case (Some ob)
    let ?kv = "\<lparr>kv_key = k, kv_value = ob, kv_expire = (case live_ttl e s k of None \<Rightarrow> -1 | Some t \<Rightarrow> t)\<rparr>"
    have "?kv \<in> set ?kvs"
      using snapshot_members [OF assms, of ?kv] Some by simp
    then have "by_key ?kvs k = Some ?kv"
      using mem [of ?kv] by simp
    then show ?thesis
      using Some by simp
  qed
qed

lemma by_key_filter:
  "distinct (map kv_key kvs) \<Longrightarrow>
   by_key (filter P kvs) k = (case by_key kvs k of None \<Rightarrow> None | Some kv \<Rightarrow> if P kv then Some kv else None)"
proof (induction kvs)
  case (Cons kv kvs)
  have "by_key kvs (kv_key kv) = None" "by_key (filter P kvs) (kv_key kv) = None"
    using Cons.prems by (auto simp: map_of_eq_None_iff)
  with Cons show ?case
    by (cases "kv_key kv = k") simp_all
qed simp

lemma live_later:
  assumes "env_hash e' = env_hash e" "env_now e \<le> env_now e'"
  shows "live e' s k = (case live e s k of None \<Rightarrow> None | Some ob \<Rightarrow>
      if is_expired (env_now e') k (expires s) then None else Some ob)"
  using assms by (auto simp: live_def is_expired_def find_entry_def shard_of_def get_shard_index_def split: option.splits)

section \<open>A concrete snapshot\<close>

definition demo_zlib :: zlib where
  "demo_zlib = \<lparr>crc_init = 0, crc_update = (\<lambda>crc bs. crc + of_nat (length bs))\<rparr>"

definition demo_io :: save_io where
  "demo_io = \<lparr>open_ok = True, write_ok = True, rename_ok = True\<rparr>"

definition demo_kvs :: "kv_with_ttl list" where
  "demo_kvs = [\<lparr>kv_key = ''a'', kv_value = CacheObject_string ''v'', kv_expire = -1\<rparr>,
               \<lparr>kv_key = ''b'', kv_value = CacheObject_string ''v'', kv_expire = -1\<rparr>]"

lemma two_entries_ok: "storage_ok demo_env two_entries"
proof -
  have ob: "object_ok (CacheObject_string ''v'')"
    by (simp add: object_ok_def CacheObject_string_def CacheObject_def zset_ok_def)
  have st: "stores two_entries ! i = (if i = 1 then [(''a'', \<lparr>val = CacheObject_string ''v'', last_access = 5\<rparr>),
      (''b'', \<lparr>val = CacheObject_string ''v'', last_access = 3\<rparr>)] else [])" if "i < kDefaultShards" for i
    using that by (simp add: two_entries_def kDefaultShards_def nth_list_update)
  have "get_shard_index demo_env ''a'' = 1" "get_shard_index demo_env ''b'' = 1"
    by (simp_all add: get_shard_index_def demo_env_def kDefaultShards_def)
  moreover have "sized two_entries" "expires two_entries = []"
    by (simp_all add: sized_def two_entries_def kDefaultShards_def)
  moreover have "distinct (map fst (stores two_entries ! i))" if "i < kDefaultShards" for i
    using st [OF that] by simp
  moreover have "get_shard_index demo_env (fst x) = i \<and> object_ok (val (snd x))"
    if "i < kDefaultShards" "x \<in> set (stores two_entries ! i)" for i x
    using st [OF that(1)] that(2) calculation(1,2) ob by (auto split: if_splits)
  ultimately show ?thesis
    unfolding storage_ok_def by fastforce
qed

lemma demo_snapshot: "get_all_objects_with_ttl demo_env two_entries = demo_kvs"
  by code_simp

lemma demo_kvs_ok: "list_all rdb_kv_ok demo_kvs" "fits32 (length demo_kvs)"
  by (simp_all add: demo_kvs_def rdb_kv_ok_def rdb_object_ok_def fits32_def CacheObject_string_def CacheObject_def
      object_ok_def element_count_def zset_ok_def)

lemma demo_room: "room_for (length demo_kvs) (set_max_entries 100 GlobalStorage)"
  by (simp add: room_for_def demo_kvs_def set_max_entries_def storage_size_def GlobalStorage_def scaled_def
      round53_def bit_length.simps kEvictThreshold_def Let_def sum_list_replicate)

lemma demo_loaded:
  "live (demo_env\<lparr>env_now := 2000\<rparr>) (foldl (load_one (demo_env\<lparr>env_now := 2000\<rparr>)) (set_max_entries 100 GlobalStorage) demo_kvs) ''a''
     = Some (CacheObject_string ''v'')"
proof -
  have "sized (set_max_entries 100 GlobalStorage)"
    by (simp add: sized_def set_max_entries_def GlobalStorage_def)
  moreover have "list_all (loadable (demo_env\<lparr>env_now := 2000\<rparr>)) demo_kvs" "distinct (map kv_key demo_kvs)"
    by (simp_all add: demo_kvs_def loadable_def)
  ultimately show ?thesis
    using load_all_views [OF _ demo_room, of "demo_env\<lparr>env_now := 2000\<rparr>" "''a''"]
    by (simp add: clock_ok_def int64_arith demo_kvs_def)
qed

section \<open>Properties\<close>

text \<open>C10: a restart loses nothing: loading a saved file into an empty server succeeds and gives exactly
  the keys, values and deadlines of the saved store that have not expired by the time of the load.\<close>

theorem save_load_roundtrip:
  assumes "storage_ok e s" "positive_deadlines (expires s)"
    "list_all rdb_kv_ok (get_all_objects_with_ttl e s)" "fits32 (length (get_all_objects_with_ttl e s))"
    "room_for (length (get_all_objects_with_ttl e s)) (set_max_entries n GlobalStorage)"
    "clock_ok (env_now e')" "env_hash e' = env_hash e" "env_now e \<le> env_now e'"
    "save e z io path s r fs = (True, r', fs')"
  shows "fst (load e' z path (set_max_entries n GlobalStorage) fs') \<and>
         live e' (snd (load e' z path (set_max_entries n GlobalStorage) fs')) k = live e' s k \<and>
         live_ttl e' (snd (load e' z path (set_max_entries n GlobalStorage) fs')) k = live_ttl e' s k"
proof -
  let ?kvs = "get_all_objects_with_ttl e s" and ?st = "set_max_entries n GlobalStorage"
  let ?live = "filter (still_live e') ?kvs"
  have "fs' path = Some (rdb_file z ?kvs)"
    using assms(9) by (auto simp: save_def Let_def split: if_splits)
  from load_saved_file [where fs = fs' and path = path, OF assms(3,4) this, of e' ?st] load_filter_live [OF assms(6,3), of ?st]
  have load: "load e' z path ?st fs' = (True, foldl (load_one e') ?st ?live)"
    by simp
  have st: "sized ?st" "live e' ?st k = None"
    by (simp_all add: sized_def set_max_entries_def GlobalStorage_def live_def find_entry_def shard_of_def)
  have room: "room_for (length ?live) ?st"
    using assms(5) length_filter_le [of "still_live e'" ?kvs] unfolding room_for_def by linarith
  have ok: "list_all (loadable e') ?live" "distinct (map kv_key ?live)"
    using assms(3) snapshot_keys [OF assms(1)]
    by (auto simp: list_all_iff loadable_def still_live_def rdb_kv_ok_def distinct_map_filter)
  have key: "by_key ?live k = (case by_key ?kvs k of None \<Rightarrow> None | Some kv \<Rightarrow> if still_live e' kv then Some kv else None)"
    by (rule by_key_filter [OF snapshot_keys [OF assms(1)]])
  have pos: "map_of (expires s) k = Some t \<Longrightarrow> 0 < t" for t
    using assms(2) by (auto simp: positive_deadlines_def list_all_iff dest: map_of_SomeD)
  have views: "live e' (snd (load e' z path ?st fs')) k = map_option kv_value (by_key ?live k)"
    "live_ttl e' (snd (load e' z path ?st fs')) k = Option.bind (by_key ?live k) deadline_of"
    using load_all_views [OF st(1) room assms(6) ok, of k] load st(2) by (auto split: option.splits)
  have "map_option kv_value (by_key ?live k) = live e' s k \<and> Option.bind (by_key ?live k) deadline_of = live_ttl e' s k"
  proof (cases "live e s k")
    case None
    then show ?thesis
      by (simp add: key by_key_snapshot [OF assms(1,2)] live_later [OF assms(7,8)])
  next
    case (Some ob)
    then show ?thesis
      using pos by (cases "map_of (expires s) k")
        (auto simp: key by_key_snapshot [OF assms(1,2)] live_ttl_def live_later [OF assms(7,8)] still_live_def
          deadline_of_def is_expired_def)
  qed
  then show ?thesis
    using views load by simp
qed

theorem save_load_roundtrip_witness:
  "live (demo_env\<lparr>env_now := 2000\<rparr>)
     (snd (load (demo_env\<lparr>env_now := 2000\<rparr>) demo_zlib ''dump.rdb'' (set_max_entries 100 GlobalStorage)
       (snd (snd (save demo_env demo_zlib demo_io ''dump.rdb'' two_entries RdbPersistence Map.empty))))) ''a'' =
   live (demo_env\<lparr>env_now := 2000\<rparr>) two_entries ''a'' \<and>
   live (demo_env\<lparr>env_now := 2000\<rparr>) two_entries ''a'' = Some (CacheObject_string ''v'')"
proof -
  obtain r' fs' where sv: "save demo_env demo_zlib demo_io ''dump.rdb'' two_entries RdbPersistence Map.empty = (True, r', fs')"
    by (simp add: save_def demo_io_def Let_def)
  have "positive_deadlines (expires two_entries)"
    by (simp add: positive_deadlines_def two_entries_def)
  moreover have "live (demo_env\<lparr>env_now := 2000\<rparr>) two_entries ''a'' = Some (CacheObject_string ''v'')"
    by code_simp
  ultimately show ?thesis
    using save_load_roundtrip [OF two_entries_ok, unfolded demo_snapshot, OF _ demo_kvs_ok demo_room _ _ _ sv,
        of "demo_env\<lparr>env_now := 2000\<rparr>" "''a''"] sv
    by (simp add: clock_ok_def int64_arith)
qed

text \<open>C33: a load that changes the store has read a file with the right magic number and version whose
  checksum was verified over the whole file first.\<close>

theorem load_checks_first:
  assumes "snd (load e z path st fs) \<noteq> st"
  shows "\<exists>f. fs path = Some f \<and> 8 \<le> length f \<and> take 4 f = write_uint32 kRdbMagic \<and> take 4 (drop 4 f) = kRdbVersion \<and>
    read_uint32 (drop (length f - 4) f) = Some (calculate_crc32_for_range z (length f - 4) f, [])"
proof -
  obtain f magic r crc rest where f: "fs path = Some f" "read_uint32 f = Some (magic, r)" "magic = kRdbMagic"
    "\<not> length r < 4" "take 4 r = kRdbVersion" "read_uint32 (drop (length f - 4) f) = Some (crc, rest)"
    "crc = calculate_crc32_for_range z (length f - 4) f"
    using assms by (auto simp: load_def Let_def split: option.splits if_splits)
  have len: "4 \<le> length f" "r = drop 4 f" "host_to_big32 (mem_word (take 4 f)) = kRdbMagic"
    using f(2,3) by (auto simp: read_uint32_def split: if_splits)
  have "mem_word (take 4 f) = host_to_big32 kRdbMagic"
    using len(3) by (metis host_to_big32_twice)
  then have "mem_bytes 4 (mem_word (take 4 f) :: 32 word) = write_uint32 kRdbMagic"
    by (simp add: write_uint32_def)
  then have "take 4 f = write_uint32 kRdbMagic"
    using mem_bytes_word [where 'a = 32, of "take 4 f"] len(1) by simp
  moreover have "rest = []"
    using f(6) by (auto simp: read_uint32_def split: if_splits)
  ultimately show ?thesis
    using f len by auto
qed

theorem load_checks_first_witness:
  "\<exists>f. [''dump.rdb'' \<mapsto> rdb_file demo_zlib demo_kvs] ''dump.rdb'' = Some f \<and> 8 \<le> length f \<and>
    take 4 f = write_uint32 kRdbMagic \<and> take 4 (drop 4 f) = kRdbVersion"
proof -
  let ?e = "demo_env\<lparr>env_now := 2000\<rparr>" and ?st = "set_max_entries 100 GlobalStorage"
  let ?fs = "[''dump.rdb'' \<mapsto> rdb_file demo_zlib demo_kvs]"
  have "snd (load ?e demo_zlib ''dump.rdb'' ?st ?fs) = foldl (load_one ?e) ?st demo_kvs"
    using load_saved_file [where fs = ?fs and path = "''dump.rdb''", OF demo_kvs_ok] by simp
  moreover have "live ?e ?st ''a'' = None"
    by (simp add: live_def find_entry_def shard_of_def set_max_entries_def GlobalStorage_def)
  ultimately have "snd (load ?e demo_zlib ''dump.rdb'' ?st ?fs) \<noteq> ?st"
    using demo_loaded by auto
  from load_checks_first [OF this] show ?thesis
    by blast
qed


end
