(* ===== verification/CC_Slots.thy ===== *)
theory CC_Slots
  imports CC_Memory
begin

text \<open>
  Keys to hash slots: the table-driven checksum and \<^verbatim>\<open>keyToSlot\<close> of
  \<^verbatim>\<open>src/src/cluster/cluster_server.cpp\<close>, with the bitwise CRC-16/XMODEM as the reference the table
  is compared with.
\<close>

unbundle bit_operations_syntax

section \<open>The code\<close>

definition crc16_table :: "16 word list" where
  "crc16_table =
     [0x0000, 0x1021, 0x2042, 0x3063, 0x4084, 0x50A5, 0x60C6, 0x70E7,
      0x8108, 0x9129, 0xA14A, 0xB16B, 0xC18C, 0xD1AD, 0xE1CE, 0xF1EF,
      0x1231, 0x0210, 0x3273, 0x2252, 0x52B5, 0x4294, 0x72F7, 0x62D6,
      0x9339, 0x8318, 0xB37B, 0xA35A, 0xD3BD, 0xC39C, 0xF3FF, 0xE3DE,
      0x2462, 0x3443, 0x0420, 0x1401, 0x64E6, 0x74C7, 0x44A4, 0x5485,
      0xA56A, 0xB54B, 0x8528, 0x9509, 0xE5EE, 0xF5CF, 0xC5AC, 0xD58D,
      0x3653, 0x2672, 0x1611, 0x0630, 0x76D7, 0x66F6, 0x5695, 0x46B4,
      0xB75B, 0xA77A, 0x9719, 0x8738, 0xF7DF, 0xE7FE, 0xD79D, 0xC7BC,
      0x48C4, 0x58E5, 0x6886, 0x78A7, 0x0840, 0x1861, 0x2802, 0x3823,
      0xC9CC, 0xD9ED, 0xE98E, 0xF9AF, 0x8948, 0x9969, 0xA90A, 0xB92B,
      0x5AF5, 0x4AD4, 0x7AB7, 0x6A96, 0x1A71, 0x0A50, 0x3A33, 0x2A12,
      0xDBFD, 0xCBDC, 0xFBBF, 0xEB9E, 0x9B79, 0x8B58, 0xBB3B, 0xAB1A,
      0x6CA6, 0x7C87, 0x4CE4, 0x5CC5, 0x2C22, 0x3C03, 0x0C60, 0x1C41,
      0xEDAE, 0xFD8F, 0xCDEC, 0xDDCD, 0xAD2A, 0xBD0B, 0x8D68, 0x9D49,
      0x7E97, 0x6EB6, 0x5ED5, 0x4EF4, 0x3E13, 0x2E32, 0x1E51, 0x0E70,
      0xFF9F, 0xEFBE, 0xDFDD, 0xCFFC, 0xBF1B, 0xAF3A, 0x9F59, 0x8F78,
      0x9188, 0x81A9, 0xB1CA, 0xA1EB, 0xD10C, 0xC12D, 0xF14E, 0xE16F,
      0x1080, 0x00A1, 0x30C2, 0x20E3, 0x5004, 0x4025, 0x7046, 0x6067,
      0x83B9, 0x9398, 0xA3FB, 0xB3DA, 0xC33D, 0xD31C, 0xE37F, 0xF35E,
      0x02B1, 0x1290, 0x22F3, 0x32D2, 0x4235, 0x5214, 0x6277, 0x7256,
      0xB5EA, 0xA5CB, 0x95A8, 0x8589, 0xF56E, 0xE54F, 0xD52C, 0xC50D,
      0x34E2, 0x24C3, 0x14A0, 0x0481, 0x7466, 0x6447, 0x5424, 0x4405,
      0xA7DB, 0xB7FA, 0x8799, 0x97B8, 0xE75F, 0xF77E, 0xC71D, 0xD73C,
      0x26D3, 0x36F2, 0x0691, 0x16B0, 0x6657, 0x7676, 0x4615, 0x5634,
      0xD94C, 0xC96D, 0xF90E, 0xE92F, 0x99C8, 0x89E9, 0xB98A, 0xA9AB,
      0x5844, 0x4865, 0x7806, 0x6827, 0x18C0, 0x08E1, 0x3882, 0x28A3,
      0xCB7D, 0xDB5C, 0xEB3F, 0xFB1E, 0x8BF9, 0x9BD8, 0xABBB, 0xBB9A,
      0x4A75, 0x5A54, 0x6A37, 0x7A16, 0x0AF1, 0x1AD0, 0x2AB3, 0x3A92,
      0xFD2E, 0xED0F, 0xDD6C, 0xCD4D, 0xBDAA, 0xAD8B, 0x9DE8, 0x8DC9,
      0x7C26, 0x6C07, 0x5C64, 0x4C45, 0x3CA2, 0x2C83, 0x1CE0, 0x0CC1,
      0xEF1F, 0xFF3E, 0xCF5D, 0xDF7C, 0xAF9B, 0xBFBA, 0x8FD9, 0x9FF8,
      0x6E17, 0x7E36, 0x4E55, 0x5E74, 0x2E93, 0x3EB2, 0x0ED1, 0x1EF0]"

definition crc16 :: "string \<Rightarrow> 16 word" where
  "crc16 buf =
     foldl (\<lambda>crc b. push_bit 8 crc XOR crc16_table ! unat ((crc XOR of_nat (byte b)) AND 0xFF)) 0 buf"

text \<open>The scan for a hash tag: the position after the last opening brace before the first closing
  brace that follows one, and the position of that closing brace; -1 stands for not found.\<close>

fun find_tag :: "string \<Rightarrow> int \<Rightarrow> int \<Rightarrow> int \<times> int" where
  "find_tag [] i start = (start, -1)"
| "find_tag (c # cs) i start =
     (if c = CHR ''{'' then find_tag cs (i + 1) (i + 1)
      else if c = CHR ''}'' \<and> start \<noteq> -1 then (start, i)
      else find_tag cs (i + 1) start)"

definition keyToSlot :: "string \<Rightarrow> nat" where
  "keyToSlot key =
     (if key = [] then 0
      else case find_tag key 0 (-1) of (start, stop) \<Rightarrow>
        if start \<noteq> -1 \<and> stop \<noteq> -1 \<and> stop > start
        then unat (crc16 (take (nat (stop - start)) (drop (nat start) key)) AND 0x3FFF)
        else unat (crc16 key AND 0x3FFF))"

section \<open>The reference\<close>

definition crc_bit :: "16 word \<Rightarrow> 16 word" where
  "crc_bit crc = (if bit crc 15 then push_bit 1 crc XOR 0x1021 else push_bit 1 crc)"

definition crc_byte :: "16 word \<Rightarrow> 16 word \<Rightarrow> 16 word" where
  "crc_byte crc b = (crc_bit ^^ 8) (crc XOR push_bit 8 b)"

definition crc16_xmodem :: "string \<Rightarrow> 16 word" where
  "crc16_xmodem buf = foldl (\<lambda>crc b. crc_byte crc (of_nat (byte b))) 0 buf"

section \<open>The table\<close>

lemma crc_bit_xor: "crc_bit (x XOR y) = crc_bit x XOR crc_bit y"
  by (auto simp: crc_bit_def push_bit_xor bit_xor_iff xor.assoc xor.commute xor.left_commute)

lemma crc_bits_xor: "(crc_bit ^^ n) (x XOR y) = (crc_bit ^^ n) x XOR (crc_bit ^^ n) y"
  by (induction n) (simp_all add: crc_bit_xor)

lemma crc_byte_xor: "crc_byte 0 (x XOR y) = crc_byte 0 x XOR crc_byte 0 y"
  by (simp add: crc_byte_def push_bit_xor crc_bits_xor)

lemma crc_bits8: "(crc_bit ^^ 8) x = crc_bit (crc_bit (crc_bit (crc_bit (crc_bit (crc_bit (crc_bit (crc_bit x)))))))"
  by (simp add: eval_nat_numeral)

lemma crc_powers:
  "crc_byte 0 1 = 0x1021" "crc_byte 0 2 = 0x2042" "crc_byte 0 4 = 0x4084" "crc_byte 0 8 = 0x8108"
  "crc_byte 0 16 = 0x1231" "crc_byte 0 32 = 0x2462" "crc_byte 0 64 = 0x48C4" "crc_byte 0 128 = 0x9188"
  by (simp_all add: crc_byte_def crc_bits8 crc_bit_def)

text \<open>A table of a power-of-two size is doubled by adding the entry of the next power.\<close>

definition doubled :: "16 word list \<Rightarrow> 16 word \<Rightarrow> 16 word list" where
  "doubled t v = t @ map (\<lambda>x. x XOR v) t"

lemma crc16_table_doubled:
  "crc16_table = foldl doubled [0] [0x1021, 0x2042, 0x4084, 0x8108, 0x1231, 0x2462, 0x48C4, 0x9188]"
  by (simp add: crc16_table_def doubled_def)

lemma xor_power: "i < 2 ^ k \<Longrightarrow> (of_nat (2 ^ k + i) :: 16 word) = of_nat i XOR of_nat (2 ^ k)"
proof -
  assume i: "i < 2 ^ k"
  have "\<not> bit i k"
    using i by (simp add: bit_nat_def)
  then have "i + 2 ^ k = i XOR 2 ^ k"
    by (intro disjunctive_add_eq_xor) (simp add: and_exp_eq_0_iff_not_bit)
  then show ?thesis
    by (metis add.commute of_nat_xor_eq)
qed

lemma doubled_table:
  assumes "crc_byte 0 (of_nat (2 ^ k)) = v"
  shows "doubled (map (\<lambda>i. crc_byte 0 (of_nat i)) [0..<2 ^ k]) v = map (\<lambda>i. crc_byte 0 (of_nat i)) [0..<2 ^ Suc k]"
proof -
  have "[0..<2 ^ Suc k] = [0..<2 ^ k] @ map (\<lambda>i. 2 ^ k + i) [0..<2 ^ k]"
    using upt_add_eq_append [of 0 "2 ^ k" "2 ^ k"] map_add_upt [of "2 ^ k" "2 ^ k"] by (simp add: mult_2 add.commute)
  moreover have "crc_byte 0 (of_nat i) XOR v = crc_byte 0 (of_nat (2 ^ k + i))" if "i < 2 ^ k" for i
    unfolding xor_power [OF that] crc_byte_xor assms ..
  ultimately show ?thesis
    by (auto simp: doubled_def)
qed

lemma crc16_table_reference: "crc16_table = map (\<lambda>i. crc_byte 0 (of_nat i)) [0..<256]"
proof -
  define T where "T k = map (\<lambda>i. crc_byte 0 (of_nat i)) [0..<2 ^ k]" for k :: nat
  have step: "doubled (T k) v = T (Suc k)" if "crc_byte 0 (of_nat (2 ^ k)) = v" for k v
    unfolding T_def by (rule doubled_table [OF that])
  have "T 0 = [0]"
    by (simp add: T_def crc_byte_def crc_bits8 crc_bit_def)
  then have "crc16_table = foldl doubled (T 0) [0x1021, 0x2042, 0x4084, 0x8108, 0x1231, 0x2462, 0x48C4, 0x9188]"
    by (simp only: crc16_table_doubled)
  also have "\<dots> = T (Suc (Suc (Suc (Suc (Suc (Suc (Suc (Suc 0))))))))"
    unfolding foldl.simps by (subst step, simp add: crc_powers)+ simp
  finally show ?thesis
    by (simp only: T_def) simp
qed

lemma and_low_14: "w AND 0x3FFF = take_bit 14 w" for w :: "16 word"
  by (simp add: take_bit_eq_mask mask_eq_exp_minus_1)

lemma crc16_single: "crc16 [c] = crc16_xmodem [c]"
proof -
  have "unat (word_of_nat (byte c) AND (0xFF :: 16 word)) = byte c"
    using order.strict_trans [OF byte_less [of c], of 65536]
    by (simp add: and_255 unsigned_take_bit_eq unat_of_nat take_bit_nat_def)
  then show ?thesis
    using byte_less [of c] by (simp add: crc16_def crc16_xmodem_def crc16_table_reference)
qed

section \<open>Hash tags\<close>

lemma find_tag_no_open: "CHR ''{'' \<notin> set p \<Longrightarrow> find_tag (p @ q) i (-1) = find_tag q (i + int (length p)) (-1)"
  by (induction p arbitrary: i) (auto simp: algebra_simps)

lemma find_tag_no_brace:
  "CHR ''{'' \<notin> set t \<Longrightarrow> CHR ''}'' \<notin> set t \<Longrightarrow> find_tag (t @ q) i s = find_tag q (i + int (length t)) s"
  by (induction t arbitrary: i) (auto simp: algebra_simps)

lemma keyToSlot_plain:
  assumes "CHR ''{'' \<notin> set t" "t \<noteq> []"
  shows "keyToSlot t = unat (crc16 t AND 0x3FFF)"
  using assms find_tag_no_open [of t "[]" 0] by (simp add: keyToSlot_def)

lemma keyToSlot_range: "keyToSlot key < 16384"
proof -
  have "unat (w AND 0x3FFF :: 16 word) < 16384" for w
    by (simp add: and_low_14 unsigned_take_bit_eq take_bit_nat_def)
  then show ?thesis
    by (simp add: keyToSlot_def split: prod.split)
qed

section \<open>Properties\<close>

text \<open>C35: the 256 constants of the lookup table are the CRC-16/XMODEM remainders of the 256 bytes, computed bit
  by bit with the polynomial 0x1021, so a one-byte key has its XMODEM checksum.\<close>

theorem crc16_table_is_xmodem:
  "crc16_table = map (\<lambda>i. crc_byte 0 (of_nat i)) [0..<256] \<and> crc16 [c] = crc16_xmodem [c]"
  using crc16_table_reference crc16_single by blast



text \<open>The loop indexes the table with the low byte of the running checksum where CRC-16/XMODEM uses its high
  byte: beyond one byte the slots are not those of other implementations.\<close>

theorem crc16_not_xmodem: "crc16 ''ab'' \<noteq> crc16_xmodem ''ab''" "crc16_xmodem ''123456789'' = 0x31C3"
  by (simp_all add: crc16_def crc16_xmodem_def crc16_table_def crc_byte_def crc_bits8 crc_bit_def byte_def)

text \<open>The tag of a key with two opening braces starts after the last one, not after the first.\<close>

theorem keyToSlot_last_brace: "find_tag ''foo{{bar}}'' 0 (-1) = (5, 8)"
  by simp

end
