(* ===== verification/CC_Bus.thy ===== *)
theory CC_Bus
  imports CC_Memory
begin

text \<open>
  The cluster bus of \<^verbatim>\<open>src/src/cluster/cluster_link.cpp\<close>: the framing of messages between the
  nodes, the reading loop of a link with its protection against dripped frames, the gossip entries
  carried as arguments, and the request tags and sender checks of \<^verbatim>\<open>cluster_connection.cpp\<close>.
  The send and receive buffers are byte strings: theory \<^verbatim>\<open>CC_Buffer\<close> shows that \<^verbatim>\<open>Buffer\<close>
  is a byte queue.
\<close>

unbundle bit_operations_syntax

section \<open>Argument frames\<close>

fun decimal_digits :: "nat \<Rightarrow> nat" where
  "decimal_digits v = (if v \<ge> 10 then decimal_digits (v div 10) + 1 else 1)"

declare decimal_digits.simps [simp del]

definition kMaxArgsPerFrame :: nat where
  "kMaxArgsPerFrame = 1048576"

definition bus_args_frame_bytes :: "string list \<Rightarrow> nat" where
  "bus_args_frame_bytes args =
     foldl (\<lambda>n arg. n + (decimal_digits (length arg) + 1 + length arg)) (decimal_digits (length args) + 1) args"

definition bus_args_encode :: "string list \<Rightarrow> string" where
  "bus_args_encode args =
     foldl (\<lambda>out arg. out @ to_dec (length arg) @ [LF] @ arg) (to_dec (length args) @ [LF]) args"

definition read_field :: "string \<Rightarrow> string \<Rightarrow> string + nat \<times> string" where
  "read_field what s =
     (let digits = takeWhile (\<lambda>c. c \<noteq> LF) s; rest = dropWhile (\<lambda>c. c \<noteq> LF) s in
      if rest = [] then Inl (''no newline terminating '' @ what)
      else if length digits = 0 \<or> length digits > 10 then Inl (''bad width of '' @ what)
      else if \<not> list_all is_digit digits then Inl (''non-digit in '' @ what)
      else Inr (dec_val digits, tl rest))"

primrec decode_args :: "nat \<Rightarrow> string \<Rightarrow> string list \<Rightarrow> string + string list \<times> string" where
  "decode_args 0 s out = Inr (out, s)"
| "decode_args (Suc n) s out =
     (case read_field ''arg length'' s of
        Inl err \<Rightarrow> Inl err
      | Inr (arg_len, rest) \<Rightarrow>
          if arg_len > length rest then Inl ''arg length exceeds remaining frame bytes''
          else decode_args n (drop arg_len rest) (out @ [take arg_len rest]))"

definition bus_args_decode :: "string \<Rightarrow> string + string list" where
  "bus_args_decode s =
     (case read_field ''arg count'' s of
        Inl err \<Rightarrow> Inl err
      | Inr (count, rest) \<Rightarrow>
          if count > kMaxArgsPerFrame \<or> count > length s then Inl ''implausible arg count''
          else case decode_args count rest [] of
                 Inl err \<Rightarrow> Inl err
               | Inr (out, left) \<Rightarrow> if left \<noteq> [] then Inl ''trailing bytes after last arg'' else Inr out)"

definition bus_args_decode_legacy :: "string \<Rightarrow> string list" where
  "bus_args_decode_legacy s =
     (let (out, current) =
        foldl (\<lambda>(out, current) c. if byte c = 0xC0 then (out @ [current], []) else (out, current @ [c])) ([], []) s
      in if current \<noteq> [] then out @ [current] else out)"

section \<open>Messages\<close>

record ClusterMsgHeader =
  hdr_magic :: "32 word"
  hdr_version :: "16 word"
  hdr_type :: "16 word"
  hdr_length :: "32 word"
  hdr_sender_epoch :: "64 word"
  hdr_sender_name :: string
  hdr_flags :: "16 word"
  hdr_port :: "16 word"
  hdr_state :: "32 word"
  hdr_slot_map :: string

record ClusterMsg =
  msg_header :: ClusterMsgHeader
  msg_args :: "string list"

datatype ClusterMsgType =
  kPing | kPong | kMeet | kMail | kFail | kPublish | kFailoverAuthReq | kFailoverAuthAck | kUpdate | kRepData | kPush

fun msg_type :: "ClusterMsgType \<Rightarrow> 16 word" where
  "msg_type kPing = 1"
| "msg_type kPong = 2"
| "msg_type kMeet = 3"
| "msg_type kMail = 4"
| "msg_type kFail = 5"
| "msg_type kPublish = 6"
| "msg_type kFailoverAuthReq = 7"
| "msg_type kFailoverAuthAck = 8"
| "msg_type kUpdate = 9"
| "msg_type kRepData = 10"
| "msg_type kPush = 11"

definition kBusFramingVersion :: "16 word" where "kBusFramingVersion = 2"
definition kBusFramingLegacyVersion :: "16 word" where "kBusFramingLegacyVersion = 1"
definition kMsgMagic :: "32 word" where "kMsgMagic = 0x43"
definition kMaxPacketBytes :: "32 word" where "kMaxPacketBytes = 268435456"

text \<open>The size of the header with the four bytes of padding in front of the 64-bit epoch.\<close>

definition kHeaderSize :: nat where "kHeaderSize = 2120"

definition NUL :: char where
  "NUL = char_of (0 :: nat)"

definition new_ClusterMsg :: ClusterMsg where
  "new_ClusterMsg = \<lparr>msg_header = \<lparr>hdr_magic = 0x43, hdr_version = kBusFramingVersion, hdr_type = 0, hdr_length = 0,
     hdr_sender_epoch = 0, hdr_sender_name = replicate 40 NUL, hdr_flags = 0, hdr_port = 0, hdr_state = 0,
     hdr_slot_map = replicate 2048 NUL\<rparr>, msg_args = []\<rparr>"

definition header_bytes :: "ClusterMsgHeader \<Rightarrow> string" where
  "header_bytes h =
     mem_bytes 4 (hdr_magic h) @ mem_bytes 2 (hdr_version h) @ mem_bytes 2 (hdr_type h) @ mem_bytes 4 (hdr_length h) @
     replicate 4 NUL @ mem_bytes 8 (hdr_sender_epoch h) @ hdr_sender_name h @ mem_bytes 2 (hdr_flags h) @
     mem_bytes 2 (hdr_port h) @ mem_bytes 4 (hdr_state h) @ hdr_slot_map h"

definition field :: "nat \<Rightarrow> nat \<Rightarrow> string \<Rightarrow> string" where
  "field offset n s = take n (drop offset s)"

definition read_header :: "string \<Rightarrow> ClusterMsgHeader" where
  "read_header s = \<lparr>hdr_magic = mem_word (field 0 4 s), hdr_version = mem_word (field 4 2 s),
     hdr_type = mem_word (field 6 2 s), hdr_length = mem_word (field 8 4 s), hdr_sender_epoch = mem_word (field 16 8 s),
     hdr_sender_name = field 24 40 s, hdr_flags = mem_word (field 64 2 s), hdr_port = mem_word (field 66 2 s),
     hdr_state = mem_word (field 68 4 s), hdr_slot_map = field 72 2048 s\<rparr>"

text \<open>A C string is read up to its first null byte; \<^verbatim>\<open>snprintf\<close> and \<^verbatim>\<open>strncpy\<close> into the
  forty bytes of the name.\<close>

definition c_str :: "string \<Rightarrow> string" where
  "c_str s = takeWhile (\<lambda>c. c \<noteq> NUL) s"

definition snprintf_name :: "string \<Rightarrow> string \<Rightarrow> string" where
  "snprintf_name name old = (let s = take 39 (c_str name) in s @ [NUL] @ drop (length s + 1) old)"

definition strncpy_name :: "string \<Rightarrow> string \<Rightarrow> string" where
  "strncpy_name name old = (let s = take 39 (c_str name) in s @ replicate (39 - length s) NUL @ drop 39 old)"

section \<open>Links\<close>

record ClusterLink =
  link_node_name :: string
  link_ip :: string
  link_port :: int
  link_connected :: bool
  last_recv_time :: int
  send_buffer :: string
  recv_buffer :: string
  frame_invalid :: bool
  partial_frame_since_ms :: "64 word"
  partial_frame_bytes :: nat
  partial_frame_declared :: "32 word"

definition new_ClusterLink :: "string \<Rightarrow> string \<Rightarrow> int \<Rightarrow> ClusterLink" where
  "new_ClusterLink name addr p = \<lparr>link_node_name = name, link_ip = addr, link_port = p, link_connected = False,
     last_recv_time = 0, send_buffer = [], recv_buffer = [], frame_invalid = False, partial_frame_since_ms = 0,
     partial_frame_bytes = 0, partial_frame_declared = 0\<rparr>"

text \<open>\<open>my_name\<close> is the name of the sending node; the result says whether the frame was queued.\<close>

definition send_header :: "string \<Rightarrow> ClusterMsg \<Rightarrow> ClusterMsgHeader" where
  "send_header my_name msg =
     (let h = msg_header msg;
          h = (if hdr_sender_name h ! 0 = NUL \<and> my_name \<noteq> []
               then h\<lparr>hdr_sender_name := snprintf_name my_name (hdr_sender_name h)\<rparr> else h)
      in h\<lparr>hdr_length := of_nat (kHeaderSize + bus_args_frame_bytes (msg_args msg)), hdr_version := kBusFramingVersion\<rparr>)"

definition send_msg :: "string \<Rightarrow> ClusterMsg \<Rightarrow> ClusterLink \<Rightarrow> bool \<times> ClusterLink" where
  "send_msg my_name msg l =
     (if \<not> link_connected l then (False, l)
      else if kHeaderSize + bus_args_frame_bytes (msg_args msg) > unat kMaxPacketBytes then (False, l)
      else (True, l\<lparr>send_buffer := (send_buffer l @ header_bytes (send_header my_name msg)) @ bus_args_encode (msg_args msg)\<rparr>))"

definition typed_msg :: "ClusterMsgType \<Rightarrow> string list \<Rightarrow> ClusterMsg" where
  "typed_msg t args =
     new_ClusterMsg\<lparr>msg_header := (msg_header new_ClusterMsg)\<lparr>hdr_type := msg_type t\<rparr>, msg_args := args\<rparr>"

definition send_ping :: "string \<Rightarrow> ClusterLink \<Rightarrow> bool \<times> ClusterLink" where
  "send_ping my_name l = send_msg my_name (typed_msg kPing []) l"

definition send_pong :: "string \<Rightarrow> ClusterLink \<Rightarrow> bool \<times> ClusterLink" where
  "send_pong my_name l = send_msg my_name (typed_msg kPong []) l"

definition send_meet :: "string \<Rightarrow> string \<Rightarrow> int \<Rightarrow> ClusterLink \<Rightarrow> bool \<times> ClusterLink" where
  "send_meet my_name my_ip my_port l = send_msg my_name (typed_msg kMeet [my_ip, to_string my_port]) l"

definition send_raw :: "string \<Rightarrow> ClusterLink \<Rightarrow> bool \<times> ClusterLink" where
  "send_raw data l = (if \<not> link_connected l then (False, l) else (True, l\<lparr>send_buffer := send_buffer l @ data\<rparr>))"

text \<open>Closing a link; the flag says whether the owner of the link is notified.\<close>

definition disconnect :: "ClusterLink \<Rightarrow> ClusterLink" where
  "disconnect l = (if link_connected l then l\<lparr>link_connected := False\<rparr> else l)"

definition disconnect_and_notify :: "ClusterLink \<Rightarrow> bool \<times> ClusterLink" where
  "disconnect_and_notify l = (if link_connected l then (True, l\<lparr>link_connected := False\<rparr>) else (False, l))"

text \<open>Skipping foreign bytes: the suffix from the next position at which a whole header with the magic
  number starts.\<close>

primrec skip_foreign :: "string \<Rightarrow> string" where
  "skip_foreign [] = []"
| "skip_foreign (c # cs) =
     (if byte c = 0x43 \<and> kHeaderSize \<le> length (c # cs) \<and> mem_word (field 0 4 (c # cs)) = kMsgMagic then c # cs
      else skip_foreign cs)"

definition read_complete :: "ClusterLink \<Rightarrow> bool \<times> ClusterLink" where
  "read_complete l =
     (let s = recv_buffer l in
      if length s < kHeaderSize then (False, l)
      else if mem_word (field 0 4 s) \<noteq> kMsgMagic then (False, l\<lparr>recv_buffer := skip_foreign s\<rparr>)
      else let msg_len = mem_word (field 8 4 s) :: 32 word in
        if unat msg_len < kHeaderSize then (False, l\<lparr>frame_invalid := True\<rparr>)
        else if msg_len > kMaxPacketBytes then (False, l\<lparr>frame_invalid := True\<rparr>)
        else (length s \<ge> unat msg_len, l))"

text \<open>Decoding one message: nothing for a frame that cannot be decoded.  The message is handed to the
  callback of the link.\<close>

definition decode_msg :: "ClusterLink \<Rightarrow> ClusterMsg option \<times> ClusterLink" where
  "decode_msg l =
     (case read_complete l of (complete, l) \<Rightarrow>
        if \<not> complete then (None, l)
        else let s = recv_buffer l; h = read_header s; len = unat (hdr_length h) in
          if len < kHeaderSize then (None, l)
          else let args = field kHeaderSize (len - kHeaderSize) s in
            if hdr_version h = kBusFramingVersion
            then (case bus_args_decode args of
                    Inl err \<Rightarrow> (None, l)
                  | Inr out \<Rightarrow> (Some \<lparr>msg_header = h, msg_args = out\<rparr>, l\<lparr>recv_buffer := drop len s\<rparr>))
            else if hdr_version h = kBusFramingLegacyVersion
            then (Some \<lparr>msg_header = h, msg_args = bus_args_decode_legacy args\<rparr>, l\<lparr>recv_buffer := drop len s\<rparr>)
            else (None, l))"

text \<open>The loop over the complete frames in the receive buffer.  The result says whether the link is to be
  closed, and lists the messages in the order in which they were delivered.\<close>

partial_function (option) read_loop :: "ClusterMsg list \<Rightarrow> ClusterLink \<Rightarrow> (bool \<times> ClusterMsg list \<times> ClusterLink) option" where
  "read_loop msgs l =
     (if frame_invalid l then Some (False, msgs, l)
      else case read_complete l of (complete, l) \<Rightarrow>
        if \<not> complete then Some (False, msgs, l)
        else case decode_msg l of
               (None, l) \<Rightarrow> Some (True, msgs, l)
             | (Some msg, l) \<Rightarrow> read_loop (msgs @ [msg]) l)"

definition kPartialFrameGraceMs :: "64 word" where "kPartialFrameGraceMs = 10000"
definition kPartialFrameMinBytesPerSec :: "64 word" where "kPartialFrameMinBytesPerSec = 1048576"

definition reset_partial_frame_accounting :: "ClusterLink \<Rightarrow> ClusterLink" where
  "reset_partial_frame_accounting l =
     l\<lparr>partial_frame_since_ms := 0, partial_frame_bytes := 0, partial_frame_declared := 0\<rparr>"

definition partial_frame_limit :: "32 word \<Rightarrow> 64 word" where
  "partial_frame_limit declared = kPartialFrameGraceMs + (ucast declared div kPartialFrameMinBytesPerSec) * 1000"

definition partial_frame_expired :: "32 word \<Rightarrow> nat \<Rightarrow> 64 word \<Rightarrow> ClusterLink \<Rightarrow> bool \<times> ClusterLink" where
  "partial_frame_expired declared buffered now_ms l =
     (if declared = 0 then (False, reset_partial_frame_accounting l)
      else if partial_frame_since_ms l = 0 \<or> declared \<noteq> partial_frame_declared l \<or> buffered < partial_frame_bytes l
      then (False, l\<lparr>partial_frame_since_ms := now_ms, partial_frame_bytes := buffered, partial_frame_declared := declared\<rparr>)
      else (now_ms - partial_frame_since_ms l \<ge> partial_frame_limit declared, l\<lparr>partial_frame_bytes := buffered\<rparr>))"

text \<open>The declared length of the frame that waits for more bytes; zero when none waits.\<close>

definition pending_frame :: "string \<Rightarrow> 32 word" where
  "pending_frame s =
     (if length s \<ge> kHeaderSize
      then if mem_word (field 0 4 s) = kMsgMagic \<and> unat (mem_word (field 8 4 s) :: 32 word) > length s
           then mem_word (field 8 4 s) else 0
      else if length s > 0 then of_nat kHeaderSize else 0)"

text \<open>The outcome of \<^verbatim>\<open>recv\<close> on the socket.\<close>

datatype recv_result = Received string | Peer_closed | Would_block | Recv_error

definition handle_read :: "int \<Rightarrow> recv_result \<Rightarrow> ClusterLink \<Rightarrow> (bool \<times> ClusterMsg list \<times> ClusterLink) option" where
  "handle_read now_ms n l =
     (if \<not> link_connected l then Some (False, [], l)
      else case n of
        Received buf \<Rightarrow>
          (case read_loop [] (l\<lparr>recv_buffer := recv_buffer l @ buf, last_recv_time := now_ms\<rparr>) of
             None \<Rightarrow> None
           | Some (bad, msgs, l) \<Rightarrow>
               if bad \<or> frame_invalid l \<or> length (recv_buffer l) > unat kMaxPacketBytes
               then (case disconnect_and_notify l of (notify, l) \<Rightarrow> Some (notify, msgs, l))
               else case partial_frame_expired (pending_frame (recv_buffer l)) (length (recv_buffer l)) (of_int now_ms) l of
                      (expired, l) \<Rightarrow>
                        if expired then (case disconnect_and_notify l of (notify, l) \<Rightarrow> Some (notify, msgs, l))
                        else Some (False, msgs, l))
      | Peer_closed \<Rightarrow> (case disconnect_and_notify l of (notify, l) \<Rightarrow> Some (notify, [], l))
      | Would_block \<Rightarrow> Some (False, [], l)
      | Recv_error \<Rightarrow> (case disconnect_and_notify l of (notify, l) \<Rightarrow> Some (notify, [], l)))"

text \<open>The outcomes of the successive \<^verbatim>\<open>send\<close> calls: a number of bytes, or an error.\<close>

datatype send_result = Sent nat | Send_would_block | Send_error

fun write_loop :: "send_result list \<Rightarrow> string \<Rightarrow> bool \<times> string" where
  "write_loop (Sent n # rs) s = (if s = [] then (False, s) else if n > 0 then write_loop rs (drop n s) else (True, s))"
| "write_loop (Send_error # rs) s = (if s = [] then (False, s) else (True, s))"
| "write_loop (Send_would_block # rs) s = (False, s)"
| "write_loop [] s = (False, s)"

definition handle_write :: "send_result list \<Rightarrow> ClusterLink \<Rightarrow> bool \<times> ClusterLink" where
  "handle_write rs l =
     (if \<not> link_connected l then (False, l)
      else case write_loop rs (send_buffer l) of (need_disconnect, s) \<Rightarrow>
        if need_disconnect then disconnect_and_notify (l\<lparr>send_buffer := s\<rparr>) else (False, l\<lparr>send_buffer := s\<rparr>))"

definition handle_error :: "ClusterLink \<Rightarrow> bool \<times> ClusterLink" where
  "handle_error l = disconnect_and_notify l"

section \<open>Gossip\<close>

datatype GossipType = gPing | gPong | gMeet | gFail | gFailoverAuthReq | gFailoverAuthAck | gPush | gPull

record GossipNodeInfo =
  gi_name :: string
  gi_ip :: string
  gi_port :: "16 word"
  gi_flags :: "16 word"
  gi_epoch :: "64 word"
  gi_state :: "32 word"
  gi_role :: "8 word"
  gi_slot_count :: "16 word"
  gi_used_slot :: "16 word list"
  gi_failover_offset :: int

definition new_GossipNodeInfo :: GossipNodeInfo where
  "new_GossipNodeInfo = \<lparr>gi_name = [], gi_ip = [], gi_port = 0, gi_flags = 0, gi_epoch = 0, gi_state = 0, gi_role = 0,
     gi_slot_count = 0, gi_used_slot = [], gi_failover_offset = 0\<rparr>"

record GossipMsg =
  gm_type :: GossipType
  gm_sender_epoch :: "64 word"
  gm_sender_name :: string
  gm_nodes :: "GossipNodeInfo list"

fun gossip_msg_type :: "GossipType \<Rightarrow> ClusterMsgType" where
  "gossip_msg_type gPing = kPing"
| "gossip_msg_type gPong = kPong"
| "gossip_msg_type gMeet = kMeet"
| "gossip_msg_type gFail = kFail"
| "gossip_msg_type gFailoverAuthReq = kFailoverAuthReq"
| "gossip_msg_type gFailoverAuthAck = kFailoverAuthAck"
| "gossip_msg_type gPush = kUpdate"
| "gossip_msg_type gPull = kMail"

definition gossip_entry :: "GossipNodeInfo \<Rightarrow> string" where
  "gossip_entry n =
     gi_name n @ '','' @ gi_ip n @ '','' @ to_string (uint (gi_port n)) @ '','' @ to_string (uint (gi_flags n)) @ '','' @
     to_string (uint (gi_role n)) @
     (if gi_failover_offset n \<noteq> 0 then '','' @ to_string (gi_failover_offset n) else [])"

definition gossip_cluster_msg :: "GossipMsg \<Rightarrow> ClusterMsg" where
  "gossip_cluster_msg g =
     (let h = msg_header new_ClusterMsg in
      \<lparr>msg_header = h\<lparr>hdr_type := msg_type (gossip_msg_type (gm_type g)), hdr_sender_epoch := gm_sender_epoch g,
          hdr_sender_name := strncpy_name (gm_sender_name g) (hdr_sender_name h)\<rparr>,
       msg_args = map gossip_entry (gm_nodes g)\<rparr>)"

definition send_gossip :: "string \<Rightarrow> GossipMsg \<Rightarrow> ClusterLink \<Rightarrow> bool \<times> ClusterLink" where
  "send_gossip my_name g l = send_msg my_name (gossip_cluster_msg g) l"

text \<open>\<^verbatim>\<open>std::getline\<close> with the delimiter ',' on a string stream.\<close>

definition getline :: "string \<Rightarrow> (string \<times> string) option" where
  "getline s =
     (if s = [] then None
      else Some (takeWhile (\<lambda>c. c \<noteq> CHR '','') s, drop 1 (dropWhile (\<lambda>c. c \<noteq> CHR '','') s)))"

definition parse_int_field :: "string \<Rightarrow> int option" where
  "parse_int_field s =
     (if s = [] then None
      else case stoll s of Inl e \<Rightarrow> None | Inr (v, idx) \<Rightarrow> if idx = length s then Some v else None)"

definition parse_gossip_entry :: "string \<Rightarrow> GossipNodeInfo option" where
  "parse_gossip_entry arg =
     (case getline arg of None \<Rightarrow> None | Some (node_name, ss) \<Rightarrow>
      case getline ss of None \<Rightarrow> None | Some (addr, ss) \<Rightarrow>
      case getline ss of None \<Rightarrow> None | Some (port_str, ss) \<Rightarrow>
      case getline ss of None \<Rightarrow> None | Some (flags_str, ss) \<Rightarrow>
      case getline ss of None \<Rightarrow> None | Some (role_str, ss) \<Rightarrow>
      case parse_int_field port_str of None \<Rightarrow> None | Some p \<Rightarrow>
      case parse_int_field flags_str of None \<Rightarrow> None | Some f \<Rightarrow>
      case parse_int_field role_str of None \<Rightarrow> None | Some r \<Rightarrow>
      let info = new_GossipNodeInfo\<lparr>gi_name := node_name, gi_ip := addr, gi_port := of_int p, gi_flags := of_int f,
                   gi_role := of_int r\<rparr> in
      Some (case getline ss of
              None \<Rightarrow> info
            | Some (offset_str, ss) \<Rightarrow>
                (case parse_int_field offset_str of None \<Rightarrow> info | Some off \<Rightarrow> info\<lparr>gi_failover_offset := off\<rparr>)))"

section \<open>Request tags and sender checks\<close>

definition stoull :: "string \<Rightarrow> (nat \<times> nat) option" where
  "stoull s =
     (let sp = takeWhile is_space s; r = dropWhile is_space s;
          neg = (r \<noteq> [] \<and> hd r = CHR ''-'');
          signed = (r \<noteq> [] \<and> (hd r = CHR ''-'' \<or> hd r = CHR ''+''));
          body = (if signed then tl r else r);
          ds = takeWhile is_digit body
      in if ds = [] then None
         else if dec_val ds \<ge> 2 ^ 64 then None
         else Some (if neg then nat ((- int (dec_val ds)) mod 2 ^ 64) else dec_val ds,
                    length sp + (if signed then 1 else 0) + length ds))"

definition parse_bus_tagged :: "string \<Rightarrow> string \<Rightarrow> (nat \<times> string) option" where
  "parse_bus_tagged text prefix =
     (if length text \<le> length prefix \<or> take (length prefix) text \<noteq> prefix then None
      else let r = drop (length prefix) text; id_text = takeWhile (\<lambda>c. c \<noteq> CHR '' '') r;
               after = dropWhile (\<lambda>c. c \<noteq> CHR '' '') r in
        if after = [] then None
        else case stoull id_text of
               None \<Rightarrow> None
             | Some (n, consumed) \<Rightarrow> if consumed \<noteq> length id_text then None else Some (n, tl after))"

datatype BusNameShape = kLiteralAddress | kHostname | kMalformed

fun classify_chars :: "string \<Rightarrow> bool \<Rightarrow> bool \<Rightarrow> BusNameShape" where
  "classify_chars [] sep letter = (if letter then kHostname else if sep then kLiteralAddress else kMalformed)"
| "classify_chars (c # cs) sep letter =
     (if is_digit c then classify_chars cs sep letter
      else if c = CHR ''.'' \<or> c = CHR '':'' then classify_chars cs True letter
      else if (97 \<le> byte c \<and> byte c \<le> 102) \<or> (65 \<le> byte c \<and> byte c \<le> 70) then classify_chars cs sep letter
      else if c = CHR ''-'' \<or> (103 \<le> byte c \<and> byte c \<le> 122) \<or> (71 \<le> byte c \<and> byte c \<le> 90)
      then classify_chars cs sep True
      else kMalformed)"

definition classify_bus_name :: "string \<Rightarrow> BusNameShape" where
  "classify_bus_name s = (if s = [] then kMalformed else classify_chars s False False)"

datatype BusMsgPlane = kControl | kData

definition bus_sender_identity_accepted :: "string \<Rightarrow> string \<Rightarrow> bool \<Rightarrow> BusMsgPlane \<Rightarrow> bool" where
  "bus_sender_identity_accepted claimed_ip observed_ip sender_is_known_member plane =
     (if claimed_ip = [] \<or> observed_ip = [] then False
      else if plane = kData then sender_is_known_member \<and> classify_bus_name claimed_ip \<noteq> kMalformed
      else let claimed = classify_bus_name claimed_ip; observed = classify_bus_name observed_ip in
        if claimed = kMalformed \<or> observed = kMalformed then False
        else if claimed = kLiteralAddress \<and> observed = kLiteralAddress then claimed_ip = observed_ip
        else True)"

end
