(* ===== verification/CC_Bus_Facts.thy ===== *)
theory CC_Bus_Facts
  imports CC_Bus
begin

text \<open>
  Correctness of the bus: every stream of sent frames is decoded to the messages sent, however the
  bytes are cut into reads; the reading loop ends on every input; a dripped frame is given up in
  bounded time; and what a gossip entry keeps of the node it describes.
\<close>

unbundle bit_operations_syntax

section \<open>Argument frames\<close>

lemma decimal_digits_to_dec: "decimal_digits n = length (to_dec n)"
proof (induction n rule: decimal_digits.induct)
  case (1 n)
  then show ?case
    by (subst decimal_digits.simps, subst to_dec.simps) auto
qed

lemma width_to_dec: "n < 10 ^ k \<Longrightarrow> 0 < k \<Longrightarrow> length (to_dec n) \<le> k"
proof (induction n arbitrary: k rule: to_dec.induct)
  case (1 n)
  show ?case
  proof (cases "n < 10")
    case False
    obtain j where k: "k = Suc j"
      using 1(3) by (cases k) auto
    have "0 < j"
      using 1(2) False k by (cases j) auto
    note j = k this
    have "n div 10 < 10 ^ j"
      using 1(2) j by (simp add: less_mult_imp_div_less mult.commute)
    then show ?thesis
      using 1(1) [OF False _ j(2)] False j by (subst to_dec.simps) simp
  qed (use 1(3) in \<open>subst to_dec.simps, simp\<close>)
qed

abbreviation arg_frame :: "string \<Rightarrow> string" where
  "arg_frame arg \<equiv> to_dec (length arg) @ LF # arg"

lemma bus_args_encode_alt: "bus_args_encode args = to_dec (length args) @ LF # concat (map arg_frame args)"
proof -
  have "foldl (\<lambda>out arg. out @ to_dec (length arg) @ [LF] @ arg) out as = out @ concat (map arg_frame as)" for out as
    by (induction as arbitrary: out) simp_all
  then show ?thesis
    by (simp add: bus_args_encode_def)
qed

lemma length_bus_args_encode: "length (bus_args_encode args) = bus_args_frame_bytes args"
proof -
  have "foldl (\<lambda>n arg. n + (decimal_digits (length arg) + 1 + length arg)) n as = n + length (concat (map arg_frame as))" for n as
    by (induction as arbitrary: n) (simp_all add: decimal_digits_to_dec)
  then show ?thesis
    by (simp add: bus_args_frame_bytes_def bus_args_encode_alt decimal_digits_to_dec)
qed

lemma read_field_dec [codec]:
  assumes "n < 10000000000"
  shows "read_field what (to_dec n @ LF # r) = Inr (n, r)"
proof -
  have "\<forall>c \<in> set (to_dec n). c \<noteq> LF"
    using to_dec_digits [of n] by (auto simp: list_all_iff)
  then have "takeWhile (\<lambda>c. c \<noteq> LF) (to_dec n @ LF # r) = to_dec n" "dropWhile (\<lambda>c. c \<noteq> LF) (to_dec n @ LF # r) = LF # r"
    by simp_all
  then show ?thesis
    using width_to_dec [of n 10] assms by (simp add: read_field_def Let_def)
qed

lemma decode_args_frames [codec]:
  "list_all (\<lambda>a. length a < 10000000000) args \<Longrightarrow>
   decode_args (length args) (concat (map arg_frame args) @ r) out = Inr (out @ args, r)"
  by (induction args arbitrary: out) (simp_all add: codec)

lemma length_le_frames: "length args \<le> length (concat (map arg_frame args))"
  by (induction args) auto

lemma bus_args_decode_encode [codec]:
  assumes "bus_args_frame_bytes args \<le> 268435456" "length args \<le> kMaxArgsPerFrame"
  shows "bus_args_decode (bus_args_encode args) = Inr args"
proof -
  have "length a \<le> length (concat (map arg_frame args))" if "a \<in> set args" for a
    using that by (induction args) auto
  then have "list_all (\<lambda>a. length a < 10000000000) args"
    using assms(1) unfolding length_bus_args_encode [symmetric] bus_args_encode_alt list_all_iff by fastforce
  moreover have "length args < 10000000000"
    using assms(2) by (simp add: kMaxArgsPerFrame_def)
  ultimately show ?thesis
    using assms(2) length_le_frames [of args] decode_args_frames [of args "[]" "[]"]
    by (simp add: bus_args_decode_def bus_args_encode_alt codec)
qed

section \<open>Headers\<close>

definition header_ok :: "ClusterMsgHeader \<Rightarrow> bool" where
  "header_ok h \<longleftrightarrow> length (hdr_sender_name h) = 40 \<and> length (hdr_slot_map h) = 2048"

lemma length_header_bytes: "header_ok h \<Longrightarrow> length (header_bytes h) = kHeaderSize"
  by (simp add: header_bytes_def header_ok_def kHeaderSize_def)

lemma read_header_bytes: "header_ok h \<Longrightarrow> read_header (header_bytes h @ r) = h"
  by (simp add: read_header_def header_bytes_def header_ok_def field_def mem_word_bytes)

section \<open>Frames\<close>

definition frame :: "string \<Rightarrow> ClusterMsg \<Rightarrow> string" where
  "frame me m = header_bytes (send_header me m) @ bus_args_encode (msg_args m)"

definition received :: "string \<Rightarrow> ClusterMsg \<Rightarrow> ClusterMsg" where
  "received me m = \<lparr>msg_header = send_header me m, msg_args = msg_args m\<rparr>"

definition sendable_msg :: "ClusterMsg \<Rightarrow> bool" where
  "sendable_msg m \<longleftrightarrow> header_ok (msg_header m) \<and> hdr_magic (msg_header m) = kMsgMagic \<and>
     kHeaderSize + bus_args_frame_bytes (msg_args m) \<le> unat kMaxPacketBytes \<and> length (msg_args m) \<le> kMaxArgsPerFrame"

lemma max_packet [simp]: "unat kMaxPacketBytes = 268435456"
  by (simp add: kMaxPacketBytes_def)

lemma header_ok_send: "header_ok (msg_header m) \<Longrightarrow> header_ok (send_header me m)"
  by (auto simp: send_header_def header_ok_def snprintf_name_def Let_def)

lemma send_header_fields [simp]:
  "hdr_magic (send_header me m) = hdr_magic (msg_header m)"
  "hdr_version (send_header me m) = kBusFramingVersion"
  "hdr_length (send_header me m) = of_nat (kHeaderSize + bus_args_frame_bytes (msg_args m))"
  by (simp_all add: send_header_def Let_def)

lemma send_length:
  "sendable_msg m \<Longrightarrow> unat (hdr_length (send_header me m)) = kHeaderSize + bus_args_frame_bytes (msg_args m)"
  by (simp add: sendable_msg_def unat_of_nat kHeaderSize_def del: of_nat_add)

lemma length_frame: "sendable_msg m \<Longrightarrow> length (frame me m) = kHeaderSize + bus_args_frame_bytes (msg_args m)"
  by (simp add: frame_def length_header_bytes header_ok_send length_bus_args_encode sendable_msg_def)

lemma frame_fields:
  assumes "sendable_msg m"
  shows "mem_word (field 0 4 (frame me m @ r)) = kMsgMagic"
    "mem_word (field 8 4 (frame me m @ r)) = hdr_length (send_header me m)"
  using assms read_header_bytes [of "send_header me m" "bus_args_encode (msg_args m) @ r"]
  by (auto simp: frame_def sendable_msg_def header_ok_send read_header_def dest: arg_cong [of _ _ hdr_magic] arg_cong [of _ _ hdr_length])

lemma send_msg_frame:
  "sendable_msg m \<Longrightarrow> link_connected l \<Longrightarrow> send_msg me m l = (True, l\<lparr>send_buffer := send_buffer l @ frame me m\<rparr>)"
  by (simp add: send_msg_def frame_def sendable_msg_def)

lemma read_complete_frame:
  assumes "sendable_msg m" "recv_buffer l = frame me m @ r"
  shows "read_complete l = (True, l)"
  using assms send_length [OF assms(1), of me] length_frame [OF assms(1), of me] frame_fields [OF assms(1), of me r]
  by (simp add: read_complete_def Let_def word_less_nat_alt sendable_msg_def)

lemma decode_msg_frame:
  assumes "sendable_msg m" "recv_buffer l = frame me m @ r"
  shows "decode_msg l = (Some (received me m), l\<lparr>recv_buffer := r\<rparr>)"
proof -
  have h: "read_header (recv_buffer l) = send_header me m"
    using assms by (simp add: frame_def read_header_bytes header_ok_send sendable_msg_def)
  have "field kHeaderSize (unat (hdr_length (send_header me m)) - kHeaderSize) (recv_buffer l) = bus_args_encode (msg_args m)"
    using assms by (simp only: send_length, simp add: field_def frame_def length_header_bytes header_ok_send
      sendable_msg_def length_bus_args_encode)
  moreover have "drop (unat (hdr_length (send_header me m))) (recv_buffer l) = r"
    using assms by (simp only: send_length, simp add: length_frame)
  ultimately show ?thesis
    using assms(1) send_length [OF assms(1), of me] read_complete_frame [OF assms]
    by (simp add: decode_msg_def h Let_def received_def bus_args_decode_encode sendable_msg_def
      del: send_header_fields(3))
qed

lemma read_complete_prefix:
  assumes "sendable_msg m" "recv_buffer l @ q = frame me m @ r" "length (recv_buffer l) < length (frame me m)"
  shows "read_complete l = (False, l)"
proof (cases "length (recv_buffer l) < kHeaderSize")
  case False
  have "field o' n (recv_buffer l) = field o' n (frame me m @ r)" if "o' + n \<le> kHeaderSize" for o' n
    using that False unfolding assms(2) [symmetric] field_def by simp
  from this [of 0 4] this [of 8 4]
  have "mem_word (field 0 4 (recv_buffer l)) = kMsgMagic"
    "mem_word (field 8 4 (recv_buffer l)) = hdr_length (send_header me m)"
    using frame_fields [OF assms(1), of me r] by (simp_all add: kHeaderSize_def)
  then show ?thesis
    using assms(1,3) send_length [OF assms(1), of me] length_frame [OF assms(1), of me] False
    by (simp add: read_complete_def Let_def word_less_nat_alt sendable_msg_def del: send_header_fields(3))
qed (simp add: read_complete_def)

text \<open>A connection as the reads of its bytes, each with its time; and a list of messages sent on a link.\<close>

primrec deliver :: "(int \<times> string) list \<Rightarrow> ClusterLink \<Rightarrow> (ClusterMsg list \<times> ClusterLink) option" where
  "deliver [] l = Some ([], l)"
| "deliver (r # rs) l =
     (case handle_read (fst r) (Received (snd r)) l of
        None \<Rightarrow> None
      | Some (closed, ms, l) \<Rightarrow> (case deliver rs l of None \<Rightarrow> None | Some (ms', l) \<Rightarrow> Some (ms @ ms', l)))"

definition send_all :: "string \<Rightarrow> ClusterMsg list \<Rightarrow> ClusterLink \<Rightarrow> ClusterLink" where
  "send_all me ms l = foldl (\<lambda>l m. snd (send_msg me m l)) l ms"

section \<open>The reading loop\<close>

lemma read_loop_stream:
  assumes "list_all sendable_msg ms" "recv_buffer l @ q = concat (map (frame me) ms)" "\<not> frame_invalid l"
  shows "\<exists>got wait p. ms = got @ wait \<and> p @ q = concat (map (frame me) wait) \<and>
    (wait = [] \<or> length p < length (frame me (hd wait))) \<and>
    read_loop acc l = Some (False, acc @ map (received me) got, l\<lparr>recv_buffer := p\<rparr>)"
  using assms
proof (induction ms arbitrary: l acc)
  case Nil
  then have "read_complete l = (False, l)" "l\<lparr>recv_buffer := []\<rparr> = l" "recv_buffer l @ q = []"
    by (simp_all add: read_complete_def kHeaderSize_def)
  then show ?case
    using Nil by (intro exI [of _ "[]"]) (subst read_loop.simps, simp)
next
  case (Cons m ms)
  show ?case
  proof (cases "length (recv_buffer l) < length (frame me m)")
    case True
    then have "read_complete l = (False, l)"
      using Cons.prems by (intro read_complete_prefix [where q = q and r = "concat (map (frame me) ms)"]) simp_all
    then show ?thesis
      using Cons.prems True
      by (intro exI [of _ "[]"] exI [of _ "m # ms"] exI [of _ "recv_buffer l"]) (subst read_loop.simps, simp)
  next
    case False
    then obtain r where r: "recv_buffer l = frame me m @ r"
      using Cons.prems(2) by (metis append_eq_append_conv_if concat.simps(2) list.simps(9) not_less append_take_drop_id)
    define l' where "l' = l\<lparr>recv_buffer := r\<rparr>"
    have "recv_buffer l' @ q = concat (map (frame me) ms)" "\<not> frame_invalid l'"
      using Cons.prems r by (simp_all add: l'_def)
    with Cons.IH [of l' "acc @ [received me m]"] Cons.prems(1) obtain got wait p where
      "ms = got @ wait" "p @ q = concat (map (frame me) wait)" "wait = [] \<or> length p < length (frame me (hd wait))"
      "read_loop (acc @ [received me m]) l' = Some (False, (acc @ [received me m]) @ map (received me) got, l'\<lparr>recv_buffer := p\<rparr>)"
      by auto
    moreover have "read_loop acc l = read_loop (acc @ [received me m]) l'"
      using Cons.prems by (subst read_loop.simps) (simp add: read_complete_frame [OF _ r] decode_msg_frame [OF _ r] l'_def)
    ultimately show ?thesis
      by (intro exI [of _ "m # got"] exI [of _ wait] exI [of _ p]) (simp add: l'_def)
  qed
qed

lemma read_complete_facts:
  assumes "read_complete l = (True, l')"
  shows "l' = l" "kHeaderSize \<le> unat (mem_word (field 8 4 (recv_buffer l)) :: 32 word)"
    "unat (mem_word (field 8 4 (recv_buffer l)) :: 32 word) \<le> length (recv_buffer l)"
  using assms by (auto simp: read_complete_def Let_def split: if_splits)

lemma decode_msg_consumes:
  assumes "decode_msg l = (Some m, l')"
  shows "kHeaderSize + length (recv_buffer l') \<le> length (recv_buffer l)"
proof -
  obtain l2 where "read_complete l = (True, l2)"
    using assms by (auto simp: decode_msg_def split: prod.splits if_splits)
  note rc = this read_complete_facts [OF this]
  have "recv_buffer l' = drop (unat (hdr_length (read_header (recv_buffer l)))) (recv_buffer l)"
    using assms rc(1,2) by (auto simp: decode_msg_def Let_def split: if_splits sum.splits)
  then show ?thesis
    using rc(3,4) by (simp add: read_header_def)
qed

lemma read_loop_total:
  "\<exists>bad msgs l'. read_loop acc l = Some (bad, acc @ msgs, l') \<and>
     kHeaderSize * length msgs + length (recv_buffer l') \<le> length (recv_buffer l)"
proof (induction "length (recv_buffer l)" arbitrary: acc l rule: less_induct)
  case less
  obtain c l1 where rc: "read_complete l = (c, l1)"
    by force
  have len: "length (skip_foreign s) \<le> length s" for s
    by (induction s) auto
  have l1: "length (recv_buffer l1) \<le> length (recv_buffer l)"
    using rc len by (auto simp: read_complete_def Let_def split: if_splits)
  show ?case
  proof (cases "frame_invalid l \<or> \<not> c \<or> fst (decode_msg l1) = None")
    case True
    have "length (recv_buffer (snd (decode_msg l1))) \<le> length (recv_buffer l)" if "c"
      using that rc read_complete_facts [of l l1] len
      by (auto simp: decode_msg_def Let_def split: prod.splits if_splits sum.splits)
    then show ?thesis
      using True rc l1 by (subst read_loop.simps) (cases "decode_msg l1", auto split: option.splits)
  next
    case False
    then obtain m l2 where d: "decode_msg l1 = (Some m, l2)"
      by (cases "decode_msg l1") auto
    have l2: "kHeaderSize + length (recv_buffer l2) \<le> length (recv_buffer l)"
      using decode_msg_consumes [OF d] l1 by simp
    then have "length (recv_buffer l2) < length (recv_buffer l)"
      by (simp add: kHeaderSize_def)
    from less [OF this, of "acc @ [m]"] obtain bad msgs l' where
      "read_loop (acc @ [m]) l2 = Some (bad, (acc @ [m]) @ msgs, l')"
      "kHeaderSize * length msgs + length (recv_buffer l') \<le> length (recv_buffer l2)"
      by blast
    moreover have "read_loop acc l = read_loop (acc @ [m]) l2"
      using False rc d by (subst read_loop.simps) simp
    ultimately show ?thesis
      using l2 by (intro exI [of _ bad] exI [of _ "m # msgs"] exI [of _ l']) simp
  qed
qed

section \<open>Dripped frames\<close>

lemma partial_frame_limit_nat: "unat (partial_frame_limit d) = 10000 + unat d div 1048576 * 1000"
proof -
  have d: "unat d < 4294967296"
    using unsigned_less [of d] by simp
  then have "unat d div 1048576 < 4096"
    by (simp add: less_mult_imp_div_less)
  moreover have "unat (ucast d div 1048576 :: 64 word) = unat d div 1048576"
    using d by (simp add: unat_div unsigned_ucast_eq take_bit_nat_def)
  ultimately show ?thesis
    by (simp add: partial_frame_limit_def kPartialFrameGraceMs_def kPartialFrameMinBytesPerSec_def unat_word_ariths)
qed

text \<open>A frame of declared length \<open>d\<close> is incomplete since the time \<open>tm\<close>.\<close>

definition waiting :: "32 word \<Rightarrow> 64 word \<Rightarrow> ClusterLink \<Rightarrow> bool" where
  "waiting d tm l \<longleftrightarrow> \<not> frame_invalid l \<and> kHeaderSize \<le> length (recv_buffer l) \<and>
     mem_word (field 0 4 (recv_buffer l)) = kMsgMagic \<and> mem_word (field 8 4 (recv_buffer l)) = d \<and>
     kHeaderSize \<le> unat d \<and> d \<le> kMaxPacketBytes \<and> length (recv_buffer l) < unat d \<and>
     partial_frame_since_ms l = tm \<and> tm \<noteq> 0 \<and> partial_frame_declared l = d \<and>
     partial_frame_bytes l \<le> length (recv_buffer l)"

lemma handle_read_waiting:
  assumes "waiting d tm l" "link_connected l" "length (recv_buffer l) + length buf < unat d"
  shows "\<exists>closed l'. handle_read t (Received buf) l = Some (closed, [], l') \<and>
    link_connected l' = (unat (of_int t - tm) < 10000 + unat d div 1048576 * 1000) \<and>
    (link_connected l' \<longrightarrow> waiting d tm l' \<and> recv_buffer l' = recv_buffer l @ buf)"
proof -
  define l1 where "l1 = l\<lparr>recv_buffer := recv_buffer l @ buf, last_recv_time := t\<rparr>"
  have f: "field 0 4 (recv_buffer l @ buf) = field 0 4 (recv_buffer l)" "field 8 4 (recv_buffer l @ buf) = field 8 4 (recv_buffer l)"
    using assms(1) by (simp_all add: field_def waiting_def kHeaderSize_def)
  have "read_complete l1 = (False, l1)"
    using assms f by (simp add: read_complete_def l1_def Let_def waiting_def word_less_nat_alt word_le_nat_alt)
  then have rl: "read_loop [] l1 = Some (False, [], l1)"
    using assms by (subst read_loop.simps) (simp add: l1_def waiting_def)
  have "d \<noteq> 0"
    using assms(1) by (auto simp: waiting_def kHeaderSize_def)
  moreover have "pending_frame (recv_buffer l1) = d"
    using assms f by (simp add: pending_frame_def l1_def waiting_def)
  ultimately have pe: "partial_frame_expired (pending_frame (recv_buffer l1)) (length (recv_buffer l1)) (of_int t) l1 =
      (partial_frame_limit d \<le> of_int t - tm, l1\<lparr>partial_frame_bytes := length (recv_buffer l1)\<rparr>)"
    using assms by (simp add: partial_frame_expired_def l1_def waiting_def)
  have small: "\<not> unat kMaxPacketBytes < length (recv_buffer l1)"
    using assms by (simp add: l1_def waiting_def word_le_nat_alt)
  show ?thesis
    using assms rl pe small f unfolding handle_read_def l1_def [symmetric] word_le_nat_alt partial_frame_limit_nat
    by (auto simp: disconnect_and_notify_def l1_def waiting_def not_le)
qed

lemma deliver_closed: "\<not> link_connected l \<Longrightarrow> deliver reads l = Some ([], l)"
  by (induction reads) (simp_all add: handle_read_def)

lemma deliver_waiting:
  assumes "waiting d tm l" "link_connected l" "length (recv_buffer l) + length (concat (map snd reads)) < unat d"
    "deliver reads l = Some (ms, l')" "link_connected l'"
  shows "ms = [] \<and> list_all (\<lambda>(t, b). unat (of_int t - tm) < 10000 + unat d div 1048576 * 1000) reads"
  using assms
proof (induction reads arbitrary: l ms)
  case (Cons r reads)
  obtain closed l1 where r: "handle_read (fst r) (Received (snd r)) l = Some (closed, [], l1)"
    "link_connected l1 = (unat (of_int (fst r) - tm) < 10000 + unat d div 1048576 * 1000)"
    "link_connected l1 \<longrightarrow> waiting d tm l1 \<and> recv_buffer l1 = recv_buffer l @ snd r"
    using handle_read_waiting [OF Cons.prems(1,2), of "snd r" "fst r"] Cons.prems(3) by auto
  obtain ms1 where ms1: "deliver reads l1 = Some (ms1, l')" "ms = ms1"
    using Cons.prems(4) r(1) by (auto split: option.splits)
  have "link_connected l1"
    using Cons.prems(5) deliver_closed [of l1 reads] ms1 by auto
  then show ?case
    using Cons.IH [of l1 ms1] Cons.prems(3,5) r ms1 by (auto simp: split_beta)
qed simp

section \<open>Streams\<close>

text \<open>The accounting of a link whose reads all lie between \<open>tm\<close> and \<open>now\<close>.\<close>

definition clock_inv :: "int \<Rightarrow> int \<Rightarrow> ClusterLink \<Rightarrow> bool" where
  "clock_inv tm now l \<longleftrightarrow>
     (\<exists>s. partial_frame_since_ms l = of_int s \<and> (s = 0 \<or> tm \<le> s \<and> s \<le> now))"

lemma not_expired:
  assumes "clock_inv tm now l" "now \<le> t" "tm \<le> t" "t < tm + 10000"
  shows "\<not> fst (partial_frame_expired d b (of_int t) l)" "clock_inv tm t (snd (partial_frame_expired d b (of_int t) l))"
proof -
  obtain s where s: "partial_frame_since_ms l = of_int s" "s = 0 \<or> tm \<le> s \<and> s \<le> now"
    using assms(1) by (auto simp: clock_inv_def)
  have "unat (of_int t - partial_frame_since_ms l) < 10000" if "partial_frame_since_ms l \<noteq> 0"
  proof -
    have "0 \<le> t - s" "t - s < 10000"
      using that s assms(2-4) by auto
    then have "unat (of_int (t - s) :: 64 word) < 10000"
      by (simp add: unat_eq_nat_uint uint_word_of_int del: of_int_diff)
    then show ?thesis
      using s by simp
  qed
  then have "partial_frame_since_ms l \<noteq> 0 \<Longrightarrow> \<not> partial_frame_limit d \<le> of_int t - partial_frame_since_ms l"
    by (simp add: word_le_nat_alt partial_frame_limit_nat)
  then show "\<not> fst (partial_frame_expired d b (of_int t) l)"
    by (auto simp: partial_frame_expired_def)
  show "clock_inv tm t (snd (partial_frame_expired d b (of_int t) l))"
    using s assms(2,3) unfolding partial_frame_expired_def reset_partial_frame_accounting_def clock_inv_def
    by (auto intro: exI [of _ s] exI [of _ t] exI [of _ "0 :: int"])
qed

lemma partial_frame_expired_other [simp]:
  "recv_buffer (snd (partial_frame_expired d b t l)) = recv_buffer l"
  "link_connected (snd (partial_frame_expired d b t l)) = link_connected l"
  "frame_invalid (snd (partial_frame_expired d b t l)) = frame_invalid l"
  by (simp_all add: partial_frame_expired_def reset_partial_frame_accounting_def)

lemma handle_read_stream:
  assumes "list_all sendable_msg ms" "recv_buffer l @ buf @ q = concat (map (frame me) ms)" "link_connected l"
    "\<not> frame_invalid l" "clock_inv tm now l" "now \<le> t" "tm \<le> t" "t < tm + 10000"
  shows "\<exists>got wait l'. ms = got @ wait \<and> handle_read t (Received buf) l = Some (False, map (received me) got, l') \<and>
    recv_buffer l' @ q = concat (map (frame me) wait) \<and> (wait = [] \<or> length (recv_buffer l') < length (frame me (hd wait))) \<and>
    link_connected l' \<and> \<not> frame_invalid l' \<and> clock_inv tm t l'"
proof -
  define l1 where "l1 = l\<lparr>recv_buffer := recv_buffer l @ buf, last_recv_time := t\<rparr>"
  have "recv_buffer l1 @ q = concat (map (frame me) ms)" "\<not> frame_invalid l1"
    using assms by (simp_all add: l1_def)
  from read_loop_stream [OF assms(1) this, of "[]"] obtain got wait p where
    g: "ms = got @ wait" "p @ q = concat (map (frame me) wait)" "wait = [] \<or> length p < length (frame me (hd wait))"
    "read_loop [] l1 = Some (False, map (received me) got, l1\<lparr>recv_buffer := p\<rparr>)"
    by auto
  define l2 where "l2 = l1\<lparr>recv_buffer := p\<rparr>"
  have l2: "clock_inv tm now l2" "recv_buffer l2 = p" "link_connected l2" "\<not> frame_invalid l2"
    using assms by (simp_all add: l2_def l1_def clock_inv_def)
  have "length p \<le> 268435456"
  proof (cases wait)
    case Nil
    then show ?thesis
      using g(2) by simp
  next
    case (Cons m ms')
    then show ?thesis
      using g(1,3) assms(1) length_frame [of m me] by (auto simp: sendable_msg_def)
  qed
  then have "handle_read t (Received buf) l =
      Some (False, map (received me) got, snd (partial_frame_expired (pending_frame p) (length p) (of_int t) l2))"
    using assms(3) g(4) [folded l2_def, unfolded l1_def] l2 not_expired [OF l2(1) assms(6-8), of "pending_frame p" "length p"]
    by (simp add: handle_read_def split_beta)
  then show ?thesis
    using g l2 not_expired(2) [OF l2(1) assms(6-8)] by (intro exI [of _ got] exI [of _ wait]) auto
qed

lemma deliver_stream:
  assumes "list_all sendable_msg ms" "recv_buffer l @ concat (map snd reads) = concat (map (frame me) ms)"
    "link_connected l" "\<not> frame_invalid l" "clock_inv tm now l" "sorted (now # map fst reads)"
    "list_all (\<lambda>r. tm \<le> fst r \<and> fst r < tm + 10000) reads"
    "ms = [] \<or> length (recv_buffer l) < length (frame me (hd ms))"
  shows "\<exists>l'. deliver reads l = Some (map (received me) ms, l') \<and> link_connected l' \<and> recv_buffer l' = []"
  using assms
proof (induction reads arbitrary: l ms now)
  case Nil
  then show ?case
    by (cases ms) auto
next
  case (Cons r reads)
  have "recv_buffer l @ snd r @ concat (map snd reads) = concat (map (frame me) ms)" "now \<le> fst r"
    "tm \<le> fst r" "fst r < tm + 10000"
    using Cons.prems by simp_all
  from handle_read_stream [OF Cons.prems(1) this(1) Cons.prems(3-5) this(2-4)] obtain got wait l1 where
    g: "ms = got @ wait" "handle_read (fst r) (Received (snd r)) l = Some (False, map (received me) got, l1)"
    "recv_buffer l1 @ concat (map snd reads) = concat (map (frame me) wait)"
    "wait = [] \<or> length (recv_buffer l1) < length (frame me (hd wait))"
    "link_connected l1" "\<not> frame_invalid l1" "clock_inv tm (fst r) l1"
    by blast
  from Cons.IH [OF _ g(3,5-7) _ _ g(4)] Cons.prems(1,6,7) g(1) obtain l' where
    "deliver reads l1 = Some (map (received me) wait, l')" "link_connected l'" "recv_buffer l' = []"
    by auto
  then show ?case
    using g(1,2) by simp
qed

lemma send_all_buffer:
  assumes "list_all sendable_msg ms" "link_connected l"
  shows "send_buffer (send_all me ms l) = send_buffer l @ concat (map (frame me) ms)"
  using assms
proof (induction ms arbitrary: l)
  case (Cons m ms)
  have "send_all me (m # ms) l = send_all me ms (l\<lparr>send_buffer := send_buffer l @ frame me m\<rparr>)"
    using Cons.prems by (simp add: send_all_def send_msg_frame)
  then show ?case
    using Cons.IH [of "l\<lparr>send_buffer := send_buffer l @ frame me m\<rparr>"] Cons.prems by simp
qed (simp add: send_all_def)

section \<open>Gossip entries\<close>

lemma getline_field: "CHR '','' \<notin> set a \<Longrightarrow> getline (a @ CHR '','' # r) = Some (a, r)"
  by (auto simp: getline_def takeWhile_append dropWhile_append)

lemma getline_last: "CHR '','' \<notin> set a \<Longrightarrow> a \<noteq> [] \<Longrightarrow> getline a = Some (a, [])"
proof -
  assume "CHR '','' \<notin> set a" "a \<noteq> []"
  then have "list_all (\<lambda>c. c \<noteq> CHR '','') a"
    by (auto simp: list_all_iff)
  then show ?thesis
    using \<open>a \<noteq> []\<close> by (simp only: getline_def takeWhile_all dropWhile_all) simp
qed

lemma comma_to_string [simp]: "CHR '','' \<notin> set (to_string v)"
  using to_string_no_ctl [of "CHR '',''" v] by (auto simp: is_digit_def byte_def)

lemma parse_int_field_to_string [codec]: "int64_ok v \<Longrightarrow> parse_int_field (to_string v) = Some v"
  by (simp add: parse_int_field_def stoll_to_string_end)

lemma small_word_ok: "LENGTH('a::len) \<le> 16 \<Longrightarrow> int64_ok (uint (w :: 'a word))"
proof -
  assume "LENGTH('a) \<le> 16"
  then have "(2 :: int) ^ LENGTH('a) \<le> 2 ^ 16"
    by (intro power_increasing) simp_all
  moreover have "uint w < 2 ^ LENGTH('a)"
    by simp
  ultimately have "uint w < 2 ^ 16"
    by (rule less_le_trans [rotated])
  moreover have "0 \<le> uint w"
    by simp
  ultimately show ?thesis
    unfolding int64_arith by (simp add: order_trans [of _ "0 :: int"])
qed

lemma gossip_entry_parsed:
  assumes "CHR '','' \<notin> set (gi_name n)" "CHR '','' \<notin> set (gi_ip n)" "int64_ok (gi_failover_offset n)"
  shows "parse_gossip_entry (gossip_entry n) =
    Some (n\<lparr>gi_epoch := 0, gi_state := 0, gi_slot_count := 0, gi_used_slot := []\<rparr>)"
proof (cases "gi_failover_offset n = 0")
  case True
  then show ?thesis
    using assms by (simp add: parse_gossip_entry_def gossip_entry_def getline_field getline_last
      parse_int_field_to_string small_word_ok new_GossipNodeInfo_def getline_def [of "[]"])
next
  case False
  then show ?thesis
    using assms by (simp add: parse_gossip_entry_def gossip_entry_def getline_field getline_last
      parse_int_field_to_string small_word_ok new_GossipNodeInfo_def)
qed

section \<open>Properties\<close>

text \<open>C37: messages sent on a link arrive at the other end exactly once and in order, with all their binary
  arguments, however the bytes are cut into reads, as long as the reads lie within ten seconds.\<close>

theorem bus_stream_delivered:
  assumes "list_all sendable_msg ms" "link_connected sender" "send_buffer sender = []"
    "concat (map snd reads) = send_buffer (send_all me ms sender)" "sorted (map fst reads)"
    "list_all (\<lambda>r. tm \<le> fst r \<and> fst r < tm + 10000) reads"
  shows "\<exists>l. deliver reads (new_ClusterLink name addr p\<lparr>link_connected := True\<rparr>) = Some (map (received me) ms, l) \<and>
    link_connected l \<and> recv_buffer l = []"
proof (cases "reads = []")
  case True
  then have "concat (map (frame me) ms) = []"
    using assms(1-4) send_all_buffer [OF assms(1,2), of me] by simp
  then have "ms = []"
    using assms(1) length_frame [of "hd ms" me] by (cases ms) (auto simp: kHeaderSize_def)
  then show ?thesis
    using True by (simp add: new_ClusterLink_def)
next
  case False
  let ?l = "new_ClusterLink name addr p\<lparr>link_connected := True\<rparr>"
  have "sorted (fst (hd reads) # map fst reads)"
    using assms(5) False by (cases reads) auto
  moreover have "clock_inv tm (fst (hd reads)) ?l"
    by (auto simp: clock_inv_def new_ClusterLink_def intro: exI [of _ "0 :: int"])
  moreover have "ms = [] \<or> length (recv_buffer ?l) < length (frame me (hd ms))"
    using assms(1) length_frame [of "hd ms" me] by (cases ms) (auto simp: kHeaderSize_def new_ClusterLink_def)
  ultimately show ?thesis
    using assms(1-4,6) send_all_buffer [OF assms(1,2), of me]
    by (intro deliver_stream [where tm = tm and now = "fst (hd reads)"]) (simp_all add: new_ClusterLink_def)
qed

theorem bus_stream_delivered_witness:
  "let sender = new_ClusterLink ''b'' ''10.0.0.2'' 16379\<lparr>link_connected := True\<rparr>;
       ms = [typed_msg kPing [], typed_msg kRepData [''SET'', [NUL]]]; s = send_buffer (send_all ''a'' ms sender) in
   \<exists>l. deliver [(1, take 3000 s), (7, drop 3000 s)] (new_ClusterLink ''a'' ''10.0.0.1'' 16379\<lparr>link_connected := True\<rparr>) =
     Some (map (received ''a'') ms, l) \<and> link_connected l \<and> recv_buffer l = []"
proof -
  have "sendable_msg (typed_msg kPing [])" "sendable_msg (typed_msg kRepData [''SET'', [NUL]])"
    by (simp_all add: sendable_msg_def typed_msg_def new_ClusterMsg_def header_ok_def kMsgMagic_def kHeaderSize_def
      bus_args_frame_bytes_def kMaxArgsPerFrame_def decimal_digits.simps)
  then show ?thesis
    unfolding Let_def
    by (intro bus_stream_delivered [where tm = 1 and sender = "new_ClusterLink ''b'' ''10.0.0.2'' 16379\<lparr>link_connected := True\<rparr>"])
      (simp_all add: new_ClusterLink_def)
qed

text \<open>C38: whatever bytes a peer sends, the reading of a link comes to an end: every message it delivers
  takes at least a header from the buffer.\<close>

theorem handle_read_terminates:
  "handle_read t n l \<noteq> None \<and>
   (\<exists>bad msgs l'. read_loop [] l = Some (bad, msgs, l') \<and>
      kHeaderSize * length msgs + length (recv_buffer l') \<le> length (recv_buffer l))"
proof -
  have "handle_read t (Received buf) l \<noteq> None" for buf
  proof -
    let ?l = "l\<lparr>recv_buffer := recv_buffer l @ buf, last_recv_time := t\<rparr>"
    obtain bad msgs l' where "read_loop [] ?l = Some (bad, msgs, l')"
      using read_loop_total [of "[]" ?l] by auto
    then show ?thesis
      by (auto simp: handle_read_def split_beta)
  qed
  then have "handle_read t n l \<noteq> None"
    by (cases n) (auto simp: handle_read_def split_beta)
  then show ?thesis
    using read_loop_total [of "[]" l] by simp
qed

text \<open>A peer that drips the bytes of a frame is cut off: as long as the frame stays incomplete, a
  link that is still open has made every read before the deadline of ten seconds plus one second for each
  declared megabyte, however many bytes arrived.\<close>

theorem dripped_frame_given_up:
  assumes "waiting d tm l" "link_connected l" "length (recv_buffer l) + length (concat (map snd reads)) < unat d"
    "deliver reads l = Some (ms, l')" "link_connected l'"
  shows "list_all (\<lambda>r. unat (of_int (fst r) - tm) < 10000 + unat d div 1048576 * 1000) reads"
  using deliver_waiting [OF assms] by (simp add: list_all_iff split_beta)

theorem dripped_frame_given_up_witness:
  "let h = (msg_header new_ClusterMsg)\<lparr>hdr_length := 4000\<rparr>;
       l = new_ClusterLink ''a'' ''10.0.0.1'' 16379\<lparr>link_connected := True, recv_buffer := header_bytes h,
             partial_frame_since_ms := 5, partial_frame_declared := 4000\<rparr> in
   \<exists>l'. deliver [(10, ''x'')] l = Some ([], l') \<and> link_connected l' \<and>
     list_all (\<lambda>r. unat (of_int (fst r) - 5 :: 64 word) < 10000) [(10 :: int, ''x'')]"
proof -
  let ?h = "(msg_header new_ClusterMsg)\<lparr>hdr_length := 4000\<rparr>"
  let ?l = "new_ClusterLink ''a'' ''10.0.0.1'' 16379\<lparr>link_connected := True, recv_buffer := header_bytes ?h,
    partial_frame_since_ms := 5, partial_frame_declared := 4000\<rparr>"
  have h: "header_ok ?h"
    by (simp add: header_ok_def new_ClusterMsg_def)
  have w: "waiting 4000 5 ?l"
    using read_header_bytes [OF h, of "[]"] length_header_bytes [OF h]
    by (simp add: waiting_def new_ClusterLink_def kHeaderSize_def read_header_def kMsgMagic_def kMaxPacketBytes_def
      new_ClusterMsg_def)
  obtain closed l' where r: "handle_read 10 (Received ''x'') ?l = Some (closed, [], l')" "link_connected l'"
    using handle_read_waiting [OF w, of "''x''" 10] length_header_bytes [OF h] by (auto simp: kHeaderSize_def)
  then have "deliver [(10, ''x'')] ?l = Some ([], l')"
    by simp
  moreover have "length (recv_buffer ?l) + length (concat (map snd [(10 :: int, ''x'')])) < unat (4000 :: 32 word)"
    using length_header_bytes [OF h] by (simp add: kHeaderSize_def)
  ultimately show ?thesis
    using dripped_frame_given_up [OF w, of "[(10, ''x'')]" "[]" l'] r by (auto simp: Let_def)
qed

text \<open>The argument count is limited where a frame is read, but not where it is sent: a frame with one
  argument too many is sent and makes the other end close the link.\<close>

theorem oversized_count_refused:
  "let args = replicate 1048577 [] in
   kHeaderSize + bus_args_frame_bytes args \<le> unat kMaxPacketBytes \<and> bus_args_decode (bus_args_encode args) = Inl ''implausible arg count''"
proof -
  have d: "decimal_digits 1048577 = 7" "decimal_digits 0 = 1"
    by (simp_all add: decimal_digits.simps)
  have "length (concat (map arg_frame (replicate n []))) = 2 * n" for n
    by (induction n) (simp_all add: d(2) [unfolded decimal_digits_to_dec])
  then have "bus_args_frame_bytes (replicate 1048577 []) = 2097162"
    using d(1) unfolding length_bus_args_encode [symmetric] bus_args_encode_alt decimal_digits_to_dec by simp
  moreover have "bus_args_decode (bus_args_encode (replicate 1048577 [])) = Inl ''implausible arg count''"
    by (simp add: bus_args_decode_def bus_args_encode_alt codec kMaxArgsPerFrame_def)
  ultimately show ?thesis
    by (simp add: kHeaderSize_def)
qed

text \<open>A complete frame behind a foreign byte is not delivered by the read that brings it: the loop stops
  after skipping, and the frame waits for the next bytes.\<close>

theorem frame_after_foreign_byte_waits:
  assumes "sendable_msg m" "l = new_ClusterLink name addr p\<lparr>link_connected := True\<rparr>"
  shows "\<exists>l'. handle_read t (Received (''+'' @ frame me m)) l = Some (False, [], l') \<and> recv_buffer l' = frame me m"
proof -
  define l1 where "l1 = l\<lparr>recv_buffer := ''+'' @ frame me m, last_recv_time := t\<rparr>"
  have "char_of (67 :: nat) = CHR ''C''"
    by code_simp
  then have h: "frame me m = CHR ''C'' # NUL # NUL # NUL # drop 4 (frame me m)"
    using assms(1) by (simp add: frame_def header_bytes_def sendable_msg_def kMsgMagic_def mem_bytes_def NUL_def upt_rec)
  have f: "mem_word (field 0 4 (frame me m)) = kMsgMagic" "kHeaderSize \<le> length (frame me m)"
    using frame_fields [OF assms(1), of me "[]"] length_frame [OF assms(1)] by simp_all
  have "skip_foreign (''+'' @ frame me m) = frame me m"
    using f by (subst (1 2) h) (subst (asm) (1) h, simp add: byte_def)
  moreover have "mem_word (field 0 4 (''+'' @ frame me m)) \<noteq> kMsgMagic"
    by (subst h) (simp add: field_def NUL_def byte_def kMsgMagic_def)
  ultimately have "read_complete l1 = (False, l1\<lparr>recv_buffer := frame me m\<rparr>)"
    using f by (simp add: read_complete_def l1_def Let_def)
  then have rl: "read_loop [] l1 = Some (False, [], l1\<lparr>recv_buffer := frame me m\<rparr>)"
    using assms(2) by (subst read_loop.simps) (simp add: l1_def new_ClusterLink_def)
  have "pending_frame (frame me m) = 0"
    using f frame_fields [OF assms(1), of me "[]"] send_length [OF assms(1)] length_frame [OF assms(1)]
    by (simp add: pending_frame_def)
  then show ?thesis
    using rl assms length_frame [OF assms(1), of me]
    by (simp add: handle_read_def l1_def new_ClusterLink_def partial_frame_expired_def reset_partial_frame_accounting_def sendable_msg_def)
qed

end
