(* ===== verification/CC_Cluster.thy ===== *)
theory CC_Cluster
  imports CC_Bus CC_Slots CC_Resp
begin

text \<open>
  The cluster state of one server: \<^verbatim>\<open>cluster_node.cpp\<close>, \<^verbatim>\<open>cluster_state.cpp\<close>,
  \<^verbatim>\<open>cluster_gossip.cpp\<close> and \<^verbatim>\<open>cluster_server.cpp\<close>.  The \<^verbatim>\<open>ClusterNode\<close> objects are shared
  by several containers, so they live in an explicit heap and a \<^verbatim>\<open>shared_ptr\<close> is an address.  A
  \<^verbatim>\<open>weak_ptr\<close> is an address as well; it can be locked while one of the containers still holds the
  object.  The steady clock is the argument \<open>now\<close>.
\<close>

unbundle bit_operations_syntax

section \<open>Nodes\<close>

datatype NodeRole = kMaster | kReplica | kNodeUnknown

definition flag_Fail :: "64 word" where "flag_Fail = 1"
definition flag_Pfail :: "64 word" where "flag_Pfail = 2"
definition flag_Handshake :: "64 word" where "flag_Handshake = 4"

datatype ReplicationState = repl_None | repl_Connect | repl_Handshake | repl_Sync | repl_Connected

datatype FailoverState =
  kNoFailover | kWaitStart | kWaitAuth | kFailoverInProgress | kFailoverCompleted | kFailoverTimeout

record VoteInfo =
  vote_node_name :: string
  vote_epoch :: int
  vote_offset :: int

type_synonym addr = nat

record ClusterNode =
  n_name :: string
  n_ip :: string
  n_port :: int
  n_replicaof_ip :: string
  n_replicaof_port :: int
  n_role :: NodeRole
  n_flags :: "64 word"
  n_config_epoch :: int
  n_slots :: "int list"
  n_connected :: bool
  n_replication_state :: ReplicationState
  n_master_node :: "addr option"
  n_master_repl_offset :: int
  n_failure_count :: int
  n_first_pfail_time :: int
  n_fail_time :: int
  n_failover_state :: FailoverState
  n_failover_epoch :: int
  n_votes :: "VoteInfo list"
  n_failover_start_time :: int

definition new_ClusterNode :: "string \<Rightarrow> string \<Rightarrow> int \<Rightarrow> NodeRole \<Rightarrow> ClusterNode" where
  "new_ClusterNode name addr p role = \<lparr>n_name = name, n_ip = addr, n_port = p, n_replicaof_ip = [], n_replicaof_port = 0,
     n_role = role, n_flags = 0, n_config_epoch = 0, n_slots = [], n_connected = False,
     n_replication_state = repl_None, n_master_node = None, n_master_repl_offset = 0, n_failure_count = 0,
     n_first_pfail_time = 0, n_fail_time = 0, n_failover_state = kNoFailover, n_failover_epoch = 0, n_votes = [],
     n_failover_start_time = 0\<rparr>"

definition isMaster :: "ClusterNode \<Rightarrow> bool" where
  "isMaster n \<longleftrightarrow> n_role n = kMaster"

definition node_isReplica :: "ClusterNode \<Rightarrow> bool" where
  "node_isReplica n \<longleftrightarrow> n_role n = kReplica"

definition hasFlags :: "64 word \<Rightarrow> ClusterNode \<Rightarrow> bool" where
  "hasFlags f n \<longleftrightarrow> n_flags n AND f \<noteq> 0"

definition isFailed :: "ClusterNode \<Rightarrow> bool" where
  "isFailed n = hasFlags flag_Fail n"

definition isPfailed :: "ClusterNode \<Rightarrow> bool" where
  "isPfailed n = hasFlags flag_Pfail n"

definition addFlags :: "64 word \<Rightarrow> ClusterNode \<Rightarrow> ClusterNode" where
  "addFlags f n = n\<lparr>n_flags := n_flags n OR f\<rparr>"

definition clearFlags :: "64 word \<Rightarrow> ClusterNode \<Rightarrow> ClusterNode" where
  "clearFlags f n = n\<lparr>n_flags := n_flags n AND NOT f\<rparr>"

definition node_addSlot :: "int \<Rightarrow> ClusterNode \<Rightarrow> ClusterNode" where
  "node_addSlot slot n = (if slot \<in> set (n_slots n) then n else n\<lparr>n_slots := n_slots n @ [slot]\<rparr>)"

definition node_delSlot :: "int \<Rightarrow> ClusterNode \<Rightarrow> ClusterNode" where
  "node_delSlot slot n = n\<lparr>n_slots := removeAll slot (n_slots n)\<rparr>"

definition hasSlot :: "int \<Rightarrow> ClusterNode \<Rightarrow> bool" where
  "hasSlot slot n \<longleftrightarrow> slot \<in> set (n_slots n)"

definition setFailFlag :: "int \<Rightarrow> bool \<Rightarrow> ClusterNode \<Rightarrow> ClusterNode" where
  "setFailFlag now fail n =
     (if fail then (addFlags flag_Fail n)\<lparr>n_fail_time := now\<rparr> else (clearFlags flag_Fail n)\<lparr>n_fail_time := 0\<rparr>)"

definition setPfailFlag :: "int \<Rightarrow> bool \<Rightarrow> ClusterNode \<Rightarrow> ClusterNode" where
  "setPfailFlag now pfail n =
     (if pfail
      then let n = addFlags flag_Pfail n in if n_first_pfail_time n = 0 then n\<lparr>n_first_pfail_time := now\<rparr> else n
      else (clearFlags flag_Pfail n)\<lparr>n_first_pfail_time := 0, n_failure_count := 0\<rparr>)"

definition incrementFailureCount :: "ClusterNode \<Rightarrow> ClusterNode" where
  "incrementFailureCount n = n\<lparr>n_failure_count := n_failure_count n + 1\<rparr>"

definition setMaster :: "string \<Rightarrow> int \<Rightarrow> ClusterNode \<Rightarrow> ClusterNode" where
  "setMaster addr p n = n\<lparr>n_replicaof_ip := addr, n_replicaof_port := p, n_role := kReplica\<rparr>"

definition addVote :: "string \<Rightarrow> int \<Rightarrow> int \<Rightarrow> ClusterNode \<Rightarrow> ClusterNode" where
  "addVote name epoch offset n =
     n\<lparr>n_votes := n_votes n @ [\<lparr>vote_node_name = name, vote_epoch = epoch, vote_offset = offset\<rparr>]\<rparr>"

definition getMaxVotedOffset :: "ClusterNode \<Rightarrow> int" where
  "getMaxVotedOffset n = foldl (\<lambda>m v. if vote_offset v > m then vote_offset v else m) 0 (n_votes n)"

definition updateNodeInfo :: "int \<Rightarrow> GossipNodeInfo \<Rightarrow> ClusterNode \<Rightarrow> ClusterNode" where
  "updateNodeInfo now info n =
     (let n = (if gi_flags info AND ucast flag_Fail \<noteq> 0 then setFailFlag now True n else clearFlags flag_Fail n);
          n = (if gi_flags info AND ucast flag_Pfail \<noteq> 0 then setPfailFlag now True n else clearFlags flag_Pfail n);
          n = n\<lparr>n_role := (if gi_role info = 0 then kMaster else kReplica)\<rparr>
      in n\<lparr>n_config_epoch := sint (gi_epoch info), n_slots := map uint (gi_used_slot info)\<rparr>)"

section \<open>The state of the cluster\<close>

datatype SlotMigrationStatus = mig_None | kMigrating | kImporting

record SlotMigrationInfo =
  mig_slot :: int
  mig_status :: SlotMigrationStatus
  mig_source_node :: string
  mig_target_node :: string

definition no_migration :: SlotMigrationInfo where
  "no_migration = \<lparr>mig_slot = -1, mig_status = mig_None, mig_source_node = [], mig_target_node = []\<rparr>"

record ClusterState =
  my_node_name :: string
  nodes :: "(string \<times> addr) list"
  slot_owners :: "(int \<times> addr) list"
  migrating_slots :: "(int \<times> SlotMigrationInfo) list"
  importing_slots :: "(int \<times> SlotMigrationInfo) list"
  replicas :: "(string \<times> addr list) list"
  pfailing_reports :: "(string \<times> string list) list"
  bus_identity_rejections :: "64 word"
  bus_messages_sent :: "64 word"
  bus_messages_received :: "64 word"
  heap :: "addr \<Rightarrow> ClusterNode"
  next_addr :: addr

definition new_ClusterState :: ClusterState where
  "new_ClusterState = \<lparr>my_node_name = [], nodes = [], slot_owners = [], migrating_slots = [], importing_slots = [],
     replicas = [], pfailing_reports = [], bus_identity_rejections = 0, bus_messages_sent = 0,
     bus_messages_received = 0, heap = (\<lambda>a. new_ClusterNode [] [] 0 kNodeUnknown), next_addr = 0\<rparr>"

text \<open>\<^verbatim>\<open>std::make_shared\<close> of a node, and a method call that changes a node.\<close>

definition alloc :: "ClusterNode \<Rightarrow> ClusterState \<Rightarrow> addr \<times> ClusterState" where
  "alloc n st = (next_addr st, st\<lparr>heap := (heap st)(next_addr st := n), next_addr := next_addr st + 1\<rparr>)"

definition upd_node :: "addr \<Rightarrow> (ClusterNode \<Rightarrow> ClusterNode) \<Rightarrow> ClusterState \<Rightarrow> ClusterState" where
  "upd_node a f st = st\<lparr>heap := (heap st)(a := f (heap st a))\<rparr>"

definition addNode :: "addr \<Rightarrow> ClusterState \<Rightarrow> ClusterState" where
  "addNode a st =
     (let name = n_name (heap st a) in
      if map_of (nodes st) name \<noteq> None then st else st\<lparr>nodes := AList.update name a (nodes st)\<rparr>)"

definition getNode :: "ClusterState \<Rightarrow> string \<Rightarrow> addr option" where
  "getNode st name = map_of (nodes st) name"

definition getAllNodes :: "ClusterState \<Rightarrow> addr list" where
  "getAllNodes st = map snd (nodes st)"

definition getNodeByIpPort :: "ClusterState \<Rightarrow> string \<Rightarrow> int \<Rightarrow> addr option" where
  "getNodeByIpPort st addr p =
     map_option snd (find (\<lambda>(name, a). n_ip (heap st a) = addr \<and> n_port (heap st a) = p) (nodes st))"

definition delNode :: "string \<Rightarrow> ClusterState \<Rightarrow> ClusterState" where
  "delNode name st =
     (case getNode st name of
        None \<Rightarrow> st
      | Some a \<Rightarrow>
          st\<lparr>slot_owners := foldl (\<lambda>so slot. if map_of so slot = Some a then AList.delete slot so else so)
                             (slot_owners st) (n_slots (heap st a)),
             replicas := AList.delete name (replicas st),
             nodes := AList.delete name (nodes st)\<rparr>)"

definition setNodeForSlot :: "int \<Rightarrow> addr \<Rightarrow> ClusterState \<Rightarrow> ClusterState" where
  "setNodeForSlot slot a st = st\<lparr>slot_owners := AList.update slot a (slot_owners st)\<rparr>"

definition state_delSlot :: "int \<Rightarrow> ClusterState \<Rightarrow> ClusterState" where
  "state_delSlot slot st =
     st\<lparr>slot_owners := AList.delete slot (slot_owners st), migrating_slots := AList.delete slot (migrating_slots st),
        importing_slots := AList.delete slot (importing_slots st)\<rparr>"

definition getNodeForSlot :: "ClusterState \<Rightarrow> int \<Rightarrow> addr option" where
  "getNodeForSlot st slot = map_of (slot_owners st) slot"

definition getSlotOwnerCount :: "ClusterState \<Rightarrow> nat" where
  "getSlotOwnerCount st = length (slot_owners st)"

definition state_setSlotMigrating :: "int \<Rightarrow> string \<Rightarrow> ClusterState \<Rightarrow> ClusterState" where
  "state_setSlotMigrating slot target st =
     st\<lparr>migrating_slots := AList.update slot
          (no_migration\<lparr>mig_slot := slot, mig_status := kMigrating, mig_target_node := target\<rparr>) (migrating_slots st)\<rparr>"

definition state_setSlotImporting :: "int \<Rightarrow> string \<Rightarrow> ClusterState \<Rightarrow> ClusterState" where
  "state_setSlotImporting slot source st =
     st\<lparr>importing_slots := AList.update slot
          (no_migration\<lparr>mig_slot := slot, mig_status := kImporting, mig_source_node := source\<rparr>) (importing_slots st)\<rparr>"

definition state_clearSlotMigration :: "int \<Rightarrow> ClusterState \<Rightarrow> ClusterState" where
  "state_clearSlotMigration slot st =
     st\<lparr>migrating_slots := AList.delete slot (migrating_slots st),
        importing_slots := AList.delete slot (importing_slots st)\<rparr>"

definition getSlotMigrationInfo :: "ClusterState \<Rightarrow> int \<Rightarrow> SlotMigrationInfo" where
  "getSlotMigrationInfo st slot =
     (case map_of (migrating_slots st) slot of
        Some info \<Rightarrow> info
      | None \<Rightarrow> (case map_of (importing_slots st) slot of Some info \<Rightarrow> info | None \<Rightarrow> no_migration))"

definition isSlotMigrating :: "ClusterState \<Rightarrow> int \<Rightarrow> bool" where
  "isSlotMigrating st slot \<longleftrightarrow> map_of (migrating_slots st) slot \<noteq> None"

definition isSlotImporting :: "ClusterState \<Rightarrow> int \<Rightarrow> bool" where
  "isSlotImporting st slot \<longleftrightarrow> map_of (importing_slots st) slot \<noteq> None"

definition getMigratingSlots :: "ClusterState \<Rightarrow> int list" where
  "getMigratingSlots st = map fst (migrating_slots st)"

definition getImportingSlots :: "ClusterState \<Rightarrow> int list" where
  "getImportingSlots st = map fst (importing_slots st)"

definition addReplica :: "string \<Rightarrow> addr \<Rightarrow> ClusterState \<Rightarrow> ClusterState" where
  "addReplica master_name a st =
     st\<lparr>replicas := AList.update master_name
          ((case map_of (replicas st) master_name of Some rs \<Rightarrow> rs | None \<Rightarrow> []) @ [a]) (replicas st)\<rparr>"

fun erase_replica :: "(addr \<Rightarrow> ClusterNode) \<Rightarrow> string \<Rightarrow> addr list \<Rightarrow> addr list" where
  "erase_replica h name [] = []"
| "erase_replica h name (a # as) = (if n_name (h a) = name then as else a # erase_replica h name as)"

definition removeReplica :: "string \<Rightarrow> string \<Rightarrow> ClusterState \<Rightarrow> ClusterState" where
  "removeReplica master_name replica_name st =
     (case map_of (replicas st) master_name of
        None \<Rightarrow> st
      | Some rs \<Rightarrow>
          let rs' = erase_replica (heap st) replica_name rs in
          if rs' = [] then st\<lparr>replicas := AList.delete master_name (replicas st)\<rparr>
          else st\<lparr>replicas := AList.update master_name rs' (replicas st)\<rparr>)"

definition getReplicas :: "ClusterState \<Rightarrow> string \<Rightarrow> addr list" where
  "getReplicas st master_name = (case map_of (replicas st) master_name of Some rs \<Rightarrow> rs | None \<Rightarrow> [])"

definition upd_named :: "string \<Rightarrow> (ClusterNode \<Rightarrow> ClusterNode) \<Rightarrow> ClusterState \<Rightarrow> ClusterState" where
  "upd_named name f st = (case getNode st name of None \<Rightarrow> st | Some a \<Rightarrow> upd_node a f st)"

definition markNodeAsPfail :: "int \<Rightarrow> string \<Rightarrow> ClusterState \<Rightarrow> ClusterState" where
  "markNodeAsPfail now name st = upd_named name (\<lambda>n. incrementFailureCount (setPfailFlag now True n)) st"

definition state_markNodeAsFail :: "int \<Rightarrow> string \<Rightarrow> ClusterState \<Rightarrow> ClusterState" where
  "state_markNodeAsFail now name st = upd_named name (setFailFlag now True) st"

definition clearNodePfail :: "int \<Rightarrow> string \<Rightarrow> ClusterState \<Rightarrow> ClusterState" where
  "clearNodePfail now name st = upd_named name (setPfailFlag now False) st"

definition clearNodeFail :: "int \<Rightarrow> string \<Rightarrow> ClusterState \<Rightarrow> ClusterState" where
  "clearNodeFail now name st = upd_named name (setFailFlag now False) st"

definition getFailedNodes :: "ClusterState \<Rightarrow> addr list" where
  "getFailedNodes st = filter (\<lambda>a. isFailed (heap st a)) (getAllNodes st)"

definition getPfailedNodes :: "ClusterState \<Rightarrow> addr list" where
  "getPfailedNodes st = filter (\<lambda>a. isPfailed (heap st a)) (getAllNodes st)"

definition addPfailReport :: "string \<Rightarrow> string \<Rightarrow> ClusterState \<Rightarrow> ClusterState" where
  "addPfailReport name reporter st =
     st\<lparr>pfailing_reports := AList.update name
          (List.insert reporter (case map_of (pfailing_reports st) name of Some rs \<Rightarrow> rs | None \<Rightarrow> []))
          (pfailing_reports st)\<rparr>"

definition getPfailReportCount :: "ClusterState \<Rightarrow> string \<Rightarrow> nat" where
  "getPfailReportCount st name = (case map_of (pfailing_reports st) name of Some rs \<Rightarrow> length rs | None \<Rightarrow> 0)"

definition clearPfailReports :: "string \<Rightarrow> ClusterState \<Rightarrow> ClusterState" where
  "clearPfailReports name st = st\<lparr>pfailing_reports := AList.delete name (pfailing_reports st)\<rparr>"

section \<open>The server\<close>

text \<open>The singleton \<^verbatim>\<open>ClusterServer\<close> with its \<^verbatim>\<open>ClusterState\<close>, the node information its gossip
  component has heard of, and the links of its connection manager.\<close>

record ClusterServer =
  enabled :: bool
  running :: bool
  my_node :: "addr option"
  cstate :: ClusterState
  known_nodes :: "(string \<times> GossipNodeInfo) list"
  conn_links :: "(string \<times> ClusterLink) list"
  heartbeat_running :: bool
  last_heartbeat_time_ms :: int

definition upd_state :: "(ClusterState \<Rightarrow> ClusterState) \<Rightarrow> ClusterServer \<Rightarrow> ClusterServer" where
  "upd_state f cs = cs\<lparr>cstate := f (cstate cs)\<rparr>"

definition node_at :: "ClusterServer \<Rightarrow> addr \<Rightarrow> ClusterNode" where
  "node_at cs a = heap (cstate cs) a"

text \<open>\<^verbatim>\<open>init\<close> with the configured address and port; the node starts as a master.\<close>

definition init :: "bool \<Rightarrow> string \<Rightarrow> int \<Rightarrow> ClusterServer" where
  "init is_enabled my_ip my_port =
     (if \<not> is_enabled
      then \<lparr>enabled = False, running = False, my_node = None, cstate = new_ClusterState, known_nodes = [], conn_links = [],
             heartbeat_running = False, last_heartbeat_time_ms = 0\<rparr>
      else let my_name = my_ip @ '':'' @ to_string my_port;
               (a, st) = alloc (new_ClusterNode my_name my_ip my_port kMaster) new_ClusterState
           in \<lparr>enabled = True, running = False, my_node = Some a,
                cstate = addNode a (st\<lparr>my_node_name := my_name\<rparr>), known_nodes = [], conn_links = [],
                heartbeat_running = False, last_heartbeat_time_ms = 0\<rparr>)"

definition getMyNodeName :: "ClusterServer \<Rightarrow> string" where
  "getMyNodeName cs = (case my_node cs of Some a \<Rightarrow> n_name (node_at cs a) | None \<Rightarrow> [])"

definition isReplica :: "ClusterServer \<Rightarrow> bool" where
  "isReplica cs = (case my_node cs of Some a \<Rightarrow> node_isReplica (node_at cs a) | None \<Rightarrow> False)"

text \<open>An object is alive while a container of the server holds it.\<close>

definition held :: "ClusterServer \<Rightarrow> addr \<Rightarrow> bool" where
  "held cs a \<longleftrightarrow> a \<in> set (map snd (nodes (cstate cs))) \<or> a \<in> set (map snd (slot_owners (cstate cs))) \<or>
     a \<in> set (concat (map snd (replicas (cstate cs)))) \<or> my_node cs = Some a"

definition getMasterNode :: "ClusterServer \<Rightarrow> addr \<Rightarrow> addr option" where
  "getMasterNode cs a =
     (case n_master_node (node_at cs a) of Some m \<Rightarrow> if held cs m then Some m else None | None \<Rightarrow> None)"

definition getMyMaster :: "ClusterServer \<Rightarrow> addr option" where
  "getMyMaster cs = (case my_node cs of Some a \<Rightarrow> getMasterNode cs a | None \<Rightarrow> None)"

definition getMasterOfReplica :: "ClusterServer \<Rightarrow> string \<Rightarrow> addr option" where
  "getMasterOfReplica cs name = (case getNode (cstate cs) name of Some a \<Rightarrow> getMasterNode cs a | None \<Rightarrow> None)"

definition getMyReplicas :: "ClusterServer \<Rightarrow> addr list" where
  "getMyReplicas cs = (case my_node cs of Some a \<Rightarrow> getReplicas (cstate cs) (n_name (node_at cs a)) | None \<Rightarrow> [])"

definition upd_my_node :: "(ClusterNode \<Rightarrow> ClusterNode) \<Rightarrow> ClusterServer \<Rightarrow> ClusterServer" where
  "upd_my_node f cs = (case my_node cs of Some a \<Rightarrow> upd_state (upd_node a f) cs | None \<Rightarrow> cs)"

subsection \<open>Sending\<close>

definition note_bus_message_sent :: "ClusterServer \<Rightarrow> ClusterServer" where
  "note_bus_message_sent cs = upd_state (\<lambda>st. st\<lparr>bus_messages_sent := bus_messages_sent st + 1\<rparr>) cs"

definition send_on_link :: "string \<Rightarrow> ClusterMsg \<Rightarrow> ClusterServer \<Rightarrow> bool \<times> ClusterServer" where
  "send_on_link name msg cs =
     (case map_of (conn_links cs) name of
        None \<Rightarrow> (False, cs)
      | Some l \<Rightarrow>
          (case send_msg (getMyNodeName cs) msg l of (sent, l') \<Rightarrow>
             (sent, let cs = cs\<lparr>conn_links := AList.update name l' (conn_links cs)\<rparr> in
                    if sent then note_bus_message_sent cs else cs)))"

text \<open>The loop of the broadcasts over a copy of the link table, skipping links that are closed.\<close>

definition broadcast :: "ClusterMsg \<Rightarrow> ClusterServer \<Rightarrow> ClusterServer" where
  "broadcast msg cs =
     foldl (\<lambda>cs (name, l). if link_connected l then snd (send_on_link name msg cs) else cs) cs (conn_links cs)"

definition broadcast_gossip :: "GossipMsg \<Rightarrow> ClusterServer \<Rightarrow> ClusterServer" where
  "broadcast_gossip g cs = broadcast (gossip_cluster_msg g) cs"

definition broadcast_ping :: "ClusterServer \<Rightarrow> ClusterServer" where
  "broadcast_ping cs = broadcast (typed_msg kPing []) cs"

definition broadcast_pong :: "ClusterServer \<Rightarrow> ClusterServer" where
  "broadcast_pong cs = broadcast (typed_msg kPong []) cs"

definition send_command_to_node :: "string \<Rightarrow> string list \<Rightarrow> ClusterServer \<Rightarrow> bool \<times> ClusterServer" where
  "send_command_to_node name args cs = send_on_link name (typed_msg kRepData args) cs"

subsection \<open>Gossip messages\<close>

definition node_gossip_info :: "ClusterNode \<Rightarrow> GossipNodeInfo" where
  "node_gossip_info n = new_GossipNodeInfo\<lparr>gi_name := n_name n, gi_ip := n_ip n, gi_port := of_int (n_port n),
     gi_flags := ucast (n_flags n), gi_role := (if isMaster n then 0 else 1)\<rparr>"

definition with_slots :: "ClusterNode \<Rightarrow> GossipNodeInfo \<Rightarrow> GossipNodeInfo" where
  "with_slots n info =
     (let count = min (length (n_slots n)) 16384 in
      info\<lparr>gi_slot_count := of_nat count, gi_used_slot := map of_int (take count (n_slots n))\<rparr>)"

definition own_node :: "ClusterServer \<Rightarrow> addr option" where
  "own_node cs = getNode (cstate cs) (my_node_name (cstate cs))"

definition new_GossipMsg :: "GossipType \<Rightarrow> GossipMsg" where
  "new_GossipMsg t = \<lparr>gm_type = t, gm_sender_epoch = 0, gm_sender_name = [], gm_nodes = []\<rparr>"

definition build_ping_msg :: "ClusterServer \<Rightarrow> GossipMsg" where
  "build_ping_msg cs =
     (case own_node cs of
        None \<Rightarrow> new_GossipMsg gPing
      | Some a \<Rightarrow> let n = node_at cs a in
          new_GossipMsg gPing\<lparr>gm_sender_name := n_name n, gm_nodes := [with_slots n (node_gossip_info n)]\<rparr>)"

definition build_pong_msg :: "ClusterServer \<Rightarrow> GossipMsg" where
  "build_pong_msg cs =
     (case own_node cs of
        None \<Rightarrow> new_GossipMsg gPong
      | Some a \<Rightarrow>
          new_GossipMsg gPong\<lparr>gm_sender_name := n_name (node_at cs a),
            gm_nodes := map (\<lambda>a. let n = node_at cs a in with_slots n (node_gossip_info n)) (getAllNodes (cstate cs))\<rparr>)"

definition build_meet_msg :: "ClusterServer \<Rightarrow> GossipMsg" where
  "build_meet_msg cs =
     (case own_node cs of
        None \<Rightarrow> new_GossipMsg gMeet
      | Some a \<Rightarrow> let n = node_at cs a in
          new_GossipMsg gMeet\<lparr>gm_sender_name := n_name n, gm_nodes := [node_gossip_info n]\<rparr>)"

text \<open>The callback installed by \<^verbatim>\<open>init\<close>: a node takes over what gossip has heard of it.\<close>

definition update_callback :: "int \<Rightarrow> addr \<Rightarrow> ClusterServer \<Rightarrow> ClusterServer" where
  "update_callback now a cs =
     (case map_of (known_nodes cs) (n_name (node_at cs a)) of
        Some info \<Rightarrow> upd_state (upd_node a (updateNodeInfo now info)) cs
      | None \<Rightarrow> cs)"

definition note_pfail :: "string \<Rightarrow> GossipNodeInfo \<Rightarrow> ClusterServer \<Rightarrow> ClusterServer" where
  "note_pfail sender info cs =
     (if gi_flags info AND ucast flag_Pfail \<noteq> 0 then upd_state (addPfailReport (gi_name info) sender) cs else cs)"

definition handle_ping :: "int \<Rightarrow> GossipMsg \<Rightarrow> ClusterServer \<Rightarrow> ClusterServer" where
  "handle_ping now g cs =
     foldl (\<lambda>cs info.
        let cs = note_pfail (gm_sender_name g) info
                   (cs\<lparr>known_nodes := AList.update (gi_name info) info (known_nodes cs)\<rparr>)
        in case getNode (cstate cs) (gi_name info) of None \<Rightarrow> cs | Some a \<Rightarrow> update_callback now a cs)
       cs (gm_nodes g)"

definition handle_pong :: "int \<Rightarrow> GossipMsg \<Rightarrow> ClusterServer \<Rightarrow> ClusterServer" where
  "handle_pong now g cs =
     foldl (\<lambda>cs info.
        let cs = note_pfail (gm_sender_name g) info
                   (cs\<lparr>known_nodes := AList.update (gi_name info) info (known_nodes cs)\<rparr>)
        in case getNode (cstate cs) (gi_name info) of None \<Rightarrow> cs | Some a \<Rightarrow> update_callback now a cs)
       cs (gm_nodes g)"

definition handle_meet :: "GossipMsg \<Rightarrow> ClusterServer \<Rightarrow> ClusterServer" where
  "handle_meet g cs =
     foldl (\<lambda>cs info.
        case getNode (cstate cs) (gi_name info) of
          Some a \<Rightarrow> cs
        | None \<Rightarrow>
            upd_state (\<lambda>st.
              let (a, st) = alloc ((new_ClusterNode (gi_name info) (gi_ip info) (uint (gi_port info))
                      (if gi_role info = 0 then kMaster else kReplica))\<lparr>n_flags := ucast (gi_flags info)\<rparr>) st
              in addNode a st) cs)
       cs (gm_nodes g)"

definition handle_fail :: "int \<Rightarrow> GossipMsg \<Rightarrow> ClusterServer \<Rightarrow> ClusterServer" where
  "handle_fail now g cs = foldl (\<lambda>cs info. upd_state (upd_named (gi_name info) (setFailFlag now True)) cs) cs (gm_nodes g)"

definition handle_update :: "int \<Rightarrow> GossipMsg \<Rightarrow> ClusterServer \<Rightarrow> ClusterServer" where
  "handle_update now g cs =
     foldl (\<lambda>cs info.
        case getNode (cstate cs) (gi_name info) of
          None \<Rightarrow> cs
        | Some a \<Rightarrow> update_callback now a (cs\<lparr>known_nodes := AList.update (gi_name info) info (known_nodes cs)\<rparr>))
       cs (gm_nodes g)"

definition handle_failover_auth_req :: "int \<Rightarrow> GossipMsg \<Rightarrow> ClusterServer \<Rightarrow> ClusterServer" where
  "handle_failover_auth_req now g cs =
     foldl (\<lambda>cs info. case getNode (cstate cs) (gi_name info) of None \<Rightarrow> cs | Some a \<Rightarrow> update_callback now a cs)
       cs (gm_nodes g)"

definition push_node_info :: "addr \<Rightarrow> ClusterServer \<Rightarrow> ClusterServer" where
  "push_node_info a cs =
     (let n = node_at cs a in
      cs\<lparr>known_nodes := AList.update (n_name n) (with_slots n (node_gossip_info n)) (known_nodes cs)\<rparr>)"

definition broadcast_fail :: "string \<Rightarrow> ClusterServer \<Rightarrow> ClusterServer" where
  "broadcast_fail name cs =
     (case own_node cs of
        None \<Rightarrow> cs
      | Some a \<Rightarrow>
          broadcast_gossip (new_GossipMsg gFail\<lparr>gm_sender_name := n_name (node_at cs a),
            gm_sender_epoch := of_int (n_config_epoch (node_at cs a)),
            gm_nodes := (case getNode (cstate cs) name of
                           None \<Rightarrow> [] | Some f \<Rightarrow> [node_gossip_info (node_at cs f)])\<rparr>) cs)"

definition broadcast_failover_auth_req :: "string \<Rightarrow> int \<Rightarrow> int \<Rightarrow> ClusterServer \<Rightarrow> ClusterServer" where
  "broadcast_failover_auth_req replica_name epoch offset cs =
     (case own_node cs of
        None \<Rightarrow> cs
      | Some a \<Rightarrow>
          broadcast_gossip (new_GossipMsg gFailoverAuthReq\<lparr>gm_sender_name := n_name (node_at cs a),
            gm_sender_epoch := of_int epoch,
            gm_nodes := [new_GossipNodeInfo\<lparr>gi_name := replica_name, gi_epoch := of_int epoch,
                           gi_failover_offset := offset\<rparr>]\<rparr>) cs)"

definition broadcast_failover_auth_ack :: "string \<Rightarrow> int \<Rightarrow> ClusterServer \<Rightarrow> ClusterServer" where
  "broadcast_failover_auth_ack replica_name epoch cs =
     (case own_node cs of
        None \<Rightarrow> cs
      | Some a \<Rightarrow>
          broadcast_gossip (new_GossipMsg gFailoverAuthAck\<lparr>gm_sender_name := n_name (node_at cs a),
            gm_sender_epoch := of_int epoch, gm_nodes := [new_GossipNodeInfo\<lparr>gi_name := replica_name\<rparr>]\<rparr>) cs)"

subsection \<open>Slots and redirection\<close>

definition setSlotMigrating :: "int \<Rightarrow> string \<Rightarrow> ClusterServer \<Rightarrow> ClusterServer" where
  "setSlotMigrating slot target cs =
     upd_state (\<lambda>st. state_setSlotMigrating slot target (state_clearSlotMigration slot st)) cs"

definition setSlotImporting :: "int \<Rightarrow> string \<Rightarrow> ClusterServer \<Rightarrow> ClusterServer" where
  "setSlotImporting slot source cs =
     upd_state (\<lambda>st. state_setSlotImporting slot source (state_clearSlotMigration slot st)) cs"

definition clearSlotMigration :: "int \<Rightarrow> ClusterServer \<Rightarrow> ClusterServer" where
  "clearSlotMigration slot cs = upd_state (state_clearSlotMigration slot) cs"

definition setSlotOwner :: "int \<Rightarrow> string \<Rightarrow> ClusterServer \<Rightarrow> ClusterServer" where
  "setSlotOwner slot name cs =
     (case getNode (cstate cs) name of
        None \<Rightarrow> cs
      | Some a \<Rightarrow>
          upd_state (\<lambda>st. upd_node a (node_addSlot slot) (setNodeForSlot slot a (state_clearSlotMigration slot st))) cs)"

definition getSlotMigrationTarget :: "ClusterServer \<Rightarrow> int \<Rightarrow> addr option" where
  "getSlotMigrationTarget cs slot =
     (let info = getSlotMigrationInfo (cstate cs) slot in
      if mig_status info = kMigrating \<and> mig_target_node info \<noteq> [] then getNode (cstate cs) (mig_target_node info) else None)"

definition getSlotMigrationSource :: "ClusterServer \<Rightarrow> int \<Rightarrow> addr option" where
  "getSlotMigrationSource cs slot =
     (let info = getSlotMigrationInfo (cstate cs) slot in
      if mig_status info = kImporting \<and> mig_source_node info \<noteq> [] then getNode (cstate cs) (mig_source_node info) else None)"

definition getNodeByKey :: "ClusterServer \<Rightarrow> string \<Rightarrow> addr option" where
  "getNodeByKey cs key = getNodeForSlot (cstate cs) (int (keyToSlot key))"

definition address_text :: "ClusterNode \<Rightarrow> string" where
  "address_text n = n_ip n @ '':'' @ to_string (n_port n)"

text \<open>The empty string means that the command is executed here.\<close>

definition checkRedirect :: "ClusterServer \<Rightarrow> string \<Rightarrow> string" where
  "checkRedirect cs key =
     (let slot = int (keyToSlot key); st = cstate cs;
          target = (if isSlotMigrating st slot then getNode st (mig_target_node (getSlotMigrationInfo st slot)) else None)
      in case target of
           Some t \<Rightarrow> encode_error (''ASK '' @ to_string slot @ '' '' @ address_text (node_at cs t))
         | None \<Rightarrow>
             (case getNodeForSlot st slot of
                None \<Rightarrow> []
              | Some owner \<Rightarrow>
                  if n_name (node_at cs owner) \<noteq> getMyNodeName cs
                  then encode_error (''MOVED '' @ to_string slot @ '' '' @ address_text (node_at cs owner))
                  else []))"

subsection \<open>Replication roles\<close>

definition setReplicaOf :: "string \<Rightarrow> ClusterServer \<Rightarrow> bool \<times> ClusterServer" where
  "setReplicaOf master_name cs =
     (if \<not> enabled cs then (False, cs)
      else case getNode (cstate cs) master_name of
        None \<Rightarrow> (False, cs)
      | Some m \<Rightarrow>
          if \<not> isMaster (node_at cs m) then (False, cs)
          else let master = node_at cs m;
                   cs = upd_my_node (\<lambda>n. (setMaster (n_ip master) (n_port master)
                          (n\<lparr>n_role := kReplica, n_replication_state := repl_Connect\<rparr>))\<lparr>n_master_node := Some m\<rparr>) cs
               in (True, case my_node cs of Some a \<Rightarrow> upd_state (addReplica master_name a) cs | None \<Rightarrow> cs))"

definition clearReplicaOf :: "ClusterServer \<Rightarrow> ClusterServer" where
  "clearReplicaOf cs =
     (if \<not> isReplica cs then cs
      else let cs = (case getMyMaster cs of
                       Some m \<Rightarrow> upd_state (removeReplica (n_name (node_at cs m)) (getMyNodeName cs)) cs
                     | None \<Rightarrow> cs)
           in upd_my_node (\<lambda>n. n\<lparr>n_role := kMaster, n_replication_state := repl_None, n_master_node := None,
                n_replicaof_ip := [], n_replicaof_port := 0\<rparr>) cs)"

subsection \<open>Failure detection\<close>

definition handleNodeTimeout :: "int \<Rightarrow> string \<Rightarrow> ClusterServer \<Rightarrow> ClusterServer" where
  "handleNodeTimeout now name cs =
     (if \<not> enabled cs \<or> \<not> running cs \<or> name = [] then cs
      else case getNode (cstate cs) name of
        None \<Rightarrow> cs
      | Some a \<Rightarrow>
          if isFailed (node_at cs a) then cs
          else let cs = upd_state (upd_node a incrementFailureCount) cs in
            if n_failure_count (node_at cs a) \<ge> 3 then upd_state (markNodeAsPfail now name) cs else cs)"

definition handleNodeRecovery :: "int \<Rightarrow> string \<Rightarrow> ClusterServer \<Rightarrow> ClusterServer" where
  "handleNodeRecovery now name cs =
     (if \<not> enabled cs \<or> name = [] then cs
      else case getNode (cstate cs) name of
        None \<Rightarrow> cs
      | Some a \<Rightarrow>
          let cs = upd_state (upd_node a (\<lambda>n. n\<lparr>n_failure_count := 0\<rparr>)) cs;
              cs = (if isPfailed (node_at cs a) then upd_state (clearNodePfail now name) cs else cs)
          in if isFailed (node_at cs a) then upd_state (clearNodeFail now name) cs else cs)"

definition checkFailQuorum :: "ClusterServer \<Rightarrow> string \<Rightarrow> bool" where
  "checkFailQuorum cs name =
     (if \<not> enabled cs \<or> name = [] then False
      else case getNode (cstate cs) name of
        None \<Rightarrow> False
      | Some a \<Rightarrow>
          isPfailed (node_at cs a) \<and>
          (let live_masters = length (filter (\<lambda>b. isMaster (node_at cs b) \<and> n_connected (node_at cs b) \<and>
                                 \<not> isFailed (node_at cs b)) (getAllNodes (cstate cs)));
               quorum = max 2 (live_masters div 2 + 1)
           in getPfailReportCount (cstate cs) name \<ge> quorum))"

definition markNodeAsFail :: "int \<Rightarrow> string \<Rightarrow> ClusterServer \<Rightarrow> ClusterServer" where
  "markNodeAsFail now name cs =
     (if \<not> enabled cs \<or> name = [] then cs
      else case getNode (cstate cs) name of
        None \<Rightarrow> cs
      | Some a \<Rightarrow>
          let cs = upd_state (state_markNodeAsFail now name) cs in
          broadcast_gossip (new_GossipMsg gFail\<lparr>gm_sender_name := getMyNodeName cs,
            gm_sender_epoch := (case my_node cs of Some me \<Rightarrow> of_int (n_config_epoch (node_at cs me)) | None \<Rightarrow> 0),
            gm_nodes := [node_gossip_info (node_at cs a)]\<rparr>) cs)"

text \<open>\<^verbatim>\<open>check_connections\<close>: links without a byte for five seconds; the callback installed by
  \<^verbatim>\<open>init\<close> asks for the quorum.\<close>

definition ping_timeout_callback :: "int \<Rightarrow> string \<Rightarrow> ClusterServer \<Rightarrow> ClusterServer" where
  "ping_timeout_callback now name cs = (if checkFailQuorum cs name then markNodeAsFail now name cs else cs)"

definition check_connections :: "int \<Rightarrow> ClusterServer \<Rightarrow> ClusterServer" where
  "check_connections now cs =
     foldl (\<lambda>cs name. ping_timeout_callback now name (upd_state (markNodeAsPfail now name) cs)) cs
       (map fst (filter (\<lambda>(name, l). link_connected l \<and> last_recv_time l > 0 \<and> now - last_recv_time l > 5000) (conn_links cs)))"

subsection \<open>Failover\<close>

definition startFailover :: "int \<Rightarrow> string \<Rightarrow> ClusterServer \<Rightarrow> bool \<times> ClusterServer" where
  "startFailover now master_name cs =
     (if \<not> enabled cs \<or> \<not> isReplica cs then (False, cs)
      else case (my_node cs, getNode (cstate cs) master_name) of
        (Some me, Some m) \<Rightarrow>
          if \<not> isFailed (node_at cs m) then (False, cs)
          else if n_failover_state (node_at cs me) \<noteq> kNoFailover then (False, cs)
          else let new_epoch = n_config_epoch (node_at cs m) + 1 in
            (True, upd_my_node (\<lambda>n. n\<lparr>n_failover_epoch := new_epoch, n_config_epoch := new_epoch,
                     n_failover_state := kWaitStart, n_failover_start_time := now\<rparr>) cs)
      | _ \<Rightarrow> (False, cs))"

definition shouldStartFailover :: "ClusterServer \<Rightarrow> bool" where
  "shouldStartFailover cs \<longleftrightarrow> enabled cs \<and> isReplica cs \<and>
     (case (my_node cs, getMyMaster cs) of
        (Some me, Some m) \<Rightarrow> isFailed (node_at cs m) \<and> n_failover_state (node_at cs me) = kNoFailover
      | _ \<Rightarrow> False)"

text \<open>\<open>max_lag\<close> is the node timeout times the validity factor of the configuration, and \<open>master_offset\<close>
  the replication offset of this server.\<close>

definition handleFailoverAuthRequest ::
    "int \<Rightarrow> int \<Rightarrow> string \<Rightarrow> int \<Rightarrow> int \<Rightarrow> ClusterServer \<Rightarrow> bool \<times> ClusterServer" where
  "handleFailoverAuthRequest master_offset max_lag replica_name epoch offset cs =
     (case my_node cs of
        None \<Rightarrow> (False, cs)
      | Some me \<Rightarrow>
          if \<not> enabled cs \<or> \<not> isMaster (node_at cs me) \<or> getNode (cstate cs) replica_name = None then (False, cs)
          else if epoch \<le> n_failover_epoch (node_at cs me) then (False, cs)
          else if offset < master_offset - max_lag then (False, cs)
          else (True, upd_my_node (\<lambda>n. (addVote replica_name epoch offset n)\<lparr>n_failover_epoch := epoch\<rparr>) cs))"

definition handleFailoverAuthAck :: "string \<Rightarrow> ClusterServer \<Rightarrow> ClusterServer" where
  "handleFailoverAuthAck name cs =
     upd_my_node (\<lambda>n. addVote name (n_failover_epoch n) (n_master_repl_offset n) n) cs"

definition isFailoverTimeout :: "int \<Rightarrow> ClusterServer \<Rightarrow> bool" where
  "isFailoverTimeout now cs =
     (case my_node cs of
        None \<Rightarrow> False
      | Some me \<Rightarrow>
          let start = n_failover_start_time (node_at cs me) in if start = 0 then False else now - start > 30000)"

definition completeFailover :: "ClusterServer \<Rightarrow> ClusterServer" where
  "completeFailover cs =
     (if \<not> enabled cs \<or> \<not> isReplica cs then cs
      else case getMyMaster cs of
        None \<Rightarrow> cs
      | Some m \<Rightarrow>
          let master_slots = n_slots (node_at cs m);
              cs = foldl (\<lambda>cs slot. upd_state (upd_node m (node_delSlot slot)) cs) cs master_slots;
              cs = foldl (\<lambda>cs slot. setSlotOwner slot (getMyNodeName cs) cs) cs master_slots;
              cs = clearReplicaOf cs
          in upd_my_node (\<lambda>n. n\<lparr>n_config_epoch := n_config_epoch n + 1, n_failover_state := kFailoverCompleted\<rparr>) cs)"

definition broadcastFailoverUpdate :: "ClusterServer \<Rightarrow> ClusterServer" where
  "broadcastFailoverUpdate cs =
     (case my_node cs of
        None \<Rightarrow> cs
      | Some me \<Rightarrow>
          if \<not> enabled cs then cs
          else let n = node_at cs me; epoch = of_int (n_config_epoch n) in
            broadcast_gossip (new_GossipMsg gPush\<lparr>gm_sender_name := getMyNodeName cs, gm_sender_epoch := epoch,
              gm_nodes := [with_slots n ((node_gossip_info n)\<lparr>gi_epoch := epoch\<rparr>)]\<rparr>) cs)"

definition needed_votes :: "ClusterServer \<Rightarrow> nat" where
  "needed_votes cs =
     length (filter (\<lambda>a. isMaster (node_at cs a) \<and> \<not> isFailed (node_at cs a)) (getAllNodes (cstate cs))) div 2 + 1"

definition executeFailover :: "int \<Rightarrow> ClusterServer \<Rightarrow> ClusterServer" where
  "executeFailover now cs =
     (if \<not> enabled cs \<or> \<not> isReplica cs then cs
      else case (my_node cs, getMyMaster cs) of
        (Some me, Some m) \<Rightarrow>
          (let set_state = (\<lambda>st. upd_my_node (\<lambda>n. n\<lparr>n_failover_state := st\<rparr>)) in
           case n_failover_state (node_at cs me) of
             kNoFailover \<Rightarrow> if shouldStartFailover cs then snd (startFailover now (n_name (node_at cs m)) cs) else cs
           | kWaitStart \<Rightarrow>
               let cs = set_state kWaitAuth cs in
               broadcast_failover_auth_req (getMyNodeName cs) (n_failover_epoch (node_at cs me))
                 (n_master_repl_offset (node_at cs me)) cs
           | kWaitAuth \<Rightarrow>
               if isFailoverTimeout now cs then set_state kFailoverTimeout cs
               else if length (n_votes (node_at cs me)) \<ge> needed_votes cs then set_state kFailoverInProgress cs
               else cs
           | kFailoverInProgress \<Rightarrow> completeFailover cs
           | kFailoverCompleted \<Rightarrow>
               upd_my_node (\<lambda>n. n\<lparr>n_failover_state := kNoFailover, n_votes := []\<rparr>) (broadcastFailoverUpdate cs)
           | kFailoverTimeout \<Rightarrow>
               upd_my_node (\<lambda>n. n\<lparr>n_failover_state := kNoFailover, n_votes := [], n_failover_start_time := 0\<rparr>) cs)
      | _ \<Rightarrow> cs)"

subsection \<open>The heartbeat\<close>

definition start_heartbeat :: "int \<Rightarrow> ClusterServer \<Rightarrow> ClusterServer" where
  "start_heartbeat now cs =
     (if heartbeat_running cs then cs else cs\<lparr>heartbeat_running := True, last_heartbeat_time_ms := now\<rparr>)"

definition stop_heartbeat :: "ClusterServer \<Rightarrow> ClusterServer" where
  "stop_heartbeat cs = (if heartbeat_running cs then cs\<lparr>heartbeat_running := False\<rparr> else cs)"

definition start :: "int \<Rightarrow> ClusterServer \<Rightarrow> ClusterServer" where
  "start now cs = (if \<not> enabled cs then cs else start_heartbeat now (cs\<lparr>running := True\<rparr>))"

definition stop :: "ClusterServer \<Rightarrow> ClusterServer" where
  "stop cs = (if \<not> enabled cs then cs else (stop_heartbeat cs)\<lparr>running := False\<rparr>)"

definition connection_on_timer :: "int \<Rightarrow> ClusterServer \<Rightarrow> ClusterServer" where
  "connection_on_timer now cs =
     (if \<not> heartbeat_running cs then cs
      else check_connections now
             (if now - last_heartbeat_time_ms cs \<ge> 1000
              then (broadcast_ping cs)\<lparr>last_heartbeat_time_ms := now\<rparr> else cs))"

definition on_timer :: "int \<Rightarrow> ClusterServer \<Rightarrow> ClusterServer" where
  "on_timer now cs =
     (if \<not> enabled cs \<or> \<not> running cs then cs else executeFailover now (connection_on_timer now cs))"

text \<open>One beat of the heartbeat thread.\<close>

definition heartbeat :: "int \<Rightarrow> ClusterServer \<Rightarrow> ClusterServer" where
  "heartbeat now cs = on_timer now (connection_on_timer now cs)"

text \<open>The lines of \<^verbatim>\<open>nodes.conf\<close>.\<close>

definition nodes_conf_line :: "ClusterServer \<Rightarrow> addr \<Rightarrow> string" where
  "nodes_conf_line cs a =
     (let n = node_at cs a;
          role = (if isMaster n then ''master'' else if node_isReplica n then ''slave'' else ''myself'');
          fl = role @ (if isFailed n then '',fail'' else []) @ (if isPfailed n then '',fail?'' else []);
          master_name = (case getMasterNode cs a of Some m \<Rightarrow> n_name (node_at cs m) | None \<Rightarrow> ''-'')
      in n_name n @ '' '' @ n_ip n @ '':'' @ to_string (n_port n) @ '' '' @ fl @ '' '' @ master_name @ '' '' @ ''0 0 '' @
         to_string (n_config_epoch n) @ '' '' @ ''connected'' @
         concat (map (\<lambda>slot. '' '' @ to_string slot) (n_slots n)) @ [LF])"

definition saveNodesConf :: "ClusterServer \<Rightarrow> string" where
  "saveNodesConf cs = concat (map (nodes_conf_line cs) (getAllNodes (cstate cs)))"

subsection \<open>Callbacks of the bus\<close>

text \<open>A node named by its address joins as a master, or a node of unknown role becomes one.\<close>

definition meet_callback :: "string \<Rightarrow> int \<Rightarrow> ClusterServer \<Rightarrow> ClusterServer" where
  "meet_callback addr p cs =
     (let name = addr @ '':'' @ to_string p in
      case getNode (cstate cs) name of
        Some a \<Rightarrow>
          if \<not> isMaster (node_at cs a) \<and> \<not> node_isReplica (node_at cs a)
          then upd_state (upd_node a (\<lambda>n. n\<lparr>n_role := kMaster\<rparr>)) cs else cs
      | None \<Rightarrow> upd_state (\<lambda>st. let (a, st) = alloc (new_ClusterNode name addr p kMaster) st in addNode a st) cs)"

definition node_connected_callback :: "string \<Rightarrow> ClusterServer \<Rightarrow> ClusterServer option" where
  "node_connected_callback name cs =
     (let addr = takeWhile (\<lambda>c. c \<noteq> CHR '':'') name; rest = dropWhile (\<lambda>c. c \<noteq> CHR '':'') name in
      if rest = [] then Some cs
      else case stoi (tl rest) of
        None \<Rightarrow> None
      | Some p \<Rightarrow>
          Some (case getNode (cstate cs) name of
            Some a \<Rightarrow>
              if \<not> isMaster (node_at cs a) \<and> \<not> node_isReplica (node_at cs a)
              then upd_state (upd_node a (\<lambda>n. n\<lparr>n_role := kMaster\<rparr>)) cs else cs
          | None \<Rightarrow> upd_state (\<lambda>st. let (a, st) = alloc (new_ClusterNode name addr p kMaster) st in addNode a st) cs))"

definition bus_gossip_msg :: "string \<Rightarrow> ClusterMsg \<Rightarrow> GossipMsg" where
  "bus_gossip_msg sender msg =
     new_GossipMsg gPing\<lparr>gm_sender_name := sender, gm_sender_epoch := hdr_sender_epoch (msg_header msg),
       gm_nodes := List.map_filter parse_gossip_entry (msg_args msg)\<rparr>"

definition gossip_callback :: "int \<Rightarrow> int \<Rightarrow> int \<Rightarrow> string \<Rightarrow> ClusterMsg \<Rightarrow> ClusterServer \<Rightarrow> ClusterServer" where
  "gossip_callback master_offset max_lag now sender msg cs =
     (let g = bus_gossip_msg sender msg; t = hdr_type (msg_header msg) in
      if t = msg_type kFail then handle_fail now (g\<lparr>gm_type := gFail\<rparr>) cs
      else if t = msg_type kFailoverAuthReq
      then foldl (\<lambda>cs info.
             case handleFailoverAuthRequest master_offset max_lag (gi_name info) (sint (gi_epoch info))
                    (gi_failover_offset info) cs of
               (granted, cs) \<Rightarrow>
                 if granted then broadcast_failover_auth_ack (gi_name info) (sint (gi_epoch info)) cs else cs)
             (handle_failover_auth_req now (g\<lparr>gm_type := gFailoverAuthReq\<rparr>) cs) (gm_nodes g)
      else if t = msg_type kFailoverAuthAck
      then foldl (\<lambda>cs info. handleFailoverAuthAck (gi_name info) cs) cs (gm_nodes g)
      else if t = msg_type kUpdate \<or> t = msg_type kPush \<or> t = msg_type kMail \<or> t = msg_type kPublish
      then handle_update now g cs
      else cs)"

end
