(* ===== verification/CC_Replication.thy ===== *)
theory CC_Replication
  imports CC_Cluster CC_Storage CC_Object_Codec
begin

text \<open>
  The replication manager of \<^verbatim>\<open>src/src/cluster/replication_mgr.cpp\<close>: the replication buffer with its
  offsets, the stream of write commands to the replicas, and the full synchronisation of a replica.  The
  full synchronisation is split at the points where other threads can interleave: taking the snapshot,
  sending it, and replaying what was written meanwhile.
\<close>

section \<open>State\<close>

record ReplicationBufferEntry =
  entry_command :: string
  entry_offset :: int

datatype SyncState = sync_None | sync_Waiting | sync_SendingRdb | sync_Sendingkv | sync_Connected

record ReplicaInfo =
  rep_name :: string
  rep_ip :: string
  rep_port :: int
  rep_repl_offset :: int
  rep_last_ack_time :: int
  rep_sync_state :: SyncState
  rep_node :: "addr option"
  rep_pending_commands :: "string list"

record ReplicationMgr =
  master_ip :: string
  master_port :: int
  master_runid :: string
  master_repl_offset :: int
  repl_replicas :: "(string \<times> ReplicaInfo) list"
  repl_buffer :: "ReplicationBufferEntry list"
  repl_buffer_start_offset :: int
  sync_state :: SyncState
  rdb_send_in_progress :: bool

definition new_ReplicationMgr :: "string \<Rightarrow> ReplicationMgr" where
  "new_ReplicationMgr runid = \<lparr>master_ip = [], master_port = 0, master_runid = runid, master_repl_offset = 0,
     repl_replicas = [], repl_buffer = [], repl_buffer_start_offset = 0, sync_state = sync_None, rdb_send_in_progress = False\<rparr>"

text \<open>The forty hexadecimal digits are drawn by a random generator, the argument \<open>draw\<close>.\<close>

definition hex_digit :: "nat \<Rightarrow> char" where
  "hex_digit d = (if d < 10 then digit_char d else char_of (87 + d))"

definition generate_runid :: "(nat \<Rightarrow> nat) \<Rightarrow> string" where
  "generate_runid draw = map (\<lambda>i. hex_digit (draw i mod 16)) [0..<40]"

definition repl_init :: "(nat \<Rightarrow> nat) \<Rightarrow> ReplicationMgr \<Rightarrow> ReplicationMgr" where
  "repl_init draw r = r\<lparr>master_runid := generate_runid draw, master_repl_offset := 0\<rparr>"

definition add_replica :: "string \<Rightarrow> string \<Rightarrow> int \<Rightarrow> addr option \<Rightarrow> ReplicationMgr \<Rightarrow> ReplicationMgr" where
  "add_replica name addr p node r =
     r\<lparr>repl_replicas := AList.update name
         \<lparr>rep_name = name, rep_ip = addr, rep_port = p, rep_repl_offset = 0, rep_last_ack_time = 0,
          rep_sync_state = sync_Waiting, rep_node = node, rep_pending_commands = []\<rparr> (repl_replicas r)\<rparr>"

definition remove_replica :: "string \<Rightarrow> ReplicationMgr \<Rightarrow> ReplicationMgr" where
  "remove_replica name r = r\<lparr>repl_replicas := AList.delete name (repl_replicas r)\<rparr>"

definition get_all_replicas :: "ReplicationMgr \<Rightarrow> ReplicaInfo list" where
  "get_all_replicas r = map snd (repl_replicas r)"

definition set_master :: "string \<Rightarrow> int \<Rightarrow> string \<Rightarrow> ReplicationMgr \<Rightarrow> ReplicationMgr" where
  "set_master addr p runid r = r\<lparr>master_ip := addr, master_port := p, master_runid := runid, sync_state := sync_Waiting\<rparr>"

section \<open>The replication buffer\<close>

definition kReplicationBufferSize :: nat where
  "kReplicationBufferSize = 10485760"

definition cleanup_replication_buffer :: "ReplicationMgr \<Rightarrow> ReplicationMgr" where
  "cleanup_replication_buffer r =
     (if repl_buffer r = [] then r
      else let keep_count = length (repl_buffer r) div 2 in
        r\<lparr>repl_buffer := drop keep_count (repl_buffer r),
          repl_buffer_start_offset := entry_offset (repl_buffer r ! keep_count)\<rparr>)"

definition add_to_replication_buffer :: "string \<Rightarrow> ReplicationMgr \<Rightarrow> ReplicationMgr" where
  "add_to_replication_buffer command r =
     (let off = master_repl_offset r;
          r = r\<lparr>repl_buffer := repl_buffer r @ [\<lparr>entry_command = command, entry_offset = off\<rparr>],
                master_repl_offset := off + int (length command)\<rparr>;
          total_size = sum_list (map (\<lambda>e. length (entry_command e)) (repl_buffer r))
      in if total_size > kReplicationBufferSize then cleanup_replication_buffer r else r)"

definition get_replication_commands :: "int \<Rightarrow> ReplicationMgr \<Rightarrow> ReplicationBufferEntry list" where
  "get_replication_commands from_offset r = filter (\<lambda>e. entry_offset e \<ge> from_offset) (repl_buffer r)"

section \<open>Sending\<close>

definition send_replication_msg :: "string \<Rightarrow> string \<Rightarrow> ClusterServer \<Rightarrow> bool \<times> ClusterServer" where
  "send_replication_msg name cmd_line cs = send_command_to_node name [cmd_line] cs"

definition send_replication_args :: "string \<Rightarrow> string list \<Rightarrow> ClusterServer \<Rightarrow> bool \<times> ClusterServer" where
  "send_replication_args name args cs =
     (if args = [] then (False, cs) else send_command_to_node name [encode_array args] cs)"

definition replicate_command :: "string \<Rightarrow> ReplicationMgr \<times> ClusterServer \<Rightarrow> ReplicationMgr \<times> ClusterServer" where
  "replicate_command command rc =
     (let r = add_to_replication_buffer command (fst rc);
          infos = get_all_replicas r;
          r = r\<lparr>repl_replicas := map (\<lambda>(name, i).
                 (name, if rep_sync_state i = sync_SendingRdb
                        then i\<lparr>rep_pending_commands := rep_pending_commands i @ [command]\<rparr> else i)) (repl_replicas r)\<rparr>
      in (r, foldl (\<lambda>cs i. if rep_sync_state i = sync_Sendingkv \<or> rep_sync_state i = sync_Connected
                           then snd (send_replication_msg (rep_name i) command cs) else cs) (snd rc) infos))"

section \<open>Full synchronisation\<close>

definition upd_replica :: "string \<Rightarrow> (ReplicaInfo \<Rightarrow> ReplicaInfo) \<Rightarrow> ReplicationMgr \<Rightarrow> ReplicationMgr" where
  "upd_replica name f r =
     (case map_of (repl_replicas r) name of
        Some i \<Rightarrow> r\<lparr>repl_replicas := AList.update name (f i) (repl_replicas r)\<rparr> | None \<Rightarrow> r)"

text \<open>Up to the mark on the replica; \<^term>\<open>None\<close> when the call returns early.\<close>

definition sync_mark :: "string \<Rightarrow> ReplicationMgr \<Rightarrow> ReplicationMgr option" where
  "sync_mark name r =
     (if rdb_send_in_progress r then None
      else if map_of (repl_replicas r) name = None then None
      else Some (upd_replica name (\<lambda>i. i\<lparr>rep_sync_state := sync_SendingRdb\<rparr>) (r\<lparr>rdb_send_in_progress := True\<rparr>)))"

text \<open>The command for one record of the snapshot; nothing for a record that has expired.\<close>

definition restore_args :: "env \<Rightarrow> fp_lib \<Rightarrow> kv_with_ttl \<Rightarrow> string list option" where
  "restore_args e lib kv =
     (let ttl_ms = kv_expire kv - env_now e in
      if kv_expire kv > 0 \<and> ttl_ms \<le> 0 then None
      else Some [''RESTORE'', kv_key kv, to_string (if kv_expire kv > 0 then ttl_ms else -1),
                 serialize lib (kv_value kv), ''REPLACE''])"

definition sync_snapshot :: "env \<Rightarrow> fp_lib \<Rightarrow> string \<Rightarrow> kv_with_ttl list \<Rightarrow> ClusterServer \<Rightarrow> ClusterServer" where
  "sync_snapshot e lib name kvs cs =
     foldl (\<lambda>cs kv. case restore_args e lib kv of None \<Rightarrow> cs | Some args \<Rightarrow> snd (send_replication_args name args cs)) cs kvs"

definition sync_finish :: "string \<Rightarrow> ReplicationMgr \<times> ClusterServer \<Rightarrow> ReplicationMgr \<times> ClusterServer" where
  "sync_finish name rc =
     (case rc of (r, cs) \<Rightarrow>
        let backlog = (case map_of (repl_replicas r) name of Some i \<Rightarrow> rep_pending_commands i | None \<Rightarrow> []);
            r = upd_replica name (\<lambda>i. i\<lparr>rep_pending_commands := [], rep_sync_state := sync_Connected\<rparr>) r
        in (r\<lparr>rdb_send_in_progress := False\<rparr>,
            foldl (\<lambda>cs cmd. snd (send_replication_msg name cmd cs)) cs backlog))"

definition send_rdb_to_replica ::
    "env \<Rightarrow> fp_lib \<Rightarrow> storage \<Rightarrow> string \<Rightarrow> ReplicationMgr \<times> ClusterServer \<Rightarrow> bool \<times> ReplicationMgr \<times> ClusterServer" where
  "send_rdb_to_replica e lib s name rc =
     (case sync_mark name (fst rc) of
        None \<Rightarrow> (False, rc)
      | Some r \<Rightarrow> (True, sync_finish name (r, sync_snapshot e lib name (get_all_objects_with_ttl e s) (snd rc))))"

end
