(* ===== verification/CC_Server.thy ===== *)
theory CC_Server
  imports CC_Commands CC_Rdb CC_Replication
begin

text \<open>
  The server as a whole: the singletons the commands work on, and the commands that need more than the
  key space: the persistence and statistics commands of \<^verbatim>\<open>src/src/command/string_cmd.h\<close> and the
  \<^verbatim>\<open>CLUSTER\<close> command of \<^verbatim>\<open>src/src/command/cluster_cmd.cpp\<close>; with them the outbound side of
  \<^verbatim>\<open>src/src/cluster/cluster_connection.cpp\<close>, whose requests wait for a reply.  A command returns a
  reply, or the text of the exception it throws.
\<close>

section \<open>State and surroundings\<close>

text \<open>What an operation sees of the machine it runs on: the arguments of the components below, the steady
  clock, the lines of \<^verbatim>\<open>/proc/self/status\<close>, the configured path of the snapshot and lag of a replica, the
  name resolution of \<^verbatim>\<open>getaddrinfo\<close>, the outcome of \<^verbatim>\<open>connect\<close>, and the reply that reaches a waiting
  request before its timeout.\<close>

record world =
  w_env :: env
  w_fp :: fp_lib
  w_zlib :: zlib
  w_io :: save_io
  w_steady :: int
  w_status :: "string list"
  w_rdb_path :: string
  w_max_lag :: int
  w_resolve :: "string \<Rightarrow> string option"
  w_connect :: "string \<Rightarrow> int \<Rightarrow> bool"
  w_reply :: "string option"

record PendingBusReply =
  pend_deadline_ms :: int
  pend_done :: bool
  pend_reply :: string

record ServerStats =
  connections_accepted :: "64 word"
  commands_processed :: "64 word"

record server =
  sv_store :: storage
  sv_rdb :: rdb
  sv_files :: files
  sv_stats :: ServerStats
  sv_cluster :: ClusterServer
  sv_repl :: ReplicationMgr
  sv_next_request_id :: "64 word"
  sv_pending_replies :: "(64 word \<times> PendingBusReply) list"
  sv_bus_links :: "(string \<times> ClusterLink) list"
  sv_inbound_refused :: "64 word"

type_synonym command = "world \<Rightarrow> string list \<Rightarrow> server \<Rightarrow> (string + string) \<times> server"

definition word_string :: "64 word \<Rightarrow> string" where
  "word_string n = to_dec (unat n)"

definition record_connection_accepted :: "server \<Rightarrow> server" where
  "record_connection_accepted sv =
     sv\<lparr>sv_stats := (sv_stats sv)\<lparr>connections_accepted := connections_accepted (sv_stats sv) + 1\<rparr>\<rparr>"

definition record_command_processed :: "server \<Rightarrow> server" where
  "record_command_processed sv =
     sv\<lparr>sv_stats := (sv_stats sv)\<lparr>commands_processed := commands_processed (sv_stats sv) + 1\<rparr>\<rparr>"

section \<open>Persistence and statistics\<close>

definition SaveCommand :: command where
  "SaveCommand w args sv =
     (if bgsave_in_progress (sv_rdb sv) then (Inr (encode_error ''ERR BGSAVE already in progress''), sv)
      else let observed = get_dirty_count (sv_store sv) in
        case save (w_env w) (w_zlib w) (w_io w) (w_rdb_path w) (sv_store sv) (sv_rdb sv) (sv_files sv) of
          (success, r, fs) \<Rightarrow>
            let sv = sv\<lparr>sv_rdb := r, sv_files := fs\<rparr> in
            if success
            then (Inr (encode_simple_string ''OK''), sv\<lparr>sv_store := consume_dirty_count observed (sv_store sv)\<rparr>)
            else (Inr (encode_error ''ERR failed to save RDB''), sv))"

definition BgsaveCommand :: command where
  "BgsaveCommand w args sv =
     (if bgsave_in_progress (sv_rdb sv) then (Inr (encode_error ''ERR BGSAVE already in progress''), sv)
      else let observed = get_dirty_count (sv_store sv) in
        case save_in_background (sv_rdb sv) of
          (started, r) \<Rightarrow>
            let sv = sv\<lparr>sv_rdb := r\<rparr> in
            if started
            then (Inr (encode_simple_string ''Background saving started''),
                  sv\<lparr>sv_store := consume_dirty_count observed (sv_store sv)\<rparr>)
            else (Inr (encode_error ''ERR bgsave failed''), sv))"

definition LastsaveCommand :: command where
  "LastsaveCommand w args sv = (Inr (encode_integer (last_bgsave_time_sec (sv_rdb sv))), sv)"

definition rss_bytes_from_status_line :: "string \<Rightarrow> 64 word" where
  "rss_bytes_from_status_line line =
     (if take 6 line \<noteq> ''VmRSS:'' then 0
      else let ds = takeWhile is_digit (dropWhile (\<lambda>c. \<not> is_digit c) line) in
        if ds = [] then 0 else of_nat (min (dec_val ds) (2 ^ 64 - 1)) * 1024)"

definition process_rss_bytes :: "string list \<Rightarrow> 64 word" where
  "process_rss_bytes status =
     (case find (\<lambda>line. take 6 line = ''VmRSS:'') status of
        Some line \<Rightarrow> rss_bytes_from_status_line line | None \<Rightarrow> 0)"

definition info_line :: "string \<Rightarrow> string \<Rightarrow> string" where
  "info_line name v = name @ '':'' @ v @ crlf"

definition info_server :: string where
  "info_server = ''# Server'' @ crlf @ info_line ''concurrentcache_version'' ''4.0.0'' @ info_line ''os'' ''Linux'' @
     info_line ''arch_bits'' ''64''"

definition info_stats :: "server \<Rightarrow> string" where
  "info_stats sv = ''# Stats'' @ crlf @
     info_line ''total_connections_received'' (word_string (connections_accepted (sv_stats sv))) @
     info_line ''total_commands_processed'' (word_string (commands_processed (sv_stats sv))) @
     info_line ''total_bgsave_calls'' (word_string (total_bgsave_calls (sv_rdb sv))) @
     info_line ''total_rdb_saved_keys'' (word_string (total_rdb_saved_keys (sv_rdb sv)))"

definition info_memory :: "world \<Rightarrow> server \<Rightarrow> string" where
  "info_memory w sv =
     (let rss = process_rss_bytes (w_status w) in
      ''# Memory'' @ crlf @
      info_line ''used_memory_rss'' (word_string rss) @
      info_line ''used_memory_rss_human'' (word_string (rss div (1024 * 1024)) @ ''MB'') @
      info_line ''maxmemory'' ''0'' @ info_line ''maxmemory_human'' ''0B'' @
      info_line ''maxmemory_policy'' ''aru-random-shard-sampling'' @
      info_line ''used_memory_keys'' (to_dec (storage_size (sv_store sv))))"

definition info_persistence :: "server \<Rightarrow> string" where
  "info_persistence sv = ''# Persistence'' @ crlf @
     info_line ''rdb_enabled'' ''yes'' @
     info_line ''rdb_last_bgsave_status''
       (case last_bgsave_status (sv_rdb sv) of SUCCESS \<Rightarrow> ''ok'' | FAILED \<Rightarrow> ''err'' | _ \<Rightarrow> ''idle'') @
     info_line ''rdb_last_bgsave_time_sec'' (to_string (last_bgsave_time_sec (sv_rdb sv))) @
     info_line ''rdb_last_bgsave_keys'' (to_dec (last_bgsave_keys (sv_rdb sv))) @
     info_line ''rdb_dirty_count'' (word_string (get_dirty_count (sv_store sv)))"

definition info_keyspace :: "world \<Rightarrow> server \<Rightarrow> string" where
  "info_keyspace w sv =
     (case stats (env_now (w_env w)) (expires (sv_store sv)) of (live_expires, avg_ttl_ms) \<Rightarrow>
        ''# Keyspace'' @ crlf @
        info_line ''db0'' (''keys='' @ to_dec (storage_size (sv_store sv)) @ '',expires='' @ to_dec live_expires @
          '',avg_ttl='' @ to_string avg_ttl_ms))"

definition InfoCommand :: command where
  "InfoCommand w args sv =
     (let sec = (if length args \<ge> 2 then args ! 1 else ''all'');
          shown = (\<lambda>name text. if sec = name \<or> sec = ''all'' then text else []);
          result = shown ''server'' info_server @ shown ''stats'' (info_stats sv) @ shown ''memory'' (info_memory w sv) @
                   shown ''persistence'' (info_persistence sv) @ shown ''keyspace'' (info_keyspace w sv)
      in (Inr (if result = [] then encode_error (''ERR Unknown INFO section: '' @ sec) else encode_bulk_string result), sv))"

section \<open>Connections to other nodes\<close>

definition is_node_connected :: "string \<Rightarrow> ClusterServer \<Rightarrow> bool" where
  "is_node_connected name cs = (case map_of (conn_links cs) name of Some l \<Rightarrow> link_connected l | None \<Rightarrow> False)"

text \<open>An exception of the callback leaves the new link in the table.\<close>

definition connect_to_node :: "world \<Rightarrow> string \<Rightarrow> string \<Rightarrow> int \<Rightarrow> ClusterServer \<Rightarrow> (string + bool) \<times> ClusterServer" where
  "connect_to_node w name addr p cs =
     (let bus_port = p + 10000 in
      if map_of (conn_links cs) name \<noteq> None then (Inr True, cs)
      else if \<not> w_connect w addr bus_port then (Inr False, cs)
      else let l = (new_ClusterLink name addr bus_port)\<lparr>link_connected := True, last_recv_time := w_steady w\<rparr>;
               cs = cs\<lparr>conn_links := AList.update name l (conn_links cs)\<rparr>
           in case node_connected_callback name cs of
                None \<Rightarrow> (Inl ''stoi'', cs)
              | Some cs \<Rightarrow> (Inr True, cs))"

definition disconnect_from_node :: "string \<Rightarrow> ClusterServer \<Rightarrow> ClusterServer" where
  "disconnect_from_node name cs = cs\<lparr>conn_links := AList.delete name (conn_links cs)\<rparr>"

definition disconnect_all :: "ClusterServer \<Rightarrow> ClusterServer" where
  "disconnect_all cs = cs\<lparr>conn_links := []\<rparr>"

definition meet_node :: "string \<Rightarrow> string \<Rightarrow> int \<Rightarrow> ClusterServer \<Rightarrow> bool \<times> ClusterServer" where
  "meet_node name my_ip my_port cs = send_on_link name (typed_msg kMeet [my_ip, to_string my_port]) cs"

definition erase_pending :: "64 word \<Rightarrow> server \<Rightarrow> server" where
  "erase_pending rid sv = sv\<lparr>sv_pending_replies := AList.delete rid (sv_pending_replies sv)\<rparr>"

definition deliver_command_reply :: "64 word \<Rightarrow> string \<Rightarrow> server \<Rightarrow> server" where
  "deliver_command_reply rid reply sv =
     (case map_of (sv_pending_replies sv) rid of
        None \<Rightarrow> sv
      | Some p \<Rightarrow> sv\<lparr>sv_pending_replies :=
          AList.update rid (p\<lparr>pend_reply := reply, pend_done := True\<rparr>) (sv_pending_replies sv)\<rparr>)"

text \<open>Registering the request and sending it.\<close>

definition begin_request :: "world \<Rightarrow> string \<Rightarrow> string list \<Rightarrow> int \<Rightarrow> server \<Rightarrow> bool \<times> 64 word \<times> server" where
  "begin_request w name args timeout_ms sv =
     (let rid = sv_next_request_id sv;
          kept = filter (\<lambda>(i, p). \<not> pend_deadline_ms p < w_steady w) (sv_pending_replies sv);
          pending = (if map_of kept rid \<noteq> None then kept
                     else (rid, \<lparr>pend_deadline_ms = w_steady w + timeout_ms, pend_done = False, pend_reply = []\<rparr>) # kept);
          sv = sv\<lparr>sv_next_request_id := rid + 1, sv_pending_replies := pending\<rparr>
      in case send_command_to_node name [''CCREQ '' @ word_string rid @ '' '' @ encode_array args] (sv_cluster sv) of
           (sent, cs) \<Rightarrow> (sent, rid, sv\<lparr>sv_cluster := cs\<rparr>))"

text \<open>The reply is delivered by the thread that reads the links while this one waits.\<close>

definition send_command_and_wait ::
    "world \<Rightarrow> string \<Rightarrow> string list \<Rightarrow> int \<Rightarrow> server \<Rightarrow> string option \<times> server" where
  "send_command_and_wait w name args timeout_ms sv =
     (if args = [] \<or> timeout_ms \<le> 0 then (None, sv)
      else case begin_request w name args timeout_ms sv of (sent, rid, sv) \<Rightarrow>
        if \<not> sent then (None, erase_pending rid sv)
        else let sv = (case w_reply w of Some reply \<Rightarrow> deliver_command_reply rid reply sv | None \<Rightarrow> sv) in
          (case map_of (sv_pending_replies sv) rid of
             Some p \<Rightarrow> if pend_done p then Some (pend_reply p) else None
           | None \<Rightarrow> None, erase_pending rid sv))"

section \<open>The CLUSTER command\<close>

subsection \<open>Addresses\<close>

definition is_xdigit :: "char \<Rightarrow> bool" where
  "is_xdigit c \<longleftrightarrow> is_digit c \<or> (97 \<le> byte c \<and> byte c \<le> 102) \<or> (65 \<le> byte c \<and> byte c \<le> 70)"

text \<open>One segment between dots: one to three digits without a leading zero, at most 255.\<close>

definition ip_segment :: "string \<Rightarrow> bool" where
  "ip_segment seg \<longleftrightarrow> 1 \<le> length seg \<and> length seg \<le> 3 \<and> list_all is_digit seg \<and>
     \<not> (length seg > 1 \<and> seg ! 0 = CHR ''0'') \<and> dec_val seg \<le> 255"

text \<open>The loop over the characters, with the segment since the last dot and the number of dots.\<close>

fun ipv4_scan :: "string \<Rightarrow> string \<Rightarrow> nat \<Rightarrow> bool" where
  "ipv4_scan [] seg dots \<longleftrightarrow> ip_segment seg \<and> dots = 3"
| "ipv4_scan (c # cs) seg dots \<longleftrightarrow>
     (if c = CHR ''.'' then ip_segment seg \<and> ipv4_scan cs [] (dots + 1)
      else is_digit c \<and> ipv4_scan cs (seg @ [c]) dots)"

definition isValidIp :: "string \<Rightarrow> bool" where
  "isValidIp addr \<longleftrightarrow> addr \<noteq> [] \<and> length addr \<le> 45 \<and>
     (if CHR '':'' \<notin> set addr then ipv4_scan addr [] 0
      else list_all (\<lambda>c. is_xdigit c \<or> c = CHR '':'' \<or> c = CHR ''.'') addr)"

definition parse_bounded_integer :: "string \<Rightarrow> int option" where
  "parse_bounded_integer text =
     (case from_chars_ll text of Some (v, rest) \<Rightarrow> if rest = [] then Some v else None | None \<Rightarrow> None)"

definition parse_port :: "string \<Rightarrow> int option" where
  "parse_port s = (case stoi s of Some p \<Rightarrow> if p \<le> 0 \<or> p > 65535 then None else Some p | None \<Rightarrow> None)"

subsection \<open>Subcommands\<close>

definition cluster_args :: "string \<Rightarrow> string" where
  "cluster_args sub = wrong_args (''cluster '' @ sub)"

definition cluster_disabled :: string where
  "cluster_disabled = encode_error ''ERR cluster mode is not enabled''"

definition cluster_uninitialised :: string where
  "cluster_uninitialised = encode_error ''ERR cluster not initialized''"

definition ok_reply :: string where
  "ok_reply = encode_simple_string ''OK''"

text \<open>The checks that open the subcommands which change the cluster.\<close>

definition with_my_node ::
    "(addr \<Rightarrow> ClusterServer \<Rightarrow> string \<times> ClusterServer) \<Rightarrow> ClusterServer \<Rightarrow> string \<times> ClusterServer" where
  "with_my_node f cs =
     (if \<not> enabled cs then (cluster_disabled, cs)
      else case my_node cs of None \<Rightarrow> (cluster_uninitialised, cs) | Some me \<Rightarrow> f me cs)"

definition handleMeet :: "world \<Rightarrow> string list \<Rightarrow> ClusterServer \<Rightarrow> (string + string) \<times> ClusterServer" where
  "handleMeet w args cs =
     (if length args < 4 then (Inr (cluster_args ''meet''), cs)
      else case (if isValidIp (args ! 2) then Some (args ! 2) else w_resolve w (args ! 2)) of
        None \<Rightarrow> (Inr (encode_error ''ERR Invalid or unresolvable IP address or hostname''), cs)
      | Some addr \<Rightarrow>
        (case parse_port (args ! 3) of
           None \<Rightarrow> (Inr (encode_error ''ERR invalid port number''), cs)
         | Some p \<Rightarrow>
           if \<not> enabled cs then (Inr cluster_disabled, cs)
           else case my_node cs of
             None \<Rightarrow> (Inr cluster_uninitialised, cs)
           | Some me \<Rightarrow>
             let my_ip = n_ip (node_at cs me); my_port = n_port (node_at cs me); name = addr @ '':'' @ to_string p in
             if my_ip = addr \<and> my_port = p then (Inr (encode_error ''ERR cannot meet yourself''), cs)
             else case getNodeByIpPort (cstate cs) addr p of
               Some existing \<Rightarrow>
                 if is_node_connected name cs then (Inr ok_reply, cs)
                 else (case connect_to_node w name addr p cs of
                         (Inl exn, cs) \<Rightarrow> (Inl exn, cs)
                       | (Inr ok, cs) \<Rightarrow> (Inr ok_reply, snd (meet_node name my_ip my_port cs)))
             | None \<Rightarrow>
                 let cs = upd_state (\<lambda>st. let (a, st) = alloc (new_ClusterNode name addr p kMaster) st in addNode a st) cs in
                 (case connect_to_node w name addr p cs of
                    (Inl exn, cs) \<Rightarrow> (Inl exn, cs)
                  | (Inr ok, cs) \<Rightarrow> (Inr ok_reply, if ok then snd (meet_node name my_ip my_port cs) else cs))))"

definition comma_list :: "int list \<Rightarrow> string" where
  "comma_list xs = (case map to_string xs of [] \<Rightarrow> [] | t # ts \<Rightarrow> foldl (\<lambda>r s. r @ '','' @ s) t ts)"

definition node_line :: "ClusterNode \<Rightarrow> string" where
  "node_line n = n_name n @ '' '' @ n_ip n @ '':'' @ to_string (n_port n) @
     (if isMaster n then '' master'' else if node_isReplica n then '' slave'' else '' myself,?'') @
     (if n_connected n then '' connected'' else '' disconnected'') @
     (if n_slots n = [] then '' -'' else '' '' @ comma_list (n_slots n)) @
     (if node_isReplica n \<and> n_replicaof_ip n \<noteq> [] then '' '' @ n_replicaof_ip n @ '':'' @ to_string (n_replicaof_port n)
      else '' -'') @ [LF]"

definition handleNodes :: "ClusterServer \<Rightarrow> string" where
  "handleNodes cs =
     (let ns = getAllNodes (cstate cs) in
      if ns = [] then encode_simple_string ''no nodes''
      else encode_bulk_string (concat (map (\<lambda>a. node_line (node_at cs a)) ns)))"

definition info_row :: "string \<Rightarrow> string \<Rightarrow> string" where
  "info_row name v = name @ '':'' @ v @ [LF]"

definition handleInfo :: "server \<Rightarrow> string" where
  "handleInfo sv =
     (let cs = sv_cluster sv in
      if \<not> enabled cs then cluster_disabled
      else case my_node cs of
        None \<Rightarrow> cluster_uninitialised
      | Some me \<Rightarrow>
        let ns = map (node_at cs) (getAllNodes (cstate cs)); count = (\<lambda>P. to_dec (length (filter P ns))) in
        encode_bulk_string (
          info_row ''cluster_enabled'' ''yes'' @ info_row ''cluster_state'' ''ok'' @
          info_row ''cluster_known_nodes'' (to_dec (length ns)) @
          info_row ''cluster_master_nodes'' (count isMaster) @
          info_row ''cluster_replica_nodes'' (count (\<lambda>n. \<not> isMaster n \<and> node_isReplica n)) @
          info_row ''cluster_handshake_nodes'' (count (hasFlags flag_Handshake)) @
          info_row ''cluster_connected_nodes'' (count (\<lambda>n. \<not> hasFlags flag_Handshake n \<and> n_connected n)) @
          info_row ''cluster_bus_identity_rejected'' (word_string (bus_identity_rejections (cstate cs))) @
          info_row ''cluster_bus_inbound_links'' (to_dec (length (sv_bus_links sv))) @
          info_row ''cluster_bus_inbound_refused'' (word_string (sv_inbound_refused sv)) @
          info_row ''cluster_slots_assigned'' (to_dec (getSlotOwnerCount (cstate cs))) @
          info_row ''cluster_my_node'' (n_name (node_at cs me)) @
          info_row ''cluster_current_epoch'' (to_string (n_config_epoch (node_at cs me))) @
          info_row ''cluster_stats_messages_sent'' (word_string (bus_messages_sent (cstate cs))) @
          info_row ''cluster_stats_messages_received'' (word_string (bus_messages_received (cstate cs)))))"

text \<open>All slot numbers are read before any is used.\<close>

fun parse_slots :: "string list \<Rightarrow> int list option" where
  "parse_slots [] = Some []"
| "parse_slots (a # as) =
     (case stoi a of
        None \<Rightarrow> None
      | Some slot \<Rightarrow> if slot < 0 \<or> slot > 16383 then None else map_option ((#) slot) (parse_slots as))"

definition invalid_slot :: string where
  "invalid_slot = encode_error ''ERR invalid slot number''"

text \<open>The loop stops at the first slot another node owns; the slots before it stay assigned.\<close>

fun assign_slots :: "addr \<Rightarrow> int list \<Rightarrow> ClusterServer \<Rightarrow> string \<times> ClusterServer" where
  "assign_slots me [] cs = (ok_reply, cs)"
| "assign_slots me (slot # slots) cs =
     (case getNodeForSlot (cstate cs) slot of
        Some existing \<Rightarrow>
          if existing \<noteq> me
          then (encode_error (''ERR slot '' @ to_string slot @ '' is already owned by another node''), cs)
          else if hasSlot slot (node_at cs me) then assign_slots me slots cs
          else assign_slots me slots (upd_state (\<lambda>st. setNodeForSlot slot me (upd_node me (node_addSlot slot) st)) cs)
      | None \<Rightarrow>
          if hasSlot slot (node_at cs me) then assign_slots me slots cs
          else assign_slots me slots (upd_state (\<lambda>st. setNodeForSlot slot me (upd_node me (node_addSlot slot) st)) cs))"

definition handleAddSlots :: "string list \<Rightarrow> ClusterServer \<Rightarrow> string \<times> ClusterServer" where
  "handleAddSlots args cs =
     (if length args < 3 then (cluster_args ''addslots'', cs)
      else with_my_node (\<lambda>me cs.
        case parse_slots (drop 2 args) of
          None \<Rightarrow> (invalid_slot, cs)
        | Some slots \<Rightarrow> assign_slots me slots cs) cs)"

definition handleSlots :: "ClusterServer \<Rightarrow> string" where
  "handleSlots cs =
     (if \<not> enabled cs then cluster_disabled
      else let node_slots = filter (\<lambda>n. n_slots n \<noteq> []) (map (node_at cs) (getAllNodes (cstate cs))) in
        if node_slots = [] then encode_array []
        else encode_nested_array (map (\<lambda>n. n_ip n # to_string (n_port n) # map to_string (n_slots n))
               (sort_key (\<lambda>n. (n_ip n, n_port n)) node_slots)))"

definition release_slots :: "addr \<Rightarrow> int list \<Rightarrow> ClusterServer \<Rightarrow> ClusterServer" where
  "release_slots me slots cs =
     foldl (\<lambda>cs slot. if hasSlot slot (node_at cs me)
                      then upd_state (\<lambda>st. state_delSlot slot (upd_node me (node_delSlot slot) st)) cs else cs) cs slots"

definition handleDelSlots :: "string list \<Rightarrow> ClusterServer \<Rightarrow> string \<times> ClusterServer" where
  "handleDelSlots args cs =
     (if length args < 3 then (cluster_args ''delslots'', cs)
      else with_my_node (\<lambda>me cs.
        case parse_slots (drop 2 args) of
          None \<Rightarrow> (invalid_slot, cs)
        | Some slots \<Rightarrow> (ok_reply, release_slots me slots cs)) cs)"

definition setslot_node :: "int \<Rightarrow> string \<Rightarrow> addr \<Rightarrow> ClusterServer \<Rightarrow> ClusterServer" where
  "setslot_node slot name node cs =
     setSlotOwner slot name
       (case getNodeForSlot (cstate cs) slot of
          Some old_owner \<Rightarrow>
            if old_owner \<noteq> node then upd_state (upd_node old_owner (node_delSlot slot)) cs else cs
        | None \<Rightarrow> cs)"

definition handleSetSlot :: "string list \<Rightarrow> ClusterServer \<Rightarrow> string \<times> ClusterServer" where
  "handleSetSlot args cs =
     (if length args < 4 then (cluster_args ''setslot'', cs)
      else with_my_node (\<lambda>me cs.
        case parse_slots [args ! 2] of
          Some [slot] \<Rightarrow>
            let state = args ! 3; named = (if length args < 5 then None else Some (args ! 4)) in
            if state = ''MIGRATING'' then
              (case named of
                 None \<Rightarrow> (encode_error ''ERR syntax error, MIGRATING needs target node'', cs)
               | Some name \<Rightarrow>
                 if getNode (cstate cs) name = None then (encode_error ''ERR target node not found'', cs)
                 else (ok_reply, setSlotMigrating slot name cs))
            else if state = ''IMPORTING'' then
              (case named of
                 None \<Rightarrow> (encode_error ''ERR syntax error, IMPORTING needs source node'', cs)
               | Some name \<Rightarrow>
                 if getNode (cstate cs) name = None then (encode_error ''ERR source node not found'', cs)
                 else (ok_reply, setSlotImporting slot name cs))
            else if state = ''NODE'' then
              (case named of
                 None \<Rightarrow> (encode_error ''ERR syntax error, NODE needs node name'', cs)
               | Some name \<Rightarrow>
                 (case getNode (cstate cs) name of
                    None \<Rightarrow> (encode_error ''ERR node not found'', cs)
                  | Some node \<Rightarrow> (ok_reply, setslot_node slot name node cs)))
            else if state = ''STABLE'' then (ok_reply, clearSlotMigration slot cs)
            else (encode_error ''ERR invalid slot state'', cs)
        | _ \<Rightarrow> (invalid_slot, cs)) cs)"

definition handleReplicate :: "string list \<Rightarrow> ClusterServer \<Rightarrow> string \<times> ClusterServer" where
  "handleReplicate args cs =
     (if length args < 3 then (cluster_args ''replicate'', cs)
      else with_my_node (\<lambda>me cs.
        if node_isReplica (node_at cs me) then (encode_error ''ERR node is already a replica'', cs)
        else let master_name = args ! 2 in
          case getNode (cstate cs) master_name of
            None \<Rightarrow> (encode_error (''ERR node not found: '' @ master_name), cs)
          | Some master \<Rightarrow>
            if \<not> isMaster (node_at cs master) then (encode_error ''ERR target node is not a master'', cs)
            else (case setReplicaOf master_name cs of
                    (True, cs) \<Rightarrow>
                      (ok_reply, snd (send_command_to_node master_name [''REPLSYNC:'' @ n_name (node_at cs me)] cs))
                  | (False, cs) \<Rightarrow> (encode_error ''ERR failed to set replica'', cs))) cs)"

definition handleFail :: "world \<Rightarrow> string list \<Rightarrow> ClusterServer \<Rightarrow> string \<times> ClusterServer" where
  "handleFail w args cs =
     (if length args < 3 then (cluster_args ''fail'', cs)
      else with_my_node (\<lambda>me cs.
        let name = args ! 2 in
        if getNode (cstate cs) name = None then (encode_error (''ERR node not found: '' @ name), cs)
        else (ok_reply, markNodeAsFail (w_steady w) name cs)) cs)"

definition kMaxMigrateTimeoutMs :: int where
  "kMaxMigrateTimeoutMs = 60000"

text \<open>The reply of the target node decides: the source key is removed after its confirmation only.\<close>

definition migrate_reply :: "world \<Rightarrow> string \<Rightarrow> string option \<Rightarrow> server \<Rightarrow> string \<times> server" where
  "migrate_reply w key target_reply sv =
     (case target_reply of
        None \<Rightarrow> (encode_error
          ''ERR MIGRATE timed out or could not reach the target node; the source key was kept'', sv)
      | Some reply \<Rightarrow>
          if take 3 reply \<noteq> ''+OK''
          then (encode_error
                 (if reply \<noteq> [] \<and> hd reply = CHR ''-''
                  then ''ERR target node replied: '' @
                       (case find_crlf reply of Some i \<Rightarrow> take (i - 1) (tl reply) | None \<Rightarrow> tl reply)
                  else ''ERR target node returned an unexpected reply''), sv)
          else (ok_reply, sv\<lparr>sv_store := snd (del (w_env w) key (sv_store sv))\<rparr>))"

definition migrate_args :: "fp_lib \<Rightarrow> string \<Rightarrow> int \<Rightarrow> cache_object \<Rightarrow> bool \<Rightarrow> string list" where
  "migrate_args lib key ttl_ms ob replace =
     [''RESTORE'', key, to_string ttl_ms, serialize lib ob] @ (if replace then [''REPLACE''] else [])"

text \<open>Sending a key with its remaining time to live; the value has been read.\<close>

definition migrate_key :: "world \<Rightarrow> string \<Rightarrow> int \<Rightarrow> string \<Rightarrow> int \<Rightarrow> bool \<Rightarrow> cache_object \<Rightarrow> server \<Rightarrow> (string + string) \<times> server" where
  "migrate_key w host p key timeout replace ob sv =
     (let now = env_now (w_env w); d = expires (sv_store sv) in
      if is_expired now key d
      then (Inr (encode_error ''ERR no such key''), sv\<lparr>sv_store := snd (del (w_env w) key (sv_store sv))\<rparr>)
      else let remaining = get_ttl now key d; ttl_ms = (if remaining > 0 then remaining else -1);
               target_name = host @ '':'' @ to_string p
           in case (if is_node_connected target_name (sv_cluster sv) then (Inr True, sv_cluster sv)
                    else connect_to_node w target_name host p (sv_cluster sv)) of
                (Inl exn, cs) \<Rightarrow> (Inl exn, sv\<lparr>sv_cluster := cs\<rparr>)
              | (Inr connected, cs) \<Rightarrow>
                  if \<not> connected then (Inr (encode_error ''ERR failed to connect to target node''), sv\<lparr>sv_cluster := cs\<rparr>)
                  else case send_command_and_wait w target_name (migrate_args (w_fp w) key ttl_ms ob replace) timeout
                              (sv\<lparr>sv_cluster := cs\<rparr>) of
                         (target_reply, sv) \<Rightarrow> (case migrate_reply w key target_reply sv of (r, sv) \<Rightarrow> (Inr r, sv)))"

definition handleMigrate :: command where
  "handleMigrate w args sv =
     (if length args < 6 then (Inr (cluster_args ''migrate''), sv)
      else case parse_bounded_integer (args ! 5) of
        None \<Rightarrow> (Inr (encode_error ''ERR timeout is not an integer or out of range''), sv)
      | Some timeout \<Rightarrow>
        if timeout \<le> 0 \<or> timeout > kMaxMigrateTimeoutMs
        then (Inr (encode_error ''ERR timeout must be between 1 and 60000 milliseconds''), sv)
        else if \<not> enabled (sv_cluster sv) then (Inr cluster_disabled, sv)
        else case parse_port (args ! 3) of
          None \<Rightarrow> (Inr (encode_error ''ERR invalid port number''), sv)
        | Some p \<Rightarrow>
          let replace = (length args > 6 \<and> args ! 6 = ''REPLACE'') in
          case storage_get (w_env w) (args ! 4) (sv_store sv) of
            (None, s) \<Rightarrow> (Inr (encode_error ''ERR no such key''), sv\<lparr>sv_store := s\<rparr>)
          | (Some ob, s) \<Rightarrow> migrate_key w (args ! 2) p (args ! 4) timeout replace ob (sv\<lparr>sv_store := s\<rparr>))"

definition on_cluster :: "(ClusterServer \<Rightarrow> string \<times> ClusterServer) \<Rightarrow> server \<Rightarrow> (string + string) \<times> server" where
  "on_cluster f sv = (case f (sv_cluster sv) of (r, cs) \<Rightarrow> (Inr r, sv\<lparr>sv_cluster := cs\<rparr>))"

definition ClusterCommand :: command where
  "ClusterCommand w args sv =
     (if length args < 2 then (Inr (wrong_args ''cluster''), sv)
      else let subcommand = map to_lower (args ! 1) in
        if subcommand = ''meet'' then (case handleMeet w args (sv_cluster sv) of (r, cs) \<Rightarrow> (r, sv\<lparr>sv_cluster := cs\<rparr>))
        else if subcommand = ''nodes'' then (Inr (handleNodes (sv_cluster sv)), sv)
        else if subcommand = ''info'' then (Inr (handleInfo sv), sv)
        else if subcommand = ''addslots'' then on_cluster (handleAddSlots args) sv
        else if subcommand = ''slots'' then (Inr (handleSlots (sv_cluster sv)), sv)
        else if subcommand = ''delslots'' then on_cluster (handleDelSlots args) sv
        else if subcommand = ''setslot'' then on_cluster (handleSetSlot args) sv
        else if subcommand = ''replicate'' then on_cluster (handleReplicate args) sv
        else if subcommand = ''fail'' then on_cluster (handleFail w args) sv
        else if subcommand = ''migrate'' then handleMigrate w args sv
        else (Inr (encode_error ''ERR Unknown CLUSTER subcommand''), sv))"

section \<open>The command table\<close>

text \<open>The commands of the key space as commands of the server.\<close>

definition store_cmd :: "(env \<Rightarrow> string list \<Rightarrow> storage \<Rightarrow> string \<times> storage) \<Rightarrow> command" where
  "store_cmd f w args sv = (case f (w_env w) args (sv_store sv) of (r, s) \<Rightarrow> (Inr r, sv\<lparr>sv_store := s\<rparr>))"

definition score_cmd :: "(env \<Rightarrow> fp_lib \<Rightarrow> string list \<Rightarrow> storage \<Rightarrow> string \<times> storage) \<Rightarrow> command" where
  "score_cmd f w = store_cmd (\<lambda>e. f e (w_fp w)) w"

definition query_cmd :: "(env \<Rightarrow> string list \<Rightarrow> storage \<Rightarrow> string) \<Rightarrow> command" where
  "query_cmd f w args sv = (Inr (f (w_env w) args (sv_store sv)), sv)"

definition CommandFactory :: "(string \<times> command) list" where
  "CommandFactory =
    [(''get'', store_cmd GetCommand), (''set'', store_cmd SetCommand), (''del'', store_cmd DelCommand),
     (''incr'', store_cmd IncrCommand), (''decr'', store_cmd DecrCommand), (''incrby'', store_cmd IncrbyCommand),
     (''decrby'', store_cmd DecrbyCommand), (''exists'', query_cmd ExistsCommand),
     (''ping'', query_cmd (\<lambda>e args s. PingCommand args)), (''expire'', store_cmd ExpireCommand),
     (''ttl'', query_cmd TtlCommand), (''pttl'', query_cmd PTtlCommand), (''persist'', store_cmd PersistCommand),
     (''setex'', store_cmd SetexCommand),
     (''lpush'', store_cmd LpushCommand), (''rpush'', store_cmd RpushCommand), (''lpop'', store_cmd LpopCommand),
     (''rpop'', store_cmd RpopCommand), (''llen'', store_cmd LlenCommand), (''lrange'', store_cmd LrangeCommand),
     (''hset'', store_cmd HsetCommand), (''hget'', store_cmd HgetCommand), (''hdel'', store_cmd HdelCommand),
     (''hlen'', store_cmd HlenCommand), (''hgetall'', store_cmd HgetallCommand),
     (''sadd'', store_cmd SaddCommand), (''spop'', store_cmd SpopCommand), (''scard'', store_cmd ScardCommand),
     (''sismember'', store_cmd SismemberCommand), (''smembers'', store_cmd SmembersCommand),
     (''zadd'', score_cmd ZaddCommand), (''zscore'', score_cmd ZscoreCommand), (''zcard'', store_cmd ZcardCommand),
     (''zrange'', score_cmd ZrangeCommand),
     (''save'', SaveCommand), (''bgsave'', BgsaveCommand), (''lastsave'', LastsaveCommand),
     (''dbsize'', query_cmd (\<lambda>e. DbsizeCommand)), (''flushdb'', store_cmd (\<lambda>e. FlushdbCommand)),
     (''info'', InfoCommand), (''debug'', store_cmd DebugCommand), (''cluster'', ClusterCommand),
     (''restore'', score_cmd RestoreCommand), (''psync'', query_cmd (\<lambda>e args s. PsyncCommand args)),
     (''sync'', query_cmd (\<lambda>e args s. SyncCommand args)), (''replconf'', query_cmd (\<lambda>e args s. ReplconfCommand args))]"

definition create :: "string \<Rightarrow> command option" where
  "create name = (case map_of CommandFactory name of
     Some c \<Rightarrow> Some c | None \<Rightarrow> map_of CommandFactory (map to_lower name))"

end
