(* ===== verification/CC_Dispatch.thy ===== *)
theory CC_Dispatch
  imports CC_Server
begin

text \<open>
  How requests reach the commands: the client connection of \<^verbatim>\<open>src/src/network/connection.cpp\<close>, the
  command callback of \<^verbatim>\<open>src/src/network/sub_reactor.cpp\<close>, the execution of commands that arrive on the
  cluster bus (\<^verbatim>\<open>src/src/cluster/replication_mgr.cpp\<close>), the handler of bus messages of
  \<^verbatim>\<open>src/src/cluster/cluster_connection.cpp\<close>, and the inbound links of \<^verbatim>\<open>src/src/cluster/cluster_bus.cpp\<close>.
\<close>

section \<open>Client connections\<close>

text \<open>The input buffer is part of the parser state; \<open>conn_writing\<close> says whether the connection waits to
  be writable.\<close>

record Connection =
  conn_closed :: bool
  conn_parser :: parser
  conn_output :: string
  conn_writing :: bool
  input_buffer_limit_bytes :: nat
  output_buffer_limit_bytes :: nat

definition kDefaultInputBufferLimit :: nat where "kDefaultInputBufferLimit = 16777216"

definition kDefaultOutputBufferLimit :: nat where "kDefaultOutputBufferLimit = 67108864"

definition kMinBufferLimit :: nat where "kMinBufferLimit = 1048576"

definition normalize_buffer_limit :: "int \<Rightarrow> nat \<Rightarrow> nat" where
  "normalize_buffer_limit configured default_bytes =
     (if configured = 0 then 0
      else let b = (if configured > 0 then nat configured else default_bytes) in
        if b < kMinBufferLimit then kMinBufferLimit else b)"

definition new_Connection :: "int \<Rightarrow> int \<Rightarrow> Connection" where
  "new_Connection in_limit out_limit =
     \<lparr>conn_closed = False, conn_parser = RespParser [], conn_output = [], conn_writing = False,
      input_buffer_limit_bytes = normalize_buffer_limit in_limit kDefaultInputBufferLimit,
      output_buffer_limit_bytes = normalize_buffer_limit out_limit kDefaultOutputBufferLimit\<rparr>"

definition conn_close :: "Connection \<Rightarrow> Connection" where
  "conn_close c = c\<lparr>conn_closed := True\<rparr>"

definition send_response :: "string \<Rightarrow> Connection \<Rightarrow> Connection" where
  "send_response data c =
     (if data = [] \<or> conn_closed c then c
      else let c = c\<lparr>conn_output := conn_output c @ data\<rparr> in
        if output_buffer_limit_bytes c > 0 \<and> length (conn_output c) > output_buffer_limit_bytes c then conn_close c
        else c\<lparr>conn_writing := True\<rparr>)"

text \<open>The bytes handed to the socket, and the connection.\<close>

definition conn_handle_write :: "send_result \<Rightarrow> Connection \<Rightarrow> string \<times> Connection" where
  "conn_handle_write r c =
     (if conn_closed c then ([], c)
      else if conn_output c = [] then ([], c\<lparr>conn_writing := False\<rparr>)
      else case r of
        Sent n \<Rightarrow>
          if n = 0 then ([], c)
          else let rest = drop n (conn_output c) in
            (take n (conn_output c), c\<lparr>conn_output := rest, conn_writing := (if rest = [] then False else conn_writing c)\<rparr>)
      | Send_would_block \<Rightarrow> ([], c)
      | Send_error \<Rightarrow> ([], conn_close c))"

section \<open>The command callback\<close>

definition is_write_command :: "string \<Rightarrow> bool" where
  "is_write_command cmd_name \<longleftrightarrow> cmd_name \<in> {''set'', ''del'', ''incr'', ''decr'', ''incrby'', ''decrby'', ''lpush'',
     ''rpush'', ''lpop'', ''rpop'', ''hset'', ''hdel'', ''sadd'', ''spop'', ''zadd'', ''expire'', ''setex'', ''persist'',
     ''restore'', ''flushdb''}"

definition is_key_command :: "string \<Rightarrow> bool" where
  "is_key_command cmd_name \<longleftrightarrow> cmd_name \<in> {''get'', ''set'', ''del'', ''exists'', ''expire'', ''ttl'', ''pttl'', ''persist'',
     ''setex'', ''incr'', ''decr'', ''incrby'', ''decrby'', ''restore''} \<union>
     {''lpush'', ''rpush'', ''lpop'', ''rpop'', ''llen'', ''lrange'', ''hset'', ''hget'', ''hdel'', ''hlen'', ''hgetall'',
      ''sadd'', ''spop'', ''scard'', ''sismember'', ''smembers'', ''zadd'', ''zscore'', ''zcard'', ''zrange''}"

text \<open>The redirection of a command; the empty string when it is executed here.\<close>

definition redirect_of :: "string \<Rightarrow> string list \<Rightarrow> ClusterServer \<Rightarrow> string" where
  "redirect_of cmd_name args cs =
     (if \<not> enabled cs then []
      else let key = (if is_key_command cmd_name \<and> length args \<ge> 2 then args ! 1 else []) in
        if is_key_command cmd_name \<and> key \<noteq> [] then checkRedirect cs key else [])"

text \<open>An exception of a command becomes an error reply.\<close>

definition run_command :: "command \<Rightarrow> world \<Rightarrow> string list \<Rightarrow> server \<Rightarrow> string \<times> server" where
  "run_command cmd w args sv =
     (case cmd w args sv of (Inr r, sv) \<Rightarrow> (r, sv) | (Inl what, sv) \<Rightarrow> (encode_error (''ERR '' @ what), sv))"

definition replicate_write :: "string \<Rightarrow> string list \<Rightarrow> server \<Rightarrow> server" where
  "replicate_write cmd_name args sv =
     (if is_write_command cmd_name \<and> enabled (sv_cluster sv) \<and> \<not> isReplica (sv_cluster sv)
      then case replicate_command (encode_array args) (sv_repl sv, sv_cluster sv) of
             (r, cs) \<Rightarrow> sv\<lparr>sv_repl := r, sv_cluster := cs\<rparr>
      else sv)"

text \<open>The reply and the new state for a parsed command with its name.\<close>

definition dispatch :: "world \<Rightarrow> string list \<Rightarrow> server \<Rightarrow> string \<times> server" where
  "dispatch w args sv =
     (let cmd_name = map to_lower (args ! 0) in
      if enabled (sv_cluster sv) \<and> isReplica (sv_cluster sv) \<and> is_write_command cmd_name
      then (encode_error (''READONLY You can'' @ [CHR 0x27] @ ''t write against a read only replica.''), sv)
      else let redirect = redirect_of cmd_name args (sv_cluster sv) in
        if redirect \<noteq> [] then (redirect, sv)
        else case create cmd_name of
          Some cmd \<Rightarrow>
            (case run_command cmd w args (record_command_processed sv) of
               (r, sv) \<Rightarrow> (r, replicate_write cmd_name args sv))
        | None \<Rightarrow> (encode_error (''unknown command '' @ [CHR 0x27] @ args ! 0 @ [CHR 0x27]), sv))"

definition command_callback :: "world \<Rightarrow> resp_value \<Rightarrow> server \<times> Connection \<Rightarrow> server \<times> Connection" where
  "command_callback w cmd sc =
     (let arr = as_array cmd in
      if arr = [] then sc
      else case dispatch w (map as_string arr) (fst sc) of (r, sv) \<Rightarrow> (sv, send_response r (snd sc)))"

text \<open>The commands of one read, the first in the surroundings \<open>ws 0\<close>; a connection that a reply has
  closed executes no further command.\<close>

fun run_commands :: "(nat \<Rightarrow> world) \<Rightarrow> nat \<Rightarrow> resp_value list \<Rightarrow> server \<times> Connection \<Rightarrow> server \<times> Connection" where
  "run_commands ws i [] sc = sc"
| "run_commands ws i (cmd # cmds) sc =
     (if conn_closed (snd sc) then sc else run_commands ws (Suc i) cmds (command_callback (ws i) cmd sc))"

definition conn_received :: "(nat \<Rightarrow> world) \<Rightarrow> string \<Rightarrow> server \<times> Connection \<Rightarrow> server \<times> Connection" where
  "conn_received ws buf sc =
     (case sc of (sv, c) \<Rightarrow>
        let p = (conn_parser c)\<lparr>input := input (conn_parser c) @ buf\<rparr>; c = c\<lparr>conn_parser := p\<rparr> in
        if input_buffer_limit_bytes c > 0 \<and> length (input p) > input_buffer_limit_bytes c then (sv, conn_close c)
        else case has_protocol_error p of
          (True, p) \<Rightarrow>
            (sv, conn_close (send_response (encode_error (''ERR Protocol error: '' @ protocol_error p))
                   (c\<lparr>conn_parser := p\<rparr>)))
        | (False, p) \<Rightarrow>
            (case parse p of (commands, p) \<Rightarrow>
               let c = c\<lparr>conn_parser := p\<rparr>;
                   c = (if error_msg p \<noteq> []
                        then (send_response (encode_error (error_msg p)) c)\<lparr>conn_parser := reset p\<rparr> else c)
               in run_commands ws 0 commands (sv, c)))"

definition conn_handle_read :: "(nat \<Rightarrow> world) \<Rightarrow> recv_result \<Rightarrow> server \<times> Connection \<Rightarrow> server \<times> Connection" where
  "conn_handle_read ws n sc =
     (if conn_closed (snd sc) then sc
      else case n of
        Received buf \<Rightarrow> conn_received ws buf sc
      | Peer_closed \<Rightarrow> (fst sc, conn_close (snd sc))
      | Would_block \<Rightarrow> sc
      | Recv_error \<Rightarrow> (fst sc, conn_close (snd sc)))"

section \<open>Commands on the cluster bus\<close>

text \<open>\<^verbatim>\<open>operator>>\<close> on a stream: the runs of characters that are no white space.\<close>

fun tokens :: "string \<Rightarrow> string \<Rightarrow> string list" where
  "tokens [] cur = (if cur = [] then [] else [cur])"
| "tokens (c # cs) cur =
     (if is_space c then (if cur = [] then tokens cs [] else cur # tokens cs []) else tokens cs (cur @ [c]))"

definition bus_command_args :: "string \<Rightarrow> string list option" where
  "bus_command_args cmd_line =
     (if cmd_line \<noteq> [] \<and> hd cmd_line = CHR ''*''
      then (case parse (RespParser cmd_line) of (vs, p) \<Rightarrow>
              if error_msg p \<noteq> [] then None
              else case vs of
                RespArray els # _ \<Rightarrow> Some (map as_string els)
              | _ \<Rightarrow> Some (tokens cmd_line []))
      else Some (tokens cmd_line []))"

definition execute_bus_command_line :: "world \<Rightarrow> string \<Rightarrow> server \<Rightarrow> (string + string) \<times> server" where
  "execute_bus_command_line w cmd_line sv =
     (case bus_command_args cmd_line of
        None \<Rightarrow> (Inr (encode_error ''ERR malformed command payload''), sv)
      | Some args \<Rightarrow>
          if args = [] then (Inr (encode_error ''ERR empty command''), sv)
          else let cmd_name = map to_lower (args ! 0) in
            case create cmd_name of
              None \<Rightarrow> (Inr (encode_error (''ERR unknown command '' @ [CHR 0x27] @ cmd_name @ [CHR 0x27])), sv)
            | Some cmd \<Rightarrow> cmd w args sv)"

definition handle_replication_command :: "world \<Rightarrow> string \<Rightarrow> server \<Rightarrow> server" where
  "handle_replication_command w cmd_line sv = snd (execute_bus_command_line w cmd_line sv)"

section \<open>Bus messages\<close>

text \<open>A link is an entry of the table of its owner: the connection manager for outbound links, the bus for
  inbound ones.\<close>

datatype link_ref = Outbound string | Inbound string

fun link_at :: "server \<Rightarrow> link_ref \<Rightarrow> ClusterLink option" where
  "link_at sv (Outbound name) = map_of (conn_links (sv_cluster sv)) name"
| "link_at sv (Inbound name) = map_of (sv_bus_links sv) name"

fun put_link :: "link_ref \<Rightarrow> ClusterLink \<Rightarrow> server \<Rightarrow> server" where
  "put_link (Outbound name) l sv =
     sv\<lparr>sv_cluster := (sv_cluster sv)\<lparr>conn_links := AList.update name l (conn_links (sv_cluster sv))\<rparr>\<rparr>"
| "put_link (Inbound name) l sv = sv\<lparr>sv_bus_links := AList.update name l (sv_bus_links sv)\<rparr>"

definition reply_on_link :: "link_ref \<Rightarrow> ClusterMsg \<Rightarrow> server \<Rightarrow> server" where
  "reply_on_link ref msg sv =
     (case link_at sv ref of
        None \<Rightarrow> sv
      | Some l \<Rightarrow>
          (case send_msg (getMyNodeName (sv_cluster sv)) msg l of (sent, l) \<Rightarrow>
             let sv = put_link ref l sv in
             if sent then sv\<lparr>sv_cluster := note_bus_message_sent (sv_cluster sv)\<rparr> else sv))"

definition handle_replsync :: "world \<Rightarrow> string \<Rightarrow> string \<Rightarrow> server \<Rightarrow> server" where
  "handle_replsync w sender replica_name sv =
     (let cs = sv_cluster sv in
      case getNode (cstate cs) sender of
        None \<Rightarrow> sv
      | Some a \<Rightarrow>
          (case send_rdb_to_replica (w_env w) (w_fp w) (sv_store sv) replica_name
                  (add_replica replica_name (n_ip (node_at cs a)) (n_port (node_at cs a)) (Some a) (sv_repl sv), cs) of
             (sent, r, cs) \<Rightarrow> sv\<lparr>sv_repl := r, sv_cluster := cs\<rparr>))"

definition handle_rep_data :: "world \<Rightarrow> string \<Rightarrow> string list \<Rightarrow> link_ref \<Rightarrow> server \<Rightarrow> server" where
  "handle_rep_data w sender args ref sv =
     (case args of
        [] \<Rightarrow> sv
      | cmd_line # _ \<Rightarrow>
          (case parse_bus_tagged cmd_line ''CCREQ '' of
             Some (rid, body) \<Rightarrow>
               (case execute_bus_command_line w body sv of (r, sv) \<Rightarrow>
                  let exec_out = (case r of Inr out \<Rightarrow> out | Inl what \<Rightarrow> encode_error (''ERR command threw: '' @ what)) in
                  reply_on_link ref (typed_msg kRepData [''CCRESP '' @ to_dec rid @ '' '' @ exec_out]) sv)
           | None \<Rightarrow>
               (case parse_bus_tagged cmd_line ''CCRESP '' of
                  Some (rid, body) \<Rightarrow> deliver_command_reply (of_nat rid) body sv
                | None \<Rightarrow>
                    if take 9 cmd_line = ''REPLSYNC:'' then handle_replsync w sender (drop 9 cmd_line) sv
                    else handle_replication_command w cmd_line sv)))"

text \<open>The part of the handler that depends on the type of the message.  The flag says whether the handler
  goes on to the gossip callback; \<^term>\<open>None\<close> is an exception, thrown before anything has changed, that only
  the event loop catches.\<close>

definition handle_typed_msg ::
    "world \<Rightarrow> string \<Rightarrow> ClusterMsg \<Rightarrow> link_ref \<Rightarrow> server \<Rightarrow> (bool \<times> server) option" where
  "handle_typed_msg w sender msg ref sv =
     (let t = hdr_type (msg_header msg); pong = typed_msg kPong [] in
      if t = msg_type kPing then Some (True, reply_on_link ref pong sv)
      else if t = msg_type kMeet then
        (let addr = takeWhile (\<lambda>c. c \<noteq> CHR '':'') sender; port_str = tl (dropWhile (\<lambda>c. c \<noteq> CHR '':'') sender) in
         if addr = [] \<or> port_str = [] then Some (False, sv)
         else case stoi port_str of
           None \<Rightarrow> Some (True, sv)
         | Some p \<Rightarrow> Some (True, reply_on_link ref pong (sv\<lparr>sv_cluster := meet_callback addr p (sv_cluster sv)\<rparr>)))
      else if t = msg_type kPong then
        (case node_connected_callback sender (sv_cluster sv) of
           None \<Rightarrow> None
         | Some cs \<Rightarrow> Some (True, sv\<lparr>sv_cluster := cs\<rparr>))
      else if t = msg_type kRepData then Some (True, handle_rep_data w sender (msg_args msg) ref sv)
      else Some (True, sv))"

definition note_bus_identity_rejection :: "ClusterServer \<Rightarrow> ClusterServer" where
  "note_bus_identity_rejection cs = upd_state (\<lambda>st. st\<lparr>bus_identity_rejections := bus_identity_rejections st + 1\<rparr>) cs"

definition handle_link_msg :: "world \<Rightarrow> ClusterMsg \<Rightarrow> link_ref \<Rightarrow> server \<Rightarrow> server option" where
  "handle_link_msg w msg ref sv =
     (let cs = sv_cluster sv; sender = c_str (hdr_sender_name (msg_header msg));
          claimed_ip = takeWhile (\<lambda>c. c \<noteq> CHR '':'') sender;
          observed_ip = (case link_at sv ref of Some l \<Rightarrow> link_ip l | None \<Rightarrow> []);
          plane = (if hdr_type (msg_header msg) = msg_type kRepData then kData else kControl);
          known_member = (getNode (cstate cs) sender \<noteq> None)
      in if CHR '':'' \<notin> set sender then Some sv
         else if \<not> bus_sender_identity_accepted claimed_ip observed_ip known_member plane
         then Some (sv\<lparr>sv_cluster := note_bus_identity_rejection cs\<rparr>)
         else if sender = getMyNodeName cs then Some sv
         else case handle_typed_msg w sender msg ref sv of
           None \<Rightarrow> None
         | Some (cont, sv) \<Rightarrow>
             Some (if cont
                   then sv\<lparr>sv_cluster := gossip_callback (master_repl_offset (sv_repl sv)) (w_max_lag w) (w_steady w)
                             sender msg (sv_cluster sv)\<rparr>
                   else sv))"

section \<open>Inbound links\<close>

definition kMaxInboundLinks :: nat where "kMaxInboundLinks = 512"

definition inbound_admitted :: "nat \<Rightarrow> bool" where
  "inbound_admitted current_links \<longleftrightarrow> current_links < kMaxInboundLinks"

definition create_link :: "string \<Rightarrow> string \<Rightarrow> int \<Rightarrow> server \<Rightarrow> server" where
  "create_link name addr p sv =
     sv\<lparr>sv_bus_links := AList.update name ((new_ClusterLink name addr p)\<lparr>link_connected := True\<rparr>) (sv_bus_links sv)\<rparr>"

text \<open>One accepted connection of the loop in \<^verbatim>\<open>handle_accept\<close>.\<close>

definition handle_accept :: "string \<Rightarrow> int \<Rightarrow> server \<Rightarrow> server" where
  "handle_accept client_ip client_port sv =
     (if \<not> inbound_admitted (length (sv_bus_links sv)) then sv\<lparr>sv_inbound_refused := sv_inbound_refused sv + 1\<rparr>
      else create_link (''handshake:'' @ client_ip @ '':'' @ to_string client_port) client_ip client_port sv)"

text \<open>The owner of a link that has broken drops it.\<close>

definition on_node_disconnected :: "string \<Rightarrow> ClusterServer \<Rightarrow> ClusterServer" where
  "on_node_disconnected name cs = cs\<lparr>conn_links := AList.delete name (conn_links cs)\<rparr>"

fun remove_link :: "link_ref \<Rightarrow> server \<Rightarrow> server" where
  "remove_link (Outbound name) sv = sv\<lparr>sv_cluster := on_node_disconnected name (sv_cluster sv)\<rparr>"
| "remove_link (Inbound name) sv =
     sv\<lparr>sv_bus_links := AList.delete name (sv_bus_links sv), sv_cluster := on_node_disconnected name (sv_cluster sv)\<rparr>"

text \<open>The messages of one read.  An exception of the handler ends the read; the result then counts the
  messages that were taken from the buffer.\<close>

fun handle_msgs :: "(nat \<Rightarrow> world) \<Rightarrow> nat \<Rightarrow> ClusterMsg list \<Rightarrow> link_ref \<Rightarrow> server \<Rightarrow> nat option \<times> server" where
  "handle_msgs ws i [] ref sv = (None, sv)"
| "handle_msgs ws i (msg # msgs) ref sv =
     (let sv = sv\<lparr>sv_cluster := upd_state (\<lambda>st. st\<lparr>bus_messages_received := bus_messages_received st + 1\<rparr>) (sv_cluster sv)\<rparr> in
      case handle_link_msg (ws i) msg ref sv of
        None \<Rightarrow> (Some (Suc i), sv)
      | Some sv \<Rightarrow> handle_msgs ws (Suc i) msgs ref sv)"

text \<open>The link when \<open>k\<close> messages of a read have been taken from its buffer.\<close>

definition link_after :: "int \<Rightarrow> recv_result \<Rightarrow> nat \<Rightarrow> ClusterLink \<Rightarrow> ClusterLink" where
  "link_after now_ms n k l =
     (case n of
        Received buf \<Rightarrow> ((\<lambda>l. snd (decode_msg l)) ^^ k) (l\<lparr>recv_buffer := recv_buffer l @ buf, last_recv_time := now_ms\<rparr>)
      | _ \<Rightarrow> l)"

text \<open>A readable link: its bytes are decoded, each message is handled while the link is still open, and a
  link that failed is dropped.  After an exception the rest of the bytes waits for the next read.\<close>

definition link_readable :: "(nat \<Rightarrow> world) \<Rightarrow> recv_result \<Rightarrow> link_ref \<Rightarrow> server \<Rightarrow> server option" where
  "link_readable ws n ref sv =
     (case link_at sv ref of
        None \<Rightarrow> Some sv
      | Some l \<Rightarrow>
          (case handle_read (w_steady (ws 0)) n l of
             None \<Rightarrow> None
           | Some (notify, msgs, l') \<Rightarrow>
               Some (case handle_msgs ws 0 msgs ref (put_link ref (l'\<lparr>link_connected := link_connected l\<rparr>) sv) of
                  (None, sv) \<Rightarrow> if notify then remove_link ref sv else sv
                | (Some k, sv) \<Rightarrow>
                    (case link_at sv ref of
                       Some cur \<Rightarrow> put_link ref ((link_after (w_steady (ws 0)) n k l)\<lparr>send_buffer := send_buffer cur\<rparr>) sv
                     | None \<Rightarrow> sv))))"

end
