(* ===== verification/CC_Command_Facts.thy ===== *)
theory CC_Command_Facts
  imports CC_Commands
begin

text \<open>
  What every command does to the store: commands that only read leave everything a client can observe as
  it is, and all commands keep the store well formed.
\<close>

section \<open>Commands that read\<close>

definition same_view :: "env \<Rightarrow> storage \<Rightarrow> storage \<Rightarrow> bool" where
  "same_view e s s' \<longleftrightarrow> storage_ok e s' \<and> live e s' = live e s \<and> live_ttl e s' = live_ttl e s"

lemma same_view_refl [simp]: "same_view e s s \<longleftrightarrow> storage_ok e s"
  by (simp add: same_view_def)

lemma same_view_ok: "same_view e s s' \<Longrightarrow> storage_ok e s'"
  by (simp add: same_view_def)

lemma same_view_trans: "same_view e s s' \<Longrightarrow> same_view e s' s'' \<Longrightarrow> same_view e s s''"
  by (simp add: same_view_def)

lemma get_same_view:
  assumes "storage_ok e s"
  shows "same_view e s (snd (storage_get e k s))"
  using get_views [OF storage_ok_sized [OF assms], of e k] get_ok [OF assms, of k] by (simp add: same_view_def)

lemma read_typed_view: "storage_ok e s \<Longrightarrow> same_view e s (snd (read_typed e ty k a f s))"
  by (simp add: read_typed_def get_same_view case_prod_unfold split: option.split)

definition reads_only :: "(env \<Rightarrow> string list \<Rightarrow> storage \<Rightarrow> string \<times> storage) \<Rightarrow> bool" where
  "reads_only f \<longleftrightarrow> (\<forall>e args s. storage_ok e s \<longrightarrow> same_view e s (snd (f e args s)))"

lemma reads_only_get: "reads_only GetCommand"
  by (simp add: reads_only_def GetCommand_def get_same_view case_prod_unfold split: option.split list.split)

lemma reads_only_debug: "reads_only DebugCommand"
  by (simp add: reads_only_def DebugCommand_def get_same_view case_prod_unfold split: option.split list.split)

lemma reads_only_typed:
  "reads_only LlenCommand" "reads_only LrangeCommand" "reads_only HgetCommand" "reads_only HlenCommand"
  "reads_only HgetallCommand" "reads_only ScardCommand" "reads_only SismemberCommand" "reads_only SmembersCommand"
  "reads_only ZcardCommand"
  by (simp_all add: reads_only_def LlenCommand_def LrangeCommand_def HgetCommand_def HlenCommand_def HgetallCommand_def
      ScardCommand_def SismemberCommand_def SmembersCommand_def ZcardCommand_def read_typed_view
      split: list.split option.split)

lemma reads_only_scores: "reads_only (\<lambda>e. ZscoreCommand e lib)" "reads_only (\<lambda>e. ZrangeCommand e lib)"
  by (auto simp: reads_only_def ZscoreCommand_def ZrangeCommand_def read_typed_view Let_def
      split: list.split option.split)

lemmas reading_commands = reads_only_get reads_only_debug reads_only_typed reads_only_scores

section \<open>Callbacks\<close>

text \<open>The callbacks given to \<^verbatim>\<open>mutate\<close> keep objects well formed.\<close>

lemma foldl_keeps: "P a \<Longrightarrow> (\<And>a x. P a \<Longrightarrow> x \<in> set xs \<Longrightarrow> P (f a x)) \<Longrightarrow> P (foldl f a xs)"
  by (induction xs arbitrary: a) auto

lemma count_ops_ok:
  assumes "object_ok ob" "\<And>ob x. object_ok ob \<Longrightarrow> x \<in> set xs \<Longrightarrow> object_ok (snd (f x ob))"
  shows "object_ok (snd (count_ops f xs ob))"
  unfolding count_ops_def
  by (rule foldl_keeps [where P = "\<lambda>r. object_ok (snd r)"]) (use assms in \<open>auto simp: case_prod_unfold\<close>)

lemma push_fn_ok: "object_ok ob \<Longrightarrow> push_fn front vals ob = (op, ob', r) \<Longrightarrow> object_ok ob'"
  by (auto simp: push_fn_def push_all_def Let_def intro!: foldl_keeps [where P = object_ok] list_push_ok)

lemma pop_fn_ok: "object_ok ob \<Longrightarrow> pop_fn front ob = (op, ob', r) \<Longrightarrow> object_ok ob'"
  using list_pop_ok [of ob front] by (auto simp: pop_fn_def split: prod.splits option.splits)

lemma hset_fn_ok: "object_ok ob \<Longrightarrow> hset_fn f v ob = (op, ob', r) \<Longrightarrow> object_ok ob'"
  by (auto simp: hset_fn_def Let_def hash_set_ok)

lemma hdel_fn_ok: "object_ok ob \<Longrightarrow> hdel_fn fs ob = (op, ob', r) \<Longrightarrow> object_ok ob'"
  using count_ops_ok [of ob fs hash_del] by (auto simp: hdel_fn_def hash_del_ok split: prod.splits)

lemma sadd_fn_ok: "object_ok ob \<Longrightarrow> sadd_fn ms ob = (op, ob', r) \<Longrightarrow> object_ok ob'"
  using count_ops_ok [of ob ms set_add] by (auto simp: sadd_fn_def set_add_ok split: prod.splits)

lemma spop_fn_ok: "object_ok ob \<Longrightarrow> spop_fn n ob = (op, ob', r) \<Longrightarrow> object_ok ob'"
  by (auto simp: spop_fn_def Let_def set_remove_ok split: if_splits)

lemma zadd_entries_finite: "zadd_entries lib ts = Inr es \<Longrightarrow> x \<in> set es \<Longrightarrow> is_finite_double (snd x)"
  by (induction lib ts arbitrary: es rule: zadd_entries.induct)
    (fastforce simp: is_finite_double_def split: sum.splits prod.splits if_splits)+

lemma zadd_fn_ok:
  assumes "zadd_entries lib ts = Inr es" "object_ok ob" "zadd_fn es ob = (op, ob', r)"
  shows "object_ok ob'"
proof -
  have "object_ok (snd (count_ops (\<lambda>(m, score). zset_add m score) es ob))"
    by (rule count_ops_ok [OF assms(2)]) (use zadd_entries_finite [OF assms(1)] in \<open>auto intro: zset_add_ok\<close>)
  with assms(3) show ?thesis
    by (auto simp: zadd_fn_def split: prod.splits)
qed

section \<open>Restored objects\<close>

lemma load_hash_ok: "object_ok ob \<Longrightarrow> load_hash n buf ob = Some (ob', r) \<Longrightarrow> object_ok ob'"
  by (induction n arbitrary: buf ob) (auto split: option.splits, blast intro: hash_set_ok)

lemma load_set_ok: "object_ok ob \<Longrightarrow> load_set n buf ob = Some (ob', r) \<Longrightarrow> object_ok ob'"
  by (induction n arbitrary: buf ob) (auto split: option.splits, blast intro: set_add_ok)

lemma load_zset_ok: "object_ok ob \<Longrightarrow> load_zset lib w n buf ob = Inr (ob', r) \<Longrightarrow> object_ok ob'"
  by (induction n arbitrary: buf ob)
    (auto simp: Let_def read_score_def split: option.splits if_splits, metis is_finite_double_def zset_add_ok)

lemma push_elems_ok: "object_ok ob \<Longrightarrow> object_ok (foldl (\<lambda>ob e. snd (list_push e False ob)) ob es)"
  by (rule foldl_keeps) (simp_all add: list_push_ok)

lemma finish_InrD: "finish w r = Inr ob \<Longrightarrow> fst r = ob"
  by (simp add: finish_def split: if_splits)

lemma deserialize_ok:
  assumes "deserialize lib payload CacheObject = Inr ob"
  shows "object_ok ob"
  using assms unfolding deserialize_def Let_def
  by (simp split: if_split_asm option.split_asm sum.split_asm prod.split_asm)
    (auto dest!: finish_InrD simp: push_elems_ok set_string_ok dest: load_hash_ok [OF object_ok_new(1)]
      load_set_ok [OF object_ok_new(1)] load_zset_ok [OF object_ok_new(1)])

section \<open>Commands that write\<close>

definition keeps_store :: "(env \<Rightarrow> string list \<Rightarrow> storage \<Rightarrow> string \<times> storage) \<Rightarrow> bool" where
  "keeps_store f \<longleftrightarrow> (\<forall>e args s. storage_ok e s \<longrightarrow> storage_ok e (snd (f e args s)))"

lemma reads_only_keeps: "reads_only f \<Longrightarrow> keeps_store f"
  by (simp add: reads_only_def keeps_store_def same_view_def)

lemma reply_mutate_snd [simp]: "snd (reply_mutate f r) = snd r"
  by (simp add: reply_mutate_def)

lemma mutate_keeps: "storage_ok e s \<Longrightarrow> keeps_objects fn \<Longrightarrow> storage_ok e (snd (mutate e k want fn promote s))"
  by (rule mutate_ok) (auto simp: keeps_objects_def)

lemma callbacks_keep:
  "keeps_objects (push_fn front vals)" "keeps_objects (pop_fn front)" "keeps_objects (hset_fn f v)"
  "keeps_objects (hdel_fn fs)" "keeps_objects (sadd_fn ms)" "keeps_objects (spop_fn n)"
  using push_fn_ok pop_fn_ok hset_fn_ok hdel_fn_ok sadd_fn_ok spop_fn_ok
  unfolding keeps_objects_def by (metis prod.collapse)+

lemma keeps_store_mutating:
  "keeps_store LpushCommand" "keeps_store RpushCommand" "keeps_store LpopCommand" "keeps_store RpopCommand"
  "keeps_store HsetCommand" "keeps_store HdelCommand" "keeps_store SaddCommand" "keeps_store SpopCommand"
  by (simp_all add: keeps_store_def LpushCommand_def RpushCommand_def LpopCommand_def RpopCommand_def HsetCommand_def
      HdelCommand_def SaddCommand_def SpopCommand_def mutate_keeps callbacks_keep split: list.split)

lemma zadd_keeps: "zadd_entries lib ts = Inr es \<Longrightarrow> keeps_objects (zadd_fn es)"
  using zadd_fn_ok unfolding keeps_objects_def by (metis prod.collapse)

lemma keeps_store_zadd: "keeps_store (\<lambda>e. ZaddCommand e lib)"
  by (simp add: keeps_store_def ZaddCommand_def mutate_keeps zadd_keeps split: sum.split)

lemma keeps_store_restore: "keeps_store (\<lambda>e. RestoreCommand e lib)"
  by (simp add: keeps_store_def RestoreCommand_def Let_def set_with_expire_ok set_ok deserialize_ok case_prod_unfold
      split: sum.split list.split)

lemma apply_incrby_ok: "storage_ok e s \<Longrightarrow> int64_ok d \<Longrightarrow> storage_ok e (snd (apply_incrby e k d s))"
  using incrby_ok [of e s d k] get_ok [of e "snd (incrby e k d s)" k]
  by (simp add: apply_incrby_def case_prod_unfold split: option.split)

lemma parse_ll_strict_ok: "parse_ll_strict s = Some n \<Longrightarrow> int64_ok n"
  by (auto simp: parse_ll_strict_def from_chars_ll_def Let_def split: if_splits option.splits prod.splits)

lemma keeps_store_counters:
  "keeps_store IncrCommand" "keeps_store DecrCommand" "keeps_store IncrbyCommand" "keeps_store DecrbyCommand"
proof -
  have unit: "int64_ok 1" "int64_ok (-1)"
    by (simp_all add: int64_arith)
  have neg: "int64_ok (sub64 0 d)" for d
    by (simp add: sub64_def)
  show "keeps_store IncrCommand" "keeps_store DecrCommand" "keeps_store IncrbyCommand" "keeps_store DecrbyCommand"
    by (simp_all add: keeps_store_def IncrCommand_def DecrCommand_def IncrbyCommand_def DecrbyCommand_def
        apply_incrby_ok unit neg parse_ll_strict_ok split: list.split option.split)
qed

lemma del_keys_ok: "storage_ok e s \<Longrightarrow> storage_ok e (snd (del_keys e ks n s))"
  by (induction ks arbitrary: n s) (simp_all add: case_prod_unfold del_ok)

lemma keeps_store_del: "keeps_store DelCommand"
  by (simp add: keeps_store_def DelCommand_def del_keys_ok case_prod_unfold del: del_keys.simps split: list.split)

lemma keeps_store_set: "keeps_store SetCommand"
proof -
  have "storage_ok e (snd (set_expired e k opts s))" "storage_ok e (snd (set_store e k v opts ttl s))"
    if "storage_ok e s" for e k opts s v ttl
    using that by (auto simp: set_expired_def set_store_def Let_def case_prod_unfold get_ok del_ok set_conditional_ok)
  then show ?thesis
    by (simp add: keeps_store_def SetCommand_def is_non_string_def case_prod_unfold get_ok split: list.split sum.split)
qed

lemma exist_find: "exist e k s \<Longrightarrow> find_entry e k s \<noteq> None"
  by (auto simp: exist_live live_def split: if_splits)

lemma keeps_store_expiry: "keeps_store ExpireCommand" "keeps_store PersistCommand" "keeps_store SetexCommand"
proof -
  show "keeps_store ExpireCommand"
    by (simp add: keeps_store_def ExpireCommand_def increment_dirty_ok del_ok case_prod_unfold
        expires_write_ok(2) [OF _ exist_find] split: list.split sum.split)
  show "keeps_store PersistCommand"
    by (simp add: keeps_store_def PersistCommand_def increment_dirty_ok persist_ok case_prod_unfold Let_def split: list.split)
  show "keeps_store SetexCommand"
    by (simp add: keeps_store_def SetexCommand_def set_with_expire_ok case_prod_unfold split: list.split sum.split)
qed

lemma keeps_store_flush: "keeps_store (\<lambda>e. FlushdbCommand)"
  by (simp add: keeps_store_def FlushdbCommand_def clear_facts)

lemmas writing_commands = keeps_store_mutating keeps_store_zadd keeps_store_restore keeps_store_counters keeps_store_del
  keeps_store_set keeps_store_expiry keeps_store_flush

end
