(* ===== verification/CC_Cluster_Facts.thy ===== *)
theory CC_Cluster_Facts
  imports CC_Cluster CC_Bus_Facts
begin

text \<open>
  Correctness of the cluster component: which commands a node executes and which it redirects, what a
  completed failover takes over, the edges of the failover state machine, and why neither automatic
  failure detection nor automatic failover comes about on the messages the bus carries.
\<close>

unbundle bit_operations_syntax

section \<open>Views\<close>

lemma upd_state_sel [simp]:
  "enabled (upd_state f cs) = enabled cs" "running (upd_state f cs) = running cs"
  "my_node (upd_state f cs) = my_node cs" "cstate (upd_state f cs) = f (cstate cs)"
  "known_nodes (upd_state f cs) = known_nodes cs" "conn_links (upd_state f cs) = conn_links cs"
  by (simp_all add: upd_state_def)

lemma upd_node_sel [simp]:
  "nodes (upd_node a f st) = nodes st" "slot_owners (upd_node a f st) = slot_owners st"
  "migrating_slots (upd_node a f st) = migrating_slots st" "importing_slots (upd_node a f st) = importing_slots st"
  "replicas (upd_node a f st) = replicas st" "pfailing_reports (upd_node a f st) = pfailing_reports st"
  "my_node_name (upd_node a f st) = my_node_name st"
  "heap (upd_node a f st) b = (if b = a then f (heap st a) else heap st b)" "next_addr (upd_node a f st) = next_addr st"
  by (simp_all add: upd_node_def)

lemma state_op_sel [simp]:
  "heap (setNodeForSlot s a st) = heap st" "nodes (setNodeForSlot s a st) = nodes st"
  "replicas (setNodeForSlot s a st) = replicas st" "migrating_slots (setNodeForSlot s a st) = migrating_slots st"
  "pfailing_reports (setNodeForSlot s a st) = pfailing_reports st"
  "heap (state_clearSlotMigration s st) = heap st" "nodes (state_clearSlotMigration s st) = nodes st"
  "replicas (state_clearSlotMigration s st) = replicas st" "slot_owners (state_clearSlotMigration s st) = slot_owners st"
  "pfailing_reports (state_clearSlotMigration s st) = pfailing_reports st"
  "heap (removeReplica m r st) = heap st" "nodes (removeReplica m r st) = nodes st"
  "slot_owners (removeReplica m r st) = slot_owners st" "migrating_slots (removeReplica m r st) = migrating_slots st"
  "pfailing_reports (removeReplica m r st) = pfailing_reports st"
  by (simp_all add: setNodeForSlot_def state_clearSlotMigration_def removeReplica_def Let_def split: option.split)

lemma node_slot_sel [simp]:
  "n_name (node_addSlot s n) = n_name n" "n_role (node_addSlot s n) = n_role n"
  "n_master_node (node_addSlot s n) = n_master_node n" "n_name (node_delSlot s n) = n_name n"
  "n_role (node_delSlot s n) = n_role n" "n_master_node (node_delSlot s n) = n_master_node n"
  "set (n_slots (node_addSlot s n)) = insert s (set (n_slots n))"
  by (auto simp: node_addSlot_def node_delSlot_def)

lemma upd_my_node_sel [simp]:
  "enabled (upd_my_node f cs) = enabled cs" "my_node (upd_my_node f cs) = my_node cs"
  "nodes (cstate (upd_my_node f cs)) = nodes (cstate cs)" "slot_owners (cstate (upd_my_node f cs)) = slot_owners (cstate cs)"
  "migrating_slots (cstate (upd_my_node f cs)) = migrating_slots (cstate cs)"
  "replicas (cstate (upd_my_node f cs)) = replicas (cstate cs)"
  "pfailing_reports (cstate (upd_my_node f cs)) = pfailing_reports (cstate cs)"
  "known_nodes (upd_my_node f cs) = known_nodes cs" "conn_links (upd_my_node f cs) = conn_links cs"
  by (simp_all add: upd_my_node_def split: option.split)

lemma node_at_upd_my_node:
  "node_at (upd_my_node f cs) a = (if my_node cs = Some a then f (node_at cs a) else node_at cs a)"
  by (auto simp: upd_my_node_def node_at_def split: option.split)

lemma node_at_upd_state: "node_at (upd_state f cs) a = heap (f (cstate cs)) a"
  by (simp add: node_at_def)

section \<open>Failover\<close>

text \<open>The own node is registered under its name.\<close>

definition own_ok :: "ClusterServer \<Rightarrow> addr \<Rightarrow> bool" where
  "own_ok cs me \<longleftrightarrow> my_node cs = Some me \<and> map_of (nodes (cstate cs)) (n_name (node_at cs me)) = Some me"

lemma upd_node_twice:
  "upd_state (upd_node m f) (upd_state (upd_node m g) cs) = upd_state (upd_node m (\<lambda>n. f (g n))) cs"
  by (simp add: upd_state_def upd_node_def)

lemma drop_slots:
  "foldl (\<lambda>cs slot. upd_state (upd_node m (node_delSlot slot)) cs) cs ss =
   upd_state (upd_node m (\<lambda>n. n\<lparr>n_slots := filter (\<lambda>s. s \<notin> set ss) (n_slots n)\<rparr>)) cs"
proof (induction ss arbitrary: cs)
  case Nil
  then show ?case
    by (simp add: upd_state_def upd_node_def)
next
  case (Cons s ss)
  have "filter (\<lambda>x. x \<notin> set ss) (removeAll s xs) = filter (\<lambda>x. x \<notin> set (s # ss)) xs" for xs
    by (induction xs) auto
  then show ?case
    unfolding foldl.simps Cons.IH upd_node_twice by (simp add: node_delSlot_def)
qed

lemma setSlotOwner_own:
  assumes "own_ok cs me"
  shows "setSlotOwner s (getMyNodeName cs) cs =
    upd_state (\<lambda>st. upd_node me (node_addSlot s) (setNodeForSlot s me (state_clearSlotMigration s st))) cs"
  using assms by (simp add: setSlotOwner_def getMyNodeName_def own_ok_def getNode_def)

lemma take_slots:
  assumes "own_ok cs me"
  shows "let cs' = foldl (\<lambda>cs slot. setSlotOwner slot (getMyNodeName cs) cs) cs ss in
    own_ok cs' me \<and> enabled cs' = enabled cs \<and> nodes (cstate cs') = nodes (cstate cs) \<and>
    replicas (cstate cs') = replicas (cstate cs) \<and>
    map_of (slot_owners (cstate cs')) = (\<lambda>s. if s \<in> set ss then Some me else map_of (slot_owners (cstate cs)) s) \<and>
    map_of (migrating_slots (cstate cs')) = (\<lambda>s. if s \<in> set ss then None else map_of (migrating_slots (cstate cs)) s) \<and>
    (\<forall>a. a \<noteq> me \<longrightarrow> node_at cs' a = node_at cs a) \<and> n_role (node_at cs' me) = n_role (node_at cs me) \<and>
    n_master_node (node_at cs' me) = n_master_node (node_at cs me) \<and>
    set (n_slots (node_at cs' me)) = set ss \<union> set (n_slots (node_at cs me))"
  using assms
proof (induction ss arbitrary: cs)
  case (Cons s ss)
  let ?cs = "setSlotOwner s (getMyNodeName cs) cs"
  have v: "own_ok ?cs me" "enabled ?cs = enabled cs" "nodes (cstate ?cs) = nodes (cstate cs)"
    "replicas (cstate ?cs) = replicas (cstate cs)"
    "map_of (slot_owners (cstate ?cs)) = (map_of (slot_owners (cstate cs)))(s \<mapsto> me)"
    "map_of (migrating_slots (cstate ?cs)) = (map_of (migrating_slots (cstate cs)))(s := None)"
    "\<forall>a. a \<noteq> me \<longrightarrow> node_at ?cs a = node_at cs a" "n_role (node_at ?cs me) = n_role (node_at cs me)"
    "n_master_node (node_at ?cs me) = n_master_node (node_at cs me)"
    "set (n_slots (node_at ?cs me)) = insert s (set (n_slots (node_at cs me)))"
    using Cons.prems unfolding setSlotOwner_own [OF Cons.prems]
    by (simp_all add: own_ok_def node_at_def setNodeForSlot_def state_clearSlotMigration_def)
  show ?case
    using Cons.IH [OF v(1)] v(2-) by (auto simp: Let_def fun_eq_iff)
qed (simp add: own_ok_def)

lemma clearReplicaOf_views:
  assumes "own_ok cs me" "n_role (node_at cs me) = kReplica"
  shows "let cs' = clearReplicaOf cs in
    my_node cs' = Some me \<and> enabled cs' = enabled cs \<and> nodes (cstate cs') = nodes (cstate cs) \<and>
    slot_owners (cstate cs') = slot_owners (cstate cs) \<and> migrating_slots (cstate cs') = migrating_slots (cstate cs) \<and>
    (\<forall>a. a \<noteq> me \<longrightarrow> node_at cs' a = node_at cs a) \<and> n_role (node_at cs' me) = kMaster \<and>
    n_name (node_at cs' me) = n_name (node_at cs me) \<and> n_slots (node_at cs' me) = n_slots (node_at cs me)"
proof -
  have "isReplica cs"
    using assms by (simp add: isReplica_def own_ok_def node_isReplica_def)
  then show ?thesis
    using assms unfolding clearReplicaOf_def Let_def own_ok_def
    by (auto simp: node_at_upd_my_node node_at_upd_state node_at_def [symmetric] split: option.split)
qed

lemma completeFailover_views:
  assumes "own_ok cs me" "enabled cs" "n_role (node_at cs me) = kReplica" "getMyMaster cs = Some m" "m \<noteq> me"
  shows "let cs' = completeFailover cs; ss = set (n_slots (node_at cs m)) in
    my_node cs' = Some me \<and> enabled cs' \<and> n_role (node_at cs' me) = kMaster \<and>
    n_failover_state (node_at cs' me) = kFailoverCompleted \<and>
    n_name (node_at cs' me) = n_name (node_at cs me) \<and> n_slots (node_at cs' m) = [] \<and>
    set (n_slots (node_at cs' me)) = ss \<union> set (n_slots (node_at cs me)) \<and>
    map_of (slot_owners (cstate cs')) = (\<lambda>s. if s \<in> ss then Some me else map_of (slot_owners (cstate cs)) s) \<and>
    map_of (migrating_slots (cstate cs')) = (\<lambda>s. if s \<in> ss then None else map_of (migrating_slots (cstate cs)) s)"
proof -
  let ?ss = "n_slots (node_at cs m)"
  define c1 where "c1 = upd_state (upd_node m (\<lambda>n. n\<lparr>n_slots := filter (\<lambda>s. s \<notin> set ?ss) (n_slots n)\<rparr>)) cs"
  define c2 where "c2 = foldl (\<lambda>cs slot. setSlotOwner slot (getMyNodeName cs) cs) c1 ?ss"
  have "isReplica cs"
    using assms by (simp add: isReplica_def own_ok_def node_isReplica_def)
  then have cf: "completeFailover cs =
      upd_my_node (\<lambda>n. n\<lparr>n_config_epoch := n_config_epoch n + 1, n_failover_state := kFailoverCompleted\<rparr>) (clearReplicaOf c2)"
    using assms(2,4) by (simp add: completeFailover_def Let_def drop_slots c1_def c2_def)
  have c1: "own_ok c1 me" "n_role (node_at c1 me) = kReplica" "n_slots (node_at c1 m) = []" "node_at c1 me = node_at cs me"
    "enabled c1 = enabled cs" "slot_owners (cstate c1) = slot_owners (cstate cs)"
    "migrating_slots (cstate c1) = migrating_slots (cstate cs)"
    using assms by (auto simp: c1_def own_ok_def node_at_def)
  note c2 = take_slots [OF c1(1), of ?ss, folded c2_def, unfolded Let_def]
  have "own_ok c2 me" "n_role (node_at c2 me) = kReplica"
    using c2 c1(2) by simp_all
  note c3 = clearReplicaOf_views [OF this, unfolded Let_def]
  have name: "n_name (node_at c2 me) = n_name (node_at c1 me)"
  proof -
    have "n_name (node_at (foldl (\<lambda>cs slot. setSlotOwner slot (getMyNodeName cs) cs) c ss) a) = n_name (node_at c a)" for c ss a
      by (induction ss arbitrary: c) (simp_all add: setSlotOwner_def node_at_def split: option.split)
    then show ?thesis
      by (simp add: c2_def)
  qed
  show ?thesis
    using c1 c2 c3 name assms(2,5) unfolding cf Let_def by (simp add: node_at_upd_my_node fun_eq_iff)
qed

lemma checkRedirect_own:
  assumes "own_ok cs me \<or> my_node cs = Some me" "map_of (slot_owners (cstate cs)) (int (keyToSlot key)) = Some me"
    "map_of (migrating_slots (cstate cs)) (int (keyToSlot key)) = None"
  shows "checkRedirect cs key = []"
  using assms by (auto simp: checkRedirect_def Let_def isSlotMigrating_def getNodeForSlot_def getMyNodeName_def own_ok_def)

lemma executeFailover_in_progress:
  assumes "own_ok cs me" "enabled cs" "n_role (node_at cs me) = kReplica"
    "n_failover_state (node_at cs me) = kFailoverInProgress" "getMyMaster cs = Some m"
  shows "executeFailover now cs = completeFailover cs"
  using assms by (simp add: executeFailover_def isReplica_def own_ok_def node_isReplica_def)

section \<open>Messages\<close>

lemma send_on_link_views:
  "let cs' = snd (send_on_link name msg cs) in
   my_node cs' = my_node cs \<and> enabled cs' = enabled cs \<and> running cs' = running cs \<and> known_nodes cs' = known_nodes cs \<and>
   heap (cstate cs') = heap (cstate cs) \<and> nodes (cstate cs') = nodes (cstate cs) \<and>
   slot_owners (cstate cs') = slot_owners (cstate cs) \<and> replicas (cstate cs') = replicas (cstate cs) \<and>
   pfailing_reports (cstate cs') = pfailing_reports (cstate cs)"
  by (simp add: send_on_link_def Let_def note_bus_message_sent_def upd_state_def split: option.split prod.split)

lemma broadcast_views:
  "let cs' = broadcast msg cs in
   my_node cs' = my_node cs \<and> enabled cs' = enabled cs \<and> running cs' = running cs \<and> known_nodes cs' = known_nodes cs \<and>
   heap (cstate cs') = heap (cstate cs) \<and> nodes (cstate cs') = nodes (cstate cs) \<and>
   slot_owners (cstate cs') = slot_owners (cstate cs) \<and> replicas (cstate cs') = replicas (cstate cs) \<and>
   pfailing_reports (cstate cs') = pfailing_reports (cstate cs)"
proof -
  have "let cs' = foldl (\<lambda>cs (name, l). if link_connected l then snd (send_on_link name msg cs) else cs) c ls in
     my_node cs' = my_node c \<and> enabled cs' = enabled c \<and> running cs' = running c \<and> known_nodes cs' = known_nodes c \<and>
     heap (cstate cs') = heap (cstate c) \<and> nodes (cstate cs') = nodes (cstate c) \<and>
     slot_owners (cstate cs') = slot_owners (cstate c) \<and> replicas (cstate cs') = replicas (cstate c) \<and>
     pfailing_reports (cstate cs') = pfailing_reports (cstate c)" for c ls
  proof (induction ls arbitrary: c)
    case (Cons p ls)
    then show ?case
      using send_on_link_views [of "fst p" msg c] by (simp add: Let_def split_beta)
  qed simp
  then show ?thesis
    by (simp add: broadcast_def)
qed

lemma broadcast_sel [simp]:
  "my_node (broadcast msg cs) = my_node cs" "enabled (broadcast msg cs) = enabled cs"
  "known_nodes (broadcast msg cs) = known_nodes cs" "node_at (broadcast msg cs) a = node_at cs a"
  "nodes (cstate (broadcast msg cs)) = nodes (cstate cs)" "slot_owners (cstate (broadcast msg cs)) = slot_owners (cstate cs)"
  "pfailing_reports (cstate (broadcast msg cs)) = pfailing_reports (cstate cs)"
  using broadcast_views [of msg cs] by (simp_all add: Let_def node_at_def)

lemma broadcast_failover_auth_req_node_at [simp]: "node_at (broadcast_failover_auth_req r e off cs) a = node_at cs a"
  by (simp add: broadcast_failover_auth_req_def broadcast_gossip_def split: option.split)

lemma broadcastFailoverUpdate_node [simp]:
  "node_at (broadcastFailoverUpdate cs) a = node_at cs a" "my_node (broadcastFailoverUpdate cs) = my_node cs"
  by (simp_all add: broadcastFailoverUpdate_def broadcast_gossip_def Let_def split: option.split)

lemma parsed_epoch: "parse_gossip_entry arg = Some info \<Longrightarrow> gi_epoch info = 0"
  by (auto simp: parse_gossip_entry_def new_GossipNodeInfo_def Let_def split: option.splits)

lemma updateNodeInfo_keeps:
  "n_votes (updateNodeInfo now info n) = n_votes n" "n_failover_epoch (updateNodeInfo now info n) = n_failover_epoch n"
  "n_name (updateNodeInfo now info n) = n_name n"
  by (simp_all add: updateNodeInfo_def Let_def setFailFlag_def setPfailFlag_def addFlags_def clearFlags_def)

definition same_votes :: "ClusterServer \<Rightarrow> ClusterServer \<Rightarrow> bool" where
  "same_votes cs' cs \<longleftrightarrow> my_node cs' = my_node cs \<and> conn_links cs' = conn_links cs \<and>
     pfailing_reports (cstate cs') = pfailing_reports (cstate cs) \<and>
     (\<forall>a. n_votes (node_at cs' a) = n_votes (node_at cs a) \<and> n_failover_epoch (node_at cs' a) = n_failover_epoch (node_at cs a))"

lemma update_callback_votes: "same_votes (update_callback now a cs) cs"
  by (simp add: same_votes_def update_callback_def node_at_upd_state updateNodeInfo_keeps node_at_def split: option.split)

lemma auth_req_votes: "same_votes (handle_failover_auth_req now g cs) cs"
proof -
  have "same_votes (foldl (\<lambda>cs info. case getNode (cstate cs) (gi_name info) of None \<Rightarrow> cs | Some a \<Rightarrow> update_callback now a cs) c ks) c" for c ks
  proof (induction ks arbitrary: c)
    case (Cons i ks)
    let ?c = "case getNode (cstate c) (gi_name i) of None \<Rightarrow> c | Some a \<Rightarrow> update_callback now a c"
    have "same_votes ?c c"
      using update_callback_votes by (simp add: same_votes_def split: option.split)
    then show ?case
      using Cons.IH [of ?c] by (simp add: same_votes_def)
  qed (simp add: same_votes_def)
  then show ?thesis
    by (simp add: handle_failover_auth_req_def)
qed

definition epoch_ok :: "ClusterServer \<Rightarrow> bool" where
  "epoch_ok cs \<longleftrightarrow> (case my_node cs of Some me \<Rightarrow> 0 \<le> n_failover_epoch (node_at cs me) | None \<Rightarrow> True)"

lemma auth_request_epoch_0: "epoch_ok cs \<Longrightarrow> handleFailoverAuthRequest mo ml r 0 off cs = (False, cs)"
  by (simp add: handleFailoverAuthRequest_def epoch_ok_def split: option.splits)

lemma auth_request_refused:
  assumes "epoch_ok cs" "hdr_type (msg_header msg) = msg_type kFailoverAuthReq"
  shows "gossip_callback mo ml now sender msg cs =
    handle_failover_auth_req now (bus_gossip_msg sender msg\<lparr>gm_type := gFailoverAuthReq\<rparr>) cs"
proof -
  let ?g = "bus_gossip_msg sender msg"
  have "\<forall>info \<in> set (gm_nodes ?g). gi_epoch info = 0"
    using parsed_epoch by (auto simp: bus_gossip_msg_def List.map_filter_def)
  moreover have "foldl (\<lambda>cs info.
      case handleFailoverAuthRequest mo ml (gi_name info) (sint (gi_epoch info)) (gi_failover_offset info) cs of
        (granted, cs) \<Rightarrow> if granted then broadcast_failover_auth_ack (gi_name info) (sint (gi_epoch info)) cs else cs)
      c ks = c" if "epoch_ok c" "\<forall>info \<in> set ks. gi_epoch info = 0" for c ks
    using that by (induction ks) (simp_all add: auth_request_epoch_0)
  moreover have "epoch_ok (handle_failover_auth_req now (?g\<lparr>gm_type := gFailoverAuthReq\<rparr>) cs)"
    using assms(1) auth_req_votes [of now "?g\<lparr>gm_type := gFailoverAuthReq\<rparr>" cs]
    by (auto simp: epoch_ok_def same_votes_def split: option.splits)
  ultimately show ?thesis
    using assms(2) by (simp add: gossip_callback_def Let_def)
qed

section \<open>Failure reports\<close>

definition same_reports :: "ClusterServer \<Rightarrow> ClusterServer \<Rightarrow> bool" where
  "same_reports cs' cs \<longleftrightarrow> pfailing_reports (cstate cs') = pfailing_reports (cstate cs)"

lemma same_reports_foldl: "(\<And>c x. same_reports (f c x) c) \<Longrightarrow> same_reports (foldl f cs xs) cs"
proof (induction xs arbitrary: cs)
  case (Cons x xs)
  then show ?case
    using Cons.prems [of cs x] Cons.IH [of "f cs x"] by (simp add: same_reports_def)
qed (simp add: same_reports_def)

lemma same_reports_trans: "same_reports b a \<Longrightarrow> same_reports c b \<Longrightarrow> same_reports c a"
  by (simp add: same_reports_def)

lemma reports_state_ops [simp]:
  "pfailing_reports (upd_named name f st) = pfailing_reports st" "pfailing_reports (addNode a st) = pfailing_reports st"
  "pfailing_reports (snd (alloc n st)) = pfailing_reports st" "pfailing_reports (markNodeAsPfail now name st) = pfailing_reports st"
  "pfailing_reports (state_markNodeAsFail now name st) = pfailing_reports st"
  by (simp_all add: upd_named_def addNode_def alloc_def markNodeAsPfail_def state_markNodeAsFail_def Let_def split: option.split)

lemma reports_ops:
  "same_reports (update_callback now a cs) cs" "same_reports (upd_my_node f cs) cs" "same_reports (broadcast m cs) cs"
  "same_reports (meet_callback ip p cs) cs" "same_reports (setSlotOwner s nm cs) cs" "same_reports (clearReplicaOf cs) cs"
  "same_reports (markNodeAsFail now nm cs) cs"
  by (simp_all add: same_reports_def update_callback_def meet_callback_def setSlotOwner_def clearReplicaOf_def
    markNodeAsFail_def broadcast_gossip_def Let_def split_beta split: option.split)

lemma reports_node_connected: "node_connected_callback nm cs = Some cs' \<Longrightarrow> same_reports cs' cs"
  by (auto simp: node_connected_callback_def same_reports_def Let_def split_beta split: option.splits if_splits)

lemma reports_auth_req: "same_reports (handle_failover_auth_req now g cs) cs"
  using auth_req_votes [of now g cs] by (simp add: same_votes_def same_reports_def)

lemma reports_auth_request: "same_reports (snd (handleFailoverAuthRequest mo ml r e off cs)) cs"
  using reports_ops(2) by (simp add: handleFailoverAuthRequest_def same_reports_def split: option.split)

lemma reports_auth_ack: "same_reports (broadcast_failover_auth_ack r e cs) cs"
  using reports_ops(3) by (simp add: broadcast_failover_auth_ack_def broadcast_gossip_def same_reports_def split: option.split)

lemma same_reports_if: "(P \<Longrightarrow> same_reports a cs) \<Longrightarrow> (\<not> P \<Longrightarrow> same_reports b cs) \<Longrightarrow> same_reports (if P then a else b) cs"
  by simp

lemma reports_gossip: "same_reports (gossip_callback mo ml now sender msg cs) cs"
proof -
  let ?grant = "\<lambda>cs info.
      case handleFailoverAuthRequest mo ml (gi_name info) (sint (gi_epoch info)) (gi_failover_offset info) cs of
        (granted, cs) \<Rightarrow> if granted then broadcast_failover_auth_ack (gi_name info) (sint (gi_epoch info)) cs else cs"
  have "same_reports (?grant c info) c" for c info
    using reports_auth_request [of mo ml "gi_name info" "sint (gi_epoch info)" "gi_failover_offset info" c]
      reports_auth_ack by (auto simp: same_reports_def split_beta)
  then have 1: "same_reports (foldl ?grant (handle_failover_auth_req now g cs) ks) cs" for g ks
    by (intro same_reports_trans [OF reports_auth_req same_reports_foldl])
  have 2: "same_reports (handle_fail now g cs) cs" "same_reports (handle_update now g cs) cs" for g
    using reports_ops(1) unfolding handle_fail_def handle_update_def
    by (rule_tac [!] same_reports_foldl) (simp_all add: same_reports_def split: option.split)
  have 3: "same_reports (foldl (\<lambda>cs info. handleFailoverAuthAck (gi_name info) cs) cs ks) cs" "same_reports cs cs" for ks
    using reports_ops(2) by (rule_tac same_reports_foldl) (simp_all add: handleFailoverAuthAck_def same_reports_def)
  show ?thesis
    unfolding gossip_callback_def Let_def by (intro same_reports_if; rule 1 2 3)
qed

lemma reports_timer: "same_reports (heartbeat now cs) cs"
proof -
  have check: "same_reports (check_connections now c) c" for c
    unfolding check_connections_def using reports_ops(7)
    by (intro same_reports_foldl) (simp add: ping_timeout_callback_def same_reports_def)
  have conn: "same_reports (connection_on_timer now c) c" for c
    using check [of c] check [of "(broadcast_ping c)\<lparr>last_heartbeat_time_ms := now\<rparr>"]
    by (simp add: connection_on_timer_def same_reports_def broadcast_ping_def)
  have "same_reports (foldl (\<lambda>cs slot. setSlotOwner slot (getMyNodeName cs) cs) c ss) c" for c ss
    using reports_ops(5) by (intro same_reports_foldl)
  then have complete: "same_reports (completeFailover c) c" for c
    using reports_ops(6) by (simp add: completeFailover_def Let_def drop_slots same_reports_def split: option.split)
  have "same_reports (executeFailover now c) c" for c
    using complete [of c] by (simp add: executeFailover_def startFailover_def broadcast_failover_auth_req_def
      broadcastFailoverUpdate_def broadcast_gossip_def same_reports_def Let_def split: option.split FailoverState.split)
  then show ?thesis
    using conn [of cs] conn [of "connection_on_timer now cs"] by (simp add: heartbeat_def on_timer_def same_reports_def)
qed

text \<open>The runs of a server: messages of the bus, beats of the heartbeat, nodes that join, and the roles and
  slots that commands set.\<close>

inductive cluster_run :: "ClusterServer \<Rightarrow> bool" where
  boot: "cluster_run (init en addr p)"
| started: "cluster_run cs \<Longrightarrow> cluster_run (start now cs)"
| gossip: "cluster_run cs \<Longrightarrow> cluster_run (gossip_callback mo ml now sender msg cs)"
| beat: "cluster_run cs \<Longrightarrow> cluster_run (heartbeat now cs)"
| meet: "cluster_run cs \<Longrightarrow> cluster_run (meet_callback addr p cs)"
| joined: "cluster_run cs \<Longrightarrow> node_connected_callback nm cs = Some cs' \<Longrightarrow> cluster_run cs'"
| replicate: "cluster_run cs \<Longrightarrow> cluster_run (snd (setReplicaOf nm cs))"
| owner: "cluster_run cs \<Longrightarrow> cluster_run (setSlotOwner slot nm cs)"
| failed: "cluster_run cs \<Longrightarrow> cluster_run (markNodeAsFail now nm cs)"

lemma cluster_run_reports: "cluster_run cs \<Longrightarrow> pfailing_reports (cstate cs) = []"
proof (induction rule: cluster_run.induct)
  case (boot en addr p)
  then show ?case
    by (simp add: init_def new_ClusterState_def alloc_def addNode_def Let_def)
next
  case (replicate cs nm)
  then show ?case
    by (auto simp: setReplicaOf_def addReplica_def Let_def split: option.split)
next
  case (joined cs nm cs')
  then show ?case
    using reports_node_connected [of nm cs cs'] by (simp add: same_reports_def)
qed (use reports_gossip reports_timer reports_ops in \<open>simp_all add: same_reports_def start_def start_heartbeat_def\<close>)

section \<open>Properties\<close>


definition demo_cluster :: ClusterServer where
  "demo_cluster =
     upd_state (upd_node 1 (\<lambda>n. n\<lparr>n_slots := [int (keyToSlot ''k'')]\<rparr>))
       (upd_my_node (\<lambda>n. n\<lparr>n_failover_state := kFailoverInProgress\<rparr>)
         (snd (setReplicaOf ''b:2'' (meet_callback ''b'' 2 (init True ''a'' 1)))))"

lemma digit_chars: "digit_char (Suc 0) = CHR ''1''" "digit_char 2 = CHR ''2''"
  by code_simp+

lemma demo_cluster_facts:
  "own_ok demo_cluster 0" "enabled demo_cluster" "n_role (node_at demo_cluster 0) = kReplica"
  "n_failover_state (node_at demo_cluster 0) = kFailoverInProgress" "getMyMaster demo_cluster = Some 1"
  "n_slots (node_at demo_cluster 1) = [int (keyToSlot ''k'')]"
  by (simp_all add: demo_cluster_def init_def meet_callback_def setReplicaOf_def own_ok_def getMyMaster_def getMasterNode_def
    held_def upd_my_node_def upd_state_def upd_node_def node_at_def alloc_def addNode_def getNode_def isMaster_def setMaster_def
    addReplica_def new_ClusterState_def new_ClusterNode_def Let_def to_string_def to_dec.simps digit_chars)




text \<open>A replica promotes itself only from the state it reaches with the votes of a majority of the
  live masters, and every other step of the failover follows an edge of the state machine.\<close>

theorem failover_edges:
  assumes "own_ok cs me" "\<forall>m. getMyMaster cs = Some m \<longrightarrow> m \<noteq> me"
  shows "let cs' = executeFailover now cs; a = n_failover_state (node_at cs me); b = n_failover_state (node_at cs' me) in
    (n_role (node_at cs' me) \<noteq> n_role (node_at cs me) \<longrightarrow> a = kFailoverInProgress \<and> b = kFailoverCompleted) \<and>
    (a \<noteq> b \<longrightarrow>
       (a, b) \<in> {(kNoFailover, kWaitStart), (kWaitStart, kWaitAuth), (kFailoverInProgress, kFailoverCompleted),
                 (kFailoverCompleted, kNoFailover), (kFailoverTimeout, kNoFailover)} \<or>
       a = kWaitAuth \<and> b = kFailoverTimeout \<and> isFailoverTimeout now cs \<or>
       a = kWaitAuth \<and> b = kFailoverInProgress \<and> \<not> isFailoverTimeout now cs \<and> needed_votes cs \<le> length (n_votes (node_at cs me)))"
proof (cases "n_failover_state (node_at cs me) = kFailoverInProgress \<and> enabled cs \<and> isReplica cs \<and> getMyMaster cs \<noteq> None")
  case True
  then obtain m where m: "getMyMaster cs = Some m" "m \<noteq> me" "n_role (node_at cs me) = kReplica"
    using assms by (auto simp: isReplica_def own_ok_def node_isReplica_def)
  then show ?thesis
    using completeFailover_views [OF assms(1) _ m(3,1,2)] executeFailover_in_progress [OF assms(1) _ m(3) _ m(1)] True
    by (simp add: Let_def)
next
  case False
  then show ?thesis
    using assms(1) by (auto simp: executeFailover_def startFailover_def own_ok_def Let_def node_at_upd_my_node
      split: option.splits FailoverState.splits)
qed

theorem failover_edges_witness:
  "n_failover_state (node_at (executeFailover 9 demo_cluster) 0) = kFailoverCompleted \<or>
   n_role (node_at (executeFailover 9 demo_cluster) 0) = kReplica"
  using failover_edges [OF demo_cluster_facts(1), of 9] demo_cluster_facts by (auto simp: Let_def)

text \<open>Votes are counted in requests that carry an epoch, but a gossip entry does not carry it: every
  request for a vote that arrives over the bus is refused, and no acknowledgement is sent.\<close>

theorem auth_request_never_granted:
  assumes "epoch_ok cs" "hdr_type (msg_header msg) = msg_type kFailoverAuthReq"
  shows "same_votes (gossip_callback mo ml now sender msg cs) cs"
  unfolding auth_request_refused [OF assms] by (rule auth_req_votes)

text \<open>No message of the bus and no timeout records a report of a failing node, so the quorum that
  declares a node failed is never reached.\<close>

theorem quorum_never_reached: "cluster_run cs \<Longrightarrow> \<not> checkFailQuorum cs name"
  using cluster_run_reports [of cs] by (simp add: checkFailQuorum_def getPfailReportCount_def Let_def split: option.split)

text \<open>After a completed failover the node is no replica any more, so the branch that announces the new
  owner and resets the state is never executed.\<close>

theorem completed_failover_not_announced:
  assumes "own_ok cs me" "enabled cs" "n_role (node_at cs me) = kReplica" "getMyMaster cs = Some m" "m \<noteq> me"
  shows "executeFailover now (completeFailover cs) = completeFailover cs"
  using completeFailover_views [OF assms]
  by (simp add: executeFailover_def isReplica_def node_isReplica_def Let_def)

text \<open>An announcement that does arrive empties the slot list of the node it is about and sets its epoch
  to zero, since neither is carried by a gossip entry.\<close>

theorem update_wipes_slots:
  assumes "parse_gossip_entry arg = Some info"
  shows "n_slots (updateNodeInfo now info n) = [] \<and> n_config_epoch (updateNodeInfo now info n) = 0"
proof -
  have "gi_used_slot info = []"
    using assms by (auto simp: parse_gossip_entry_def new_GossipNodeInfo_def Let_def split: option.splits)
  then show ?thesis
    using parsed_epoch [OF assms] by (simp add: updateNodeInfo_def Let_def)
qed

text \<open>A redirection is prefixed with ERR, so that a client does not see it as a redirection.\<close>

theorem moved_is_an_error:
  "encode_error (''MOVED '' @ t) = ''-ERR MOVED '' @ t @ crlf" "encode_error (''ASK '' @ t) = ''-ERR ASK '' @ t @ crlf"
  by (simp_all add: encode_error_def starts_with_def)

end
