(* ===== verification/CC_Server_Facts.thy ===== *)
theory CC_Server_Facts
  imports CC_Dispatch CC_Command_Facts CC_Cluster_Facts
begin

text \<open>
  The server as a whole: every command of the table keeps the key space well formed, every command that is
  not a write leaves what clients see as it is, and every event keeps the key space well formed and the number
  of inbound links bounded.
\<close>

section \<open>Commands\<close>

definition keeps :: "command \<Rightarrow> bool" where
  "keeps c \<longleftrightarrow> (\<forall>w args sv. sv_bus_links (snd (c w args sv)) = sv_bus_links sv \<and>
     (storage_ok (w_env w) (sv_store sv) \<longrightarrow> storage_ok (w_env w) (sv_store (snd (c w args sv)))))"

definition observes :: "command \<Rightarrow> bool" where
  "observes c \<longleftrightarrow> (\<forall>w args sv. storage_ok (w_env w) (sv_store sv) \<longrightarrow>
     same_view (w_env w) (sv_store sv) (sv_store (snd (c w args sv))))"

lemma store_cmd_keeps: "keeps_store f \<Longrightarrow> keeps (store_cmd f)"
  by (simp add: keeps_def keeps_store_def store_cmd_def case_prod_unfold)

lemma score_cmd_keeps: "(\<And>lib. keeps_store (\<lambda>e. f e lib)) \<Longrightarrow> keeps (score_cmd f)"
  by (simp add: keeps_def keeps_store_def score_cmd_def store_cmd_def case_prod_unfold)

lemma store_cmd_observes: "reads_only f \<Longrightarrow> observes (store_cmd f)"
  by (simp add: observes_def reads_only_def store_cmd_def case_prod_unfold)

lemma score_cmd_observes: "(\<And>lib. reads_only (\<lambda>e. f e lib)) \<Longrightarrow> observes (score_cmd f)"
  by (simp add: observes_def reads_only_def score_cmd_def store_cmd_def case_prod_unfold)

lemma query_cmd_observes: "observes (query_cmd f)" "keeps (query_cmd f)"
  by (simp_all add: keeps_def observes_def query_cmd_def)

lemma dirty_view: "storage_ok e s \<Longrightarrow> same_view e s (s\<lparr>dirty_counter := d\<rparr>)"
proof -
  have f: "find_entry e k (s\<lparr>dirty_counter := d\<rparr>) = find_entry e k s" for k
    by (simp add: find_entry_def shard_of_def)
  then have "live e (s\<lparr>dirty_counter := d\<rparr>) = live e s"
    by (simp add: live_def fun_eq_iff)
  moreover from this have "live_ttl e (s\<lparr>dirty_counter := d\<rparr>) = live_ttl e s"
    by (simp add: live_ttl_def fun_eq_iff)
  moreover assume "storage_ok e s"
  ultimately show ?thesis
    unfolding same_view_def storage_ok_def f by (simp add: sized_def)
qed

lemma consume_dirty_view: "storage_ok e s \<Longrightarrow> same_view e s (consume_dirty_count n s)"
  using dirty_view by (simp add: consume_dirty_count_def Let_def)

lemma persistence_observes:
  "observes SaveCommand" "observes BgsaveCommand" "observes LastsaveCommand" "observes InfoCommand"
  by (simp_all add: observes_def SaveCommand_def BgsaveCommand_def LastsaveCommand_def InfoCommand_def consume_dirty_view
      case_prod_unfold Let_def)

lemma persistence_keeps: "keeps SaveCommand" "keeps BgsaveCommand" "keeps LastsaveCommand" "keeps InfoCommand"
  using consume_dirty_view
  by (simp_all add: keeps_def SaveCommand_def BgsaveCommand_def LastsaveCommand_def InfoCommand_def same_view_def
      case_prod_unfold Let_def)

lemma request_frame:
  "sv_store (snd (send_command_and_wait w n args t sv)) = sv_store sv"
  "sv_bus_links (snd (send_command_and_wait w n args t sv)) = sv_bus_links sv"
  by (simp_all add: send_command_and_wait_def begin_request_def erase_pending_def deliver_command_reply_def Let_def
      case_prod_unfold split: option.split)

lemma migrate_reply_frame:
  "sv_bus_links (snd (migrate_reply w k r sv)) = sv_bus_links sv"
  "storage_ok (w_env w) (sv_store sv) \<Longrightarrow> storage_ok (w_env w) (sv_store (snd (migrate_reply w k r sv)))"
  by (simp_all add: migrate_reply_def del_ok split: option.split)

lemma migrate_key_frame:
  "sv_bus_links (snd (migrate_key w h p k t rp ob sv)) = sv_bus_links sv"
  "storage_ok (w_env w) (sv_store sv) \<Longrightarrow> storage_ok (w_env w) (sv_store (snd (migrate_key w h p k t rp ob sv)))"
  by (simp_all add: migrate_key_def Let_def case_prod_unfold migrate_reply_frame request_frame del_ok split: sum.split)

lemma migrate_keeps: "keeps handleMigrate"
  by (simp add: keeps_def handleMigrate_def Let_def case_prod_unfold migrate_key_frame get_ok split: option.split)

lemma cluster_keeps: "keeps ClusterCommand"
  using migrate_keeps by (simp add: keeps_def ClusterCommand_def on_cluster_def Let_def case_prod_unfold)

lemmas table_facts = store_cmd_keeps score_cmd_keeps store_cmd_observes score_cmd_observes query_cmd_observes
  persistence_observes persistence_keeps cluster_keeps reading_commands writing_commands
  reading_commands [THEN reads_only_keeps]

lemma table_keeps: "list_all (\<lambda>(n, c). keeps c) CommandFactory"
  by (simp add: CommandFactory_def table_facts)

lemma table_observes:
  "list_all (\<lambda>(n, c). is_write_command n \<or> n = ''cluster'' \<or> observes c) CommandFactory"
  by (simp add: CommandFactory_def table_facts is_write_command_def)

lemma create_keeps: "create n = Some c \<Longrightarrow> keeps c"
  using table_keeps by (auto simp: create_def list_all_iff dest!: map_of_SomeD split: option.splits)

lemma create_lower:
  assumes "create (map to_lower n) = Some c"
  shows "(map to_lower n, c) \<in> set CommandFactory"
  using assms by (auto simp: create_def comp_def dest!: map_of_SomeD split: option.splits)

lemma create_observes:
  assumes "create (map to_lower n) = Some c" "\<not> is_write_command (map to_lower n)" "map to_lower n \<noteq> ''cluster''"
  shows "observes c"
  using table_observes create_lower [OF assms(1)] assms(2,3) by (auto simp: list_all_iff)

section \<open>Events\<close>

definition hashed :: "(string \<Rightarrow> nat) \<Rightarrow> (nat \<Rightarrow> world) \<Rightarrow> bool" where
  "hashed h ws \<longleftrightarrow> (\<forall>i. env_hash (w_env (ws i)) = h)"

text \<open>What every event keeps; \<open>bound\<close> is a bound on the number of inbound links.\<close>

definition server_ok :: "(string \<Rightarrow> nat) \<Rightarrow> nat \<Rightarrow> server \<Rightarrow> bool" where
  "server_ok h bound sv \<longleftrightarrow> storage_ok (some_env h) (sv_store sv) \<and> length (sv_bus_links sv) \<le> bound"

lemma server_ok_cluster [simp]:
  "server_ok h n (sv\<lparr>sv_cluster := cs\<rparr>) = server_ok h n sv" "server_ok h n (sv\<lparr>sv_repl := r\<rparr>) = server_ok h n sv"
  "server_ok h n (record_command_processed sv) = server_ok h n sv"
  by (simp_all add: server_ok_def record_command_processed_def)

lemma keeps_server_ok:
  assumes "keeps c" "env_hash (w_env w) = h" "server_ok h n sv"
  shows "server_ok h n (snd (c w args sv))"
  using assms storage_ok_some [OF assms(2)] by (simp add: keeps_def server_ok_def)

lemma replicate_write_ok [simp]: "server_ok h n (replicate_write name args sv) = server_ok h n sv"
  by (simp add: replicate_write_def server_ok_def split: prod.split)

lemma run_command_snd [simp]: "snd (run_command c w args sv) = snd (c w args sv)"
  by (simp add: run_command_def case_prod_unfold split: sum.split)

lemma dispatch_ok:
  assumes "env_hash (w_env w) = h" "server_ok h n sv"
  shows "server_ok h n (snd (dispatch w args sv))"
  using keeps_server_ok [OF create_keeps assms(1)] assms(2)
  by (simp add: dispatch_def Let_def case_prod_unfold split: option.split)

lemma command_callback_ok:
  "env_hash (w_env w) = h \<Longrightarrow> server_ok h n (fst sc) \<Longrightarrow> server_ok h n (fst (command_callback w cmd sc))"
  using dispatch_ok [of w h n "fst sc"] by (simp add: command_callback_def Let_def case_prod_unfold)

lemma run_commands_ok:
  "hashed h ws \<Longrightarrow> server_ok h n (fst sc) \<Longrightarrow> server_ok h n (fst (run_commands ws i cmds sc))"
  by (induction cmds arbitrary: i sc) (simp_all add: command_callback_ok hashed_def)

lemma conn_received_ok:
  "hashed h ws \<Longrightarrow> server_ok h n (fst sc) \<Longrightarrow> server_ok h n (fst (conn_received ws buf sc))"
  by (cases sc) (simp add: conn_received_def Let_def run_commands_ok split: prod.split bool.split)

lemma conn_handle_read_ok:
  "hashed h ws \<Longrightarrow> server_ok h n (fst sc) \<Longrightarrow> server_ok h n (fst (conn_handle_read ws r sc))"
  by (simp add: conn_handle_read_def conn_received_ok split: recv_result.split)

lemma put_link_ok: "link_at sv ref \<noteq> None \<Longrightarrow> server_ok h n (put_link ref l sv) = server_ok h n sv"
  by (cases ref) (auto simp: server_ok_def length_update)

lemma reply_on_link_ok [simp]: "server_ok h n (reply_on_link ref msg sv) = server_ok h n sv"
  by (simp add: reply_on_link_def put_link_ok case_prod_unfold Let_def split: option.split)

lemma bus_command_ok:
  assumes "env_hash (w_env w) = h" "server_ok h n sv"
  shows "server_ok h n (snd (execute_bus_command_line w line sv))"
  using keeps_server_ok [OF create_keeps assms(1)] assms(2)
  by (simp add: execute_bus_command_line_def Let_def split: option.split)

lemma deliver_ok [simp]: "server_ok h n (deliver_command_reply rid body sv) = server_ok h n sv"
  by (simp add: deliver_command_reply_def server_ok_def split: option.split)

lemma replsync_ok [simp]: "server_ok h n (handle_replsync w sender name sv) = server_ok h n sv"
  by (simp add: handle_replsync_def Let_def server_ok_def case_prod_unfold split: option.split)

lemma handle_rep_data_ok:
  assumes "env_hash (w_env w) = h" "server_ok h n sv"
  shows "server_ok h n (handle_rep_data w sender args ref sv)"
  using bus_command_ok [OF assms] assms(2)
  by (simp add: handle_rep_data_def handle_replication_command_def case_prod_unfold Let_def split: list.split option.split)

lemma handle_link_msg_ok:
  assumes "env_hash (w_env w) = h" "server_ok h n sv" "handle_link_msg w msg ref sv = Some sv'"
  shows "server_ok h n sv'"
proof -
  have "server_ok h n s" if "handle_typed_msg w sender msg ref sv = Some (c, s)" for sender c s
    using that assms(2) handle_rep_data_ok [OF assms(1,2)]
    by (auto simp: handle_typed_msg_def Let_def split: if_splits option.splits)
  with assms(2,3) show ?thesis
    by (auto simp: handle_link_msg_def Let_def split: if_splits option.splits)
qed

lemma handle_msgs_ok:
  assumes "hashed h ws"
  shows "server_ok h n sv \<Longrightarrow> server_ok h n (snd (handle_msgs ws i msgs ref sv))"
proof (induction msgs arbitrary: i sv)
  case (Cons msg msgs)
  let ?sv = "sv\<lparr>sv_cluster := upd_state (\<lambda>st. st\<lparr>bus_messages_received := bus_messages_received st + 1\<rparr>) (sv_cluster sv)\<rparr>"
  have w: "env_hash (w_env (ws i)) = h" and ok: "server_ok h n ?sv"
    using assms Cons.prems by (simp_all add: hashed_def)
  show ?case
  proof (cases "handle_link_msg (ws i) msg ref ?sv")
    case (Some sv')
    then show ?thesis
      using Cons.IH [OF handle_link_msg_ok [OF w ok Some]] by (simp add: Let_def)
  qed (use ok in \<open>simp add: Let_def\<close>)
qed simp

lemma remove_link_ok: "server_ok h n sv \<Longrightarrow> server_ok h n (remove_link ref sv)"
  by (cases ref) (auto simp: server_ok_def intro: le_trans [OF length_delete_le])

lemma link_readable_ok:
  assumes "hashed h ws" "server_ok h n sv" "link_readable ws r ref sv = Some sv'"
  shows "server_ok h n sv'"
proof -
  have "server_ok h n (snd (handle_msgs ws 0 msgs ref (put_link ref l sv)))" if "link_at sv ref \<noteq> None" for msgs l
    using handle_msgs_ok [OF assms(1)] put_link_ok [OF that] assms(2) by blast
  with assms(2,3) show ?thesis
    by (auto simp: link_readable_def case_prod_unfold remove_link_ok put_link_ok split: option.splits)
qed

lemma handle_accept_ok:
  "server_ok h kMaxInboundLinks sv \<Longrightarrow> server_ok h kMaxInboundLinks (handle_accept addr p sv)"
  by (auto simp: server_ok_def handle_accept_def create_link_def inbound_admitted_def length_update)

end
