(* ===== verification/CC_Replication_Facts.thy ===== *)
theory CC_Replication_Facts
  imports CC_Server_Facts CC_Rdb_Facts CC_Resp_Facts CC_Bus_Facts
begin

text \<open>
  What travels between two servers: the stream of write commands and the replication buffer, objects on the
  wire and the RESTORE that receives them, the messages of a full synchronisation, and the request that moves
  a key.
\<close>

section \<open>Replicas\<close>

text \<open>Write commands of the table read and write the key space alone.\<close>

definition store_only :: "command \<Rightarrow> bool" where
  "store_only c \<longleftrightarrow> (\<forall>w args sv sv'. sv_store sv = sv_store sv' \<longrightarrow>
     sv_store (snd (c w args sv)) = sv_store (snd (c w args sv')) \<and> sv_cluster (snd (c w args sv)) = sv_cluster sv \<and>
     sv_repl (snd (c w args sv)) = sv_repl sv)"

lemma store_onlyD:
  "store_only c \<Longrightarrow> sv_store sv = sv_store sv' \<Longrightarrow> sv_store (snd (c w args sv)) = sv_store (snd (c w args sv'))"
  "store_only c \<Longrightarrow> sv_cluster (snd (c w args sv)) = sv_cluster sv"
  "store_only c \<Longrightarrow> sv_repl (snd (c w args sv)) = sv_repl sv"
  unfolding store_only_def by metis+

lemma store_only_cmd: "store_only (store_cmd f)" "store_only (score_cmd g)"
  by (simp_all add: store_only_def score_cmd_def store_cmd_def case_prod_unfold)

lemma table_store_only: "list_all (\<lambda>(n, c). is_write_command n \<longrightarrow> store_only c) CommandFactory"
  by (simp add: CommandFactory_def store_only_cmd is_write_command_def)

lemma create_store_only:
  assumes "create (map to_lower n) = Some c" "is_write_command (map to_lower n)"
  shows "store_only c"
  using table_store_only create_lower [OF assms(1)] assms(2) by (auto simp: list_all_iff)

lemma factory_names:
  "map fst CommandFactory =
    [''get'', ''set'', ''del'', ''incr'', ''decr'', ''incrby'', ''decrby'', ''exists'', ''ping'', ''expire'', ''ttl'', ''pttl'',
     ''persist'', ''setex'', ''lpush'', ''rpush'', ''lpop'', ''rpop'', ''llen'', ''lrange'', ''hset'', ''hget'', ''hdel'', ''hlen'',
     ''hgetall'', ''sadd'', ''spop'', ''scard'', ''sismember'', ''smembers'', ''zadd'', ''zscore'', ''zcard'', ''zrange'',
     ''save'', ''bgsave'', ''lastsave'', ''dbsize'', ''flushdb'', ''info'', ''debug'', ''cluster'', ''restore'', ''psync'',
     ''sync'', ''replconf'']"
  by (simp only: CommandFactory_def list.map fst_conv)

lemma write_commands_listed: "{n. is_write_command n} \<subseteq> set (map fst CommandFactory)"
  unfolding factory_names is_write_command_def Collect_mem_eq by code_simp

lemma write_command_created:
  assumes "is_write_command n"
  obtains c where "create n = Some c"
proof -
  have "n \<in> fst ` set CommandFactory"
    using write_commands_listed assms by auto
  then obtain c where "map_of CommandFactory n = Some c"
    by (metis map_of_eq_None_iff not_Some_eq)
  with that show ?thesis
    by (simp add: create_def)
qed

text \<open>A line of the replication stream is executed as the command it encodes.\<close>

lemma bus_args_of_command:
  assumes "sendable args"
  shows "bus_command_args (encode_array args) = Some args"
proof -
  have "parse (RespParser (encode_array args)) =
      (command_value args # fst (parse (RespParser [])), snd (parse (RespParser [])))"
    using parse_command [OF assms, of "RespParser (encode_array args)" "[]"] by (simp add: RespParser_def)
  moreover have "parse (RespParser []) = ([], RespParser [])"
    by (rule parse_incomplete) (simp add: RespParser_def has_complete_command_def)
  moreover have "hd (encode_array args) = CHR ''*''" "encode_array args \<noteq> []"
    by (simp_all add: encode_array_alt)
  ultimately show ?thesis
    by (simp add: bus_command_args_def RespParser_def comp_def)
qed

lemma execute_encoded:
  assumes "sendable args" "args \<noteq> []" "create (map to_lower (args ! 0)) = Some cmd"
  shows "execute_bus_command_line w (encode_array args) sv = cmd w args sv"
  using assms by (simp add: execute_bus_command_line_def bus_args_of_command)

text \<open>What decides about a redirection is not changed by sending a message.\<close>

definition same_routing :: "ClusterServer \<Rightarrow> ClusterServer \<Rightarrow> bool" where
  "same_routing cs' cs \<longleftrightarrow> enabled cs' = enabled cs \<and> my_node cs' = my_node cs \<and> heap (cstate cs') = heap (cstate cs) \<and>
     nodes (cstate cs') = nodes (cstate cs) \<and> slot_owners (cstate cs') = slot_owners (cstate cs) \<and>
     migrating_slots (cstate cs') = migrating_slots (cstate cs) \<and> importing_slots (cstate cs') = importing_slots (cstate cs)"

lemma same_routing_refl [simp]: "same_routing cs cs"
  by (simp add: same_routing_def)

lemma same_routing_trans: "same_routing a b \<Longrightarrow> same_routing b c \<Longrightarrow> same_routing a c"
  by (simp add: same_routing_def)

lemma same_routing_send: "same_routing (snd (send_on_link name msg cs)) cs"
  by (simp add: same_routing_def send_on_link_def Let_def note_bus_message_sent_def upd_state_def
      split: option.split prod.split)

lemma same_routing_foldl: "(\<And>c x. same_routing (f c x) c) \<Longrightarrow> same_routing (foldl f cs xs) cs"
  by (induction xs arbitrary: cs) (auto intro: same_routing_trans)

lemma same_routing_replicate: "same_routing (snd (replicate_command c (r, cs))) cs"
  by (auto simp: replicate_command_def Let_def send_replication_msg_def send_command_to_node_def
      intro!: same_routing_foldl same_routing_send)

lemma same_routing_sel:
  assumes "same_routing cs' cs"
  shows "enabled cs' = enabled cs" "node_at cs' = node_at cs" "getMyNodeName cs' = getMyNodeName cs"
    "isReplica cs' = isReplica cs" "getNodeForSlot (cstate cs') = getNodeForSlot (cstate cs)"
    "getNode (cstate cs') = getNode (cstate cs)" "isSlotMigrating (cstate cs') = isSlotMigrating (cstate cs)"
    "getSlotMigrationInfo (cstate cs') = getSlotMigrationInfo (cstate cs)"
proof -
  show n: "node_at cs' = node_at cs"
    using assms by (simp add: same_routing_def node_at_def fun_eq_iff)
  show "getMyNodeName cs' = getMyNodeName cs" "isReplica cs' = isReplica cs"
    unfolding getMyNodeName_def isReplica_def n using assms by (simp_all add: same_routing_def)
  have "migrating_slots (cstate cs') = migrating_slots (cstate cs)" "importing_slots (cstate cs') = importing_slots (cstate cs)"
    using assms by (simp_all add: same_routing_def)
  then show "getSlotMigrationInfo (cstate cs') = getSlotMigrationInfo (cstate cs)"
    by (simp only: fun_eq_iff getSlotMigrationInfo_def simp_thms)
qed (use assms in \<open>simp_all add: same_routing_def getNodeForSlot_def getNode_def isSlotMigrating_def fun_eq_iff\<close>)

lemma same_routing_redirect:
  assumes "same_routing cs' cs"
  shows "redirect_of n args cs' = redirect_of n args cs"
  unfolding redirect_of_def checkRedirect_def Let_def same_routing_sel [OF assms] ..

text \<open>A write that a master accepts.\<close>

definition accepts :: "server \<Rightarrow> string list \<Rightarrow> bool" where
  "accepts sv args \<longleftrightarrow> enabled (sv_cluster sv) \<and> \<not> isReplica (sv_cluster sv) \<and> args \<noteq> [] \<and> sendable args \<and>
     is_write_command (map to_lower (args ! 0)) \<and> redirect_of (map to_lower (args ! 0)) args (sv_cluster sv) = []"

lemma dispatch_write:
  assumes "accepts sv args" "sv_store sv' = sv_store sv"
  shows "let sv1 = snd (dispatch w args sv) in
    sv_store sv1 = sv_store (handle_replication_command w (encode_array args) sv') \<and>
    sv_repl sv1 = fst (replicate_command (encode_array args) (sv_repl sv, sv_cluster sv)) \<and>
    same_routing (sv_cluster sv1) (sv_cluster sv)"
proof -
  let ?n = "map to_lower (args ! 0)"
  have acc: "enabled (sv_cluster sv)" "\<not> isReplica (sv_cluster sv)" "args \<noteq> []" "sendable args" "is_write_command ?n"
    "redirect_of ?n args (sv_cluster sv) = []"
    using assms(1) by (simp_all add: accepts_def)
  obtain c where c: "create ?n = Some c" "store_only c"
    using write_command_created [OF acc(5)] create_store_only [OF _ acc(5)] by metis
  let ?s = "snd (c w args (record_command_processed sv))"
  have st: "sv_store ?s = sv_store (snd (c w args sv'))"
    by (rule store_onlyD(1) [OF c(2)]) (simp add: record_command_processed_def assms(2))
  have so: "sv_cluster ?s = sv_cluster sv" "sv_repl ?s = sv_repl sv"
    using store_onlyD(2,3) [OF c(2)] by (simp_all add: record_command_processed_def)
  have "handle_replication_command w (encode_array args) sv' = snd (c w args sv')"
    using execute_encoded [OF acc(4,3) c(1)] by (simp add: handle_replication_command_def)
  moreover have "snd (dispatch w args sv) = replicate_write ?n args ?s"
    unfolding dispatch_def Let_def c(1) acc(6) using acc(2) by (simp add: case_prod_unfold)
  moreover have "replicate_write ?n args ?s =
      ?s\<lparr>sv_repl := fst (replicate_command (encode_array args) (sv_repl sv, sv_cluster sv)),
         sv_cluster := snd (replicate_command (encode_array args) (sv_repl sv, sv_cluster sv))\<rparr>"
    using acc so by (simp add: replicate_write_def case_prod_unfold)
  ultimately show ?thesis
    using st same_routing_replicate [of "encode_array args" "sv_repl sv" "sv_cluster sv"] by (simp add: Let_def)
qed

subsection \<open>The replication buffer\<close>

text \<open>The entries of the buffer lie end to end between its start and the offset of the master.\<close>

fun contiguous :: "int \<Rightarrow> ReplicationBufferEntry list \<Rightarrow> int \<Rightarrow> bool" where
  "contiguous a [] b \<longleftrightarrow> a = b"
| "contiguous a (e # es) b \<longleftrightarrow>
     entry_offset e = a \<and> entry_command e \<noteq> [] \<and> contiguous (a + int (length (entry_command e))) es b"

definition backlog_ok :: "ReplicationMgr \<Rightarrow> bool" where
  "backlog_ok r \<longleftrightarrow> contiguous (repl_buffer_start_offset r) (repl_buffer r) (master_repl_offset r)"

definition backlog_bytes :: "ReplicationMgr \<Rightarrow> nat" where
  "backlog_bytes r = sum_list (map (\<lambda>e. length (entry_command e)) (repl_buffer r))"

fun entries_from :: "int \<Rightarrow> string list \<Rightarrow> ReplicationBufferEntry list" where
  "entries_from off [] = []"
| "entries_from off (c # cs) = \<lparr>entry_command = c, entry_offset = off\<rparr> # entries_from (off + int (length c)) cs"

lemma contiguous_append:
  "contiguous a (xs @ ys) b \<longleftrightarrow> (\<exists>m. contiguous a xs m \<and> contiguous m ys b)"
  by (induction xs arbitrary: a) auto

lemma contiguous_le: "contiguous a es b \<Longrightarrow> a \<le> b"
  by (induction a es b rule: contiguous.induct) auto

lemma contiguous_below: "contiguous a es b \<Longrightarrow> e \<in> set es \<Longrightarrow> entry_offset e < b"
proof (induction a es b rule: contiguous.induct)
  case (2 a x es b)
  then have "a + int (length (entry_command x)) \<le> b" "entry_command x \<noteq> []"
    by (auto intro: contiguous_le)
  then have "a < b"
    by (cases "entry_command x") auto
  with 2 show ?case
    by auto
qed simp

lemma entries_from_offsets: "e \<in> set (entries_from off cs) \<Longrightarrow> off \<le> entry_offset e"
  by (induction off cs rule: entries_from.induct) auto

lemma entries_from_commands [simp]: "map entry_command (entries_from off cs) = cs"
  by (induction off cs rule: entries_from.induct) auto

lemma cleanup_backlog:
  assumes "backlog_ok r"
  shows "backlog_ok (cleanup_replication_buffer r)"
proof (cases "repl_buffer r = []")
  case False
  let ?n = "length (repl_buffer r) div 2"
  have "?n < length (repl_buffer r)"
    using False by (cases "repl_buffer r") auto
  then obtain x ys where d: "drop ?n (repl_buffer r) = x # ys" "x = repl_buffer r ! ?n"
    by (metis Cons_nth_drop_Suc)
  have "contiguous (repl_buffer_start_offset r) (take ?n (repl_buffer r) @ x # ys) (master_repl_offset r)"
    using assms d(1) append_take_drop_id [of ?n "repl_buffer r"] by (simp add: backlog_ok_def)
  then show ?thesis
    using False d by (auto simp: contiguous_append backlog_ok_def cleanup_replication_buffer_def Let_def)
qed (use assms in \<open>simp add: cleanup_replication_buffer_def\<close>)

lemma add_backlog:
  assumes "backlog_ok r" "c \<noteq> []"
  shows "backlog_ok (add_to_replication_buffer c r)"
proof -
  let ?r = "r\<lparr>repl_buffer := repl_buffer r @ [\<lparr>entry_command = c, entry_offset = master_repl_offset r\<rparr>],
    master_repl_offset := master_repl_offset r + int (length c)\<rparr>"
  have "backlog_ok ?r"
    using assms by (auto simp: backlog_ok_def contiguous_append)
  then show ?thesis
    using cleanup_backlog [of ?r] by (simp add: add_to_replication_buffer_def Let_def)
qed

lemma replicate_backlog:
  assumes "backlog_bytes r + length c \<le> kReplicationBufferSize"
  shows "repl_buffer (fst (replicate_command c (r, cs))) =
      repl_buffer r @ [\<lparr>entry_command = c, entry_offset = master_repl_offset r\<rparr>]"
    "master_repl_offset (fst (replicate_command c (r, cs))) = master_repl_offset r + int (length c)"
  using assms by (simp_all add: replicate_command_def add_to_replication_buffer_def backlog_bytes_def Let_def)

lemma accepts_later:
  assumes "accepts sv args" "accepts sv args'"
  shows "accepts (snd (dispatch w args sv)) args'"
  using assms same_routing_sel [of "sv_cluster (snd (dispatch w args sv))" "sv_cluster sv"]
    same_routing_redirect [of "sv_cluster (snd (dispatch w args sv))" "sv_cluster sv"] dispatch_write [OF assms(1) refl, of w]
  by (simp add: accepts_def Let_def)

lemma writes_reproduced:
  assumes "list_all (\<lambda>(w, args). accepts m args) wcs"
    "backlog_bytes (sv_repl m) + sum_list (map (\<lambda>(w, args). length (encode_array args)) wcs) \<le> kReplicationBufferSize"
    "sv_store r = sv_store m"
  shows "sv_store (foldl (\<lambda>sv (w, args). handle_replication_command w (encode_array args) sv) r wcs) =
      sv_store (foldl (\<lambda>sv (w, args). snd (dispatch w args sv)) m wcs) \<and>
    repl_buffer (sv_repl (foldl (\<lambda>sv (w, args). snd (dispatch w args sv)) m wcs)) =
      repl_buffer (sv_repl m) @ entries_from (master_repl_offset (sv_repl m)) (map (\<lambda>(w, args). encode_array args) wcs)"
  using assms
proof (induction wcs arbitrary: m r)
  case (Cons wa wcs)
  obtain w args where wa: "wa = (w, args)"
    by fastforce
  let ?m = "snd (dispatch w args m)" and ?r = "handle_replication_command w (encode_array args) r"
  have acc: "accepts m args"
    using Cons.prems(1) wa by simp
  have st: "sv_store ?r = sv_store ?m"
    and rp: "sv_repl ?m = fst (replicate_command (encode_array args) (sv_repl m, sv_cluster m))"
    using dispatch_write [OF acc Cons.prems(3), of w] by (simp_all add: Let_def)
  have room: "backlog_bytes (sv_repl m) + length (encode_array args) \<le> kReplicationBufferSize"
    using Cons.prems(2) wa by simp
  have "list_all (\<lambda>(w, args). accepts ?m args) wcs"
    using Cons.prems(1) accepts_later [OF acc] by (auto simp: list_all_iff)
  moreover have "backlog_bytes (sv_repl ?m) + sum_list (map (\<lambda>(w, args). length (encode_array args)) wcs) \<le>
      kReplicationBufferSize"
    using Cons.prems(2) wa by (simp add: backlog_bytes_def rp replicate_backlog [OF room])
  ultimately show ?case
    using Cons.IH [of ?m ?r] st wa by (simp add: rp replicate_backlog [OF room])
qed simp

subsection \<open>Objects on the wire\<close>

text \<open>Objects that survive serialization, and what a RESTORE of one does.\<close>

definition portable :: "fp_lib \<Rightarrow> cache_object \<Rightarrow> bool" where
  "portable lib ob \<longleftrightarrow> object_ok ob \<and> payload_ok lib ob \<and> (otype ob = STRING \<or> element_count ob > 0) \<and>
     int64_ok (int (length (serialize lib ob)))"

definition restored :: "env \<Rightarrow> string \<Rightarrow> cache_object \<Rightarrow> int \<Rightarrow> storage \<Rightarrow> storage" where
  "restored e key ob ttl_ms s = (if ttl_ms > 0 then set_with_expire e key ob ttl_ms s else storage_set e key ob s)"

lemma create_restore: "create (map to_lower ''RESTORE'') = Some (score_cmd RestoreCommand)"
proof -
  have "map to_lower ''RESTORE'' = ''restore''"
    by code_simp
  then show ?thesis
    unfolding create_def CommandFactory_def by simp
qed

lemma restore_executed:
  assumes "portable (w_fp w) ob" "g17_exact (w_fp w)" "int64_ok ttl_ms"
  shows "score_cmd RestoreCommand w (migrate_args (w_fp w) key ttl_ms ob replace) sv =
    (if \<not> replace \<and> live (w_env w) (sv_store sv) key \<noteq> None
     then (Inr (encode_error ''BUSYKEY Target key name already exists''), sv)
     else (Inr ok_reply, sv\<lparr>sv_store := restored (w_env w) key ob ttl_ms (sv_store sv)\<rparr>))"
proof -
  have "deserialize (w_fp w) (serialize (w_fp w) ob) CacheObject = Inr ob"
    using deserialize_serialize_append [of ob "w_fp w" "[]"] assms(1,2) by (auto simp: portable_def finish_def)
  then show ?thesis
    using stoll_to_string_end [OF assms(3)]
    by (simp add: score_cmd_def store_cmd_def RestoreCommand_def migrate_args_def exist_live restored_def ok_reply_def Let_def)
qed

lemma sendable_restore:
  assumes "portable lib ob" "int64_ok (int (length key))" "int64_ok ttl_ms"
  shows "sendable (migrate_args lib key ttl_ms ob replace)"
proof -
  have "length (to_dec (nat \<bar>ttl_ms\<bar>)) \<le> 19"
    using assms(3) by (intro width_to_dec) (auto simp: int64_arith)
  then have "int64_ok (int (length (to_string ttl_ms)))"
    by (auto simp: to_string_def int64_arith)
  then show ?thesis
    using assms by (auto simp: sendable_def migrate_args_def kMaxArray_def portable_def int64_arith)
qed

lemma encode_array_tag: "take n (encode_array args) = CHR ''C'' # p \<longleftrightarrow> False" "take n (encode_array args) = CHR ''R'' # p \<longleftrightarrow> False"
  by (cases n, simp_all add: encode_array_alt)+

lemma rep_data_command: "handle_rep_data w sender [encode_array args] ref sv = handle_replication_command w (encode_array args) sv"
  by (simp add: handle_rep_data_def parse_bus_tagged_def encode_array_tag)

lemma restore_received:
  assumes "portable (w_fp w) ob" "g17_exact (w_fp w)" "int64_ok ttl_ms" "int64_ok (int (length key))"
  shows "execute_bus_command_line w (encode_array (migrate_args (w_fp w) key ttl_ms ob replace)) sv =
    (if \<not> replace \<and> live (w_env w) (sv_store sv) key \<noteq> None
     then (Inr (encode_error ''BUSYKEY Target key name already exists''), sv)
     else (Inr ok_reply, sv\<lparr>sv_store := restored (w_env w) key ob ttl_ms (sv_store sv)\<rparr>))"
proof -
  have "create (map to_lower (migrate_args (w_fp w) key ttl_ms ob replace ! 0)) = Some (score_cmd RestoreCommand)"
    using create_restore by (simp add: migrate_args_def)
  moreover have "migrate_args (w_fp w) key ttl_ms ob replace \<noteq> []"
    by (simp add: migrate_args_def)
  ultimately show ?thesis
    using execute_encoded [OF sendable_restore [OF assms(1,4,3)]] restore_executed [OF assms(1-3)] by metis
qed

section \<open>Full synchronisation\<close>

text \<open>The commands of a full synchronisation, and what the replica makes of the records behind them: times
  to live are relative, so a deadline moves with the clocks.\<close>

definition sync_lines :: "env \<Rightarrow> fp_lib \<Rightarrow> kv_with_ttl list \<Rightarrow> string list" where
  "sync_lines e lib kvs = map encode_array (List.map_filter (restore_args e lib) kvs)"

definition moved :: "int \<Rightarrow> kv_with_ttl \<Rightarrow> kv_with_ttl" where
  "moved d kv = kv\<lparr>kv_expire := (if kv_expire kv > 0 then kv_expire kv + d else kv_expire kv)\<rparr>"

text \<open>A record that can be sent at the clock \<open>now\<close> and stored by a clock that is ahead by \<open>d\<close>.\<close>

definition wire_kv :: "fp_lib \<Rightarrow> int \<Rightarrow> int \<Rightarrow> kv_with_ttl \<Rightarrow> bool" where
  "wire_kv lib now d kv \<longleftrightarrow> portable lib (kv_value kv) \<and> int64_ok (int (length (kv_key kv))) \<and>
     (kv_expire kv = -1 \<or> now < kv_expire kv \<and> 0 < kv_expire kv \<and> kv_expire kv \<le> int64_max \<and> kv_expire kv + d \<le> int64_max)"

lemma restore_args_wire:
  "wire_kv lib (env_now e) d kv \<Longrightarrow> restore_args e lib kv =
    Some (migrate_args lib (kv_key kv) (if kv_expire kv > 0 then kv_expire kv - env_now e else -1) (kv_value kv) True)"
  by (auto simp: restore_args_def migrate_args_def wire_kv_def Let_def)

lemma restore_record:
  assumes "wire_kv (w_fp w) (env_now e) (env_now (w_env w) - env_now e) kv" "g17_exact (w_fp w)"
    "clock_ok (env_now e)" "clock_ok (env_now (w_env w))"
  shows "sync_lines e (w_fp w) (kv # kvs) =
      encode_array (migrate_args (w_fp w) (kv_key kv) (if kv_expire kv > 0 then kv_expire kv - env_now e else -1) (kv_value kv) True) #
      sync_lines e (w_fp w) kvs"
    "handle_rep_data w sender [hd (sync_lines e (w_fp w) (kv # kvs))] ref sv =
      sv\<lparr>sv_store := load_one (w_env w) (sv_store sv) (moved (env_now (w_env w) - env_now e) kv)\<rparr>"
proof -
  let ?ttl = "if kv_expire kv > 0 then kv_expire kv - env_now e else -1"
  show lines: "sync_lines e (w_fp w) (kv # kvs) =
      encode_array (migrate_args (w_fp w) (kv_key kv) ?ttl (kv_value kv) True) # sync_lines e (w_fp w) kvs"
    using restore_args_wire [OF assms(1)] by (simp add: sync_lines_def List.map_filter_simps)
  have ttl: "int64_ok ?ttl"
    using assms(1,3) by (auto simp: wire_kv_def clock_ok_def int64_arith)
  have "load_one (w_env w) (sv_store sv) (moved (env_now (w_env w) - env_now e) kv) =
      restored (w_env w) (kv_key kv) (kv_value kv) ?ttl (sv_store sv)"
    using assms(1,3,4)
    by (auto simp: load_one_def store_loaded_def restored_def moved_def wire_kv_def clock_ok_def int64_arith sub64_id Let_def)
  then show "handle_rep_data w sender [hd (sync_lines e (w_fp w) (kv # kvs))] ref sv =
      sv\<lparr>sv_store := load_one (w_env w) (sv_store sv) (moved (env_now (w_env w) - env_now e) kv)\<rparr>"
    using restore_received [OF _ assms(2) ttl, of "kv_value kv" "kv_key kv" True sv] assms(1)
    by (simp add: lines rep_data_command handle_replication_command_def wire_kv_def)
qed

lemma sync_received:
  assumes "list_all (wire_kv (w_fp w) (env_now e) (env_now (w_env w) - env_now e)) kvs" "g17_exact (w_fp w)"
    "clock_ok (env_now e)" "clock_ok (env_now (w_env w))"
  shows "sv_store (foldl (\<lambda>sv line. handle_rep_data w sender [line] ref sv) sv (sync_lines e (w_fp w) kvs)) =
    foldl (load_one (w_env w)) (sv_store sv) (map (moved (env_now (w_env w) - env_now e)) kvs)"
  using assms(1)
proof (induction kvs arbitrary: sv)
  case (Cons kv kvs)
  note r = restore_record [OF _ assms(2-4), of kv]
  show ?case
    using Cons r(1) [of kvs] r(2) [of sender kvs ref sv] by simp
qed (simp add: sync_lines_def List.map_filter_simps)

lemma sync_sent:
  assumes "map_of (conn_links cs) name = Some l"
  shows "map_of (conn_links (sync_snapshot e lib name kvs cs)) name =
    Some (send_all (getMyNodeName cs) (map (\<lambda>line. typed_msg kRepData [line]) (sync_lines e lib kvs)) l)"
  using assms
proof (induction kvs arbitrary: cs l)
  case (Cons kv kvs)
  show ?case
  proof (cases "restore_args e lib kv")
    case None
    then show ?thesis
      using Cons by (simp add: sync_snapshot_def sync_lines_def List.map_filter_simps)
  next
    case (Some args)
    let ?m = "typed_msg kRepData [encode_array args]" and ?cs = "snd (send_replication_args name args cs)"
    have "args \<noteq> []"
      using Some by (auto simp: restore_args_def Let_def split: if_splits)
    then have cs: "?cs = snd (send_on_link name ?m cs)"
      by (simp add: send_replication_args_def send_command_to_node_def)
    have "map_of (conn_links ?cs) name = Some (snd (send_msg (getMyNodeName cs) ?m l))"
      using Cons.prems unfolding cs
      by (simp add: send_on_link_def note_bus_message_sent_def upd_state_def Let_def update_conv split: prod.split)
    moreover have "getMyNodeName ?cs = getMyNodeName cs"
      using same_routing_sel(3) [OF same_routing_send] unfolding cs .
    moreover have "sync_lines e lib (kv # kvs) = encode_array args # sync_lines e lib kvs"
      "sync_snapshot e lib name (kv # kvs) cs = sync_snapshot e lib name kvs ?cs"
      using Some by (simp_all add: sync_snapshot_def sync_lines_def List.map_filter_simps)
    ultimately show ?thesis
      using Cons.IH [of ?cs] by (simp add: send_all_def)
  qed
qed (simp add: sync_snapshot_def sync_lines_def List.map_filter_simps send_all_def)

section \<open>Moving a key\<close>

text \<open>The remaining time to live of a key that is live, as it is sent.\<close>

definition wire_ttl :: "env \<Rightarrow> storage \<Rightarrow> string \<Rightarrow> int" where
  "wire_ttl e s key = (case live_ttl e s key of None \<Rightarrow> -1 | Some t \<Rightarrow> t - env_now e)"

definition deadlines_ok :: "env \<Rightarrow> storage \<Rightarrow> bool" where
  "deadlines_ok e s \<longleftrightarrow> clock_ok (env_now e) \<and> list_all (\<lambda>(k, t). t \<le> int64_max) (expires s)"

lemma live_ttl_range:
  assumes "deadlines_ok e s" "live_ttl e s key = Some t"
  shows "env_now e < t" "t \<le> int64_max" "0 \<le> env_now e" "map_of (expires s) key = Some t"
  using assms
  by (auto simp: deadlines_ok_def live_ttl_def live_def is_expired_def clock_ok_def list_all_iff dest: map_of_SomeD split: if_splits)

lemma wire_ttl_get_ttl:
  assumes "deadlines_ok e s" "live e s key \<noteq> None"
  shows "(let remaining = get_ttl (env_now e) key (expires s) in if remaining > 0 then remaining else -1) = wire_ttl e s key"
proof (cases "live_ttl e s key")
  case None
  then show ?thesis
    using assms(2) by (simp add: wire_ttl_def get_ttl_def live_ttl_def)
next
  case (Some t)
  then show ?thesis
    using live_ttl_range [OF assms(1) Some] by (auto simp: wire_ttl_def get_ttl_def int64_arith sub64_id Let_def)
qed

lemma wire_ttl_ok: "deadlines_ok e s \<Longrightarrow> int64_ok (wire_ttl e s key)"
  using live_ttl_range [of e s key] by (auto simp: wire_ttl_def int64_arith split: option.split)

lemma restored_views:
  assumes "storage_ok e s" "clock_ok (env_now e)" "env_now e + ttl_ms \<le> int64_max" "int64_ok ttl_ms"
  shows "live e (restored e key ob ttl_ms s) key = Some ob"
    "live_ttl e (restored e key ob ttl_ms s) key = (if ttl_ms > 0 then Some (env_now e + ttl_ms) else None)"
  using evict_if_needed_facts(1) [OF assms(1), THEN storage_ok_sized] sat_deadline_eq [OF assms(2,4)] assms(3)
  by (simp_all add: restored_def storage_set_def set_with_expire_def storage_views is_expired_def Let_def)

text \<open>A request with a fresh number gets the reply that arrives for it, or none.\<close>

lemma request_reply:
  assumes "map_of (sv_pending_replies sv) (sv_next_request_id sv) = None"
  shows "fst (send_command_and_wait w name args t sv) \<in> {None, w_reply w}"
proof -
  have "map_of (filter P (sv_pending_replies sv)) (sv_next_request_id sv) = None" for P
    using assms by (auto simp: map_of_eq_None_iff)
  then show ?thesis
    by (simp add: send_command_and_wait_def begin_request_def deliver_command_reply_def Let_def case_prod_unfold update_conv
        split: option.split)
qed

text \<open>A reply means that the request has gone out on the link to the node.\<close>

definition request_sent :: "string \<Rightarrow> 64 word \<Rightarrow> string list \<Rightarrow> ClusterServer \<Rightarrow> bool" where
  "request_sent name rid args cs \<longleftrightarrow> (\<exists>l. map_of (conn_links cs) name =
     Some (snd (send_msg (getMyNodeName cs) (typed_msg kRepData [''CCREQ '' @ word_string rid @ '' '' @ encode_array args]) l)))"

lemma request_goes_out:
  assumes "fst (send_command_and_wait w name args t sv) \<noteq> None"
  shows "request_sent name (sv_next_request_id sv) args (sv_cluster (snd (send_command_and_wait w name args t sv)))"
proof -
  let ?m = "typed_msg kRepData [''CCREQ '' @ word_string (sv_next_request_id sv) @ '' '' @ encode_array args]"
  let ?r = "send_on_link name ?m (sv_cluster sv)"
  have "fst ?r"
    using assms
    by (simp add: send_command_and_wait_def begin_request_def send_command_to_node_def Let_def case_prod_unfold
        split: if_split_asm)
  moreover have "sv_cluster (snd (send_command_and_wait w name args t sv)) = snd ?r"
    using assms
    by (simp add: send_command_and_wait_def begin_request_def send_command_to_node_def erase_pending_def Let_def
        deliver_command_reply_def case_prod_unfold split: if_split_asm option.split)
  moreover from calculation(1) obtain l where "map_of (conn_links (sv_cluster sv)) name = Some l"
    by (auto simp: send_on_link_def split: option.splits)
  ultimately show ?thesis
    using same_routing_sel(3) [OF same_routing_send, of name ?m "sv_cluster sv"]
    by (auto simp: request_sent_def send_on_link_def note_bus_message_sent_def upd_state_def update_conv Let_def
        case_prod_unfold)
qed

definition migrate_outcome :: "world \<Rightarrow> string \<Rightarrow> string \<Rightarrow> string list \<Rightarrow> server \<Rightarrow> server \<Rightarrow> bool" where
  "migrate_outcome w key target request sv sv' \<longleftrightarrow>
     same_view (w_env w) (sv_store sv) (sv_store sv') \<or>
     (\<exists>reply. w_reply w = Some reply \<and> take 3 reply = ''+OK'' \<and>
        request_sent target (sv_next_request_id sv) request (sv_cluster sv') \<and>
        live (w_env w) (sv_store sv') = (live (w_env w) (sv_store sv))(key := None))"

lemma migrate_reply_outcome:
  assumes "storage_ok (w_env w) (sv_store sv)"
  shows "same_view (w_env w) (sv_store sv) (sv_store (snd (migrate_reply w key r sv))) \<or>
    (\<exists>reply. r = Some reply \<and> take 3 reply = ''+OK'' \<and>
       sv_cluster (snd (migrate_reply w key r sv)) = sv_cluster sv \<and>
       live (w_env w) (sv_store (snd (migrate_reply w key r sv))) = (live (w_env w) (sv_store sv))(key := None))"
  using assms del_views(1) [of "sv_store sv" "w_env w" key] by (simp add: migrate_reply_def split: option.split)

lemma migrate_key_outcome:
  assumes "storage_ok (w_env w) (sv_store sv)" "live (w_env w) (sv_store sv) key \<noteq> None" "deadlines_ok (w_env w) (sv_store sv)"
    "map_of (sv_pending_replies sv) (sv_next_request_id sv) = None"
  shows "migrate_outcome w key (host @ '':'' @ to_string p)
    (migrate_args (w_fp w) key (wire_ttl (w_env w) (sv_store sv) key) ob replace) sv
    (snd (migrate_key w host p key timeout replace ob sv))"
proof -
  let ?name = "host @ '':'' @ to_string p"
  let ?args = "migrate_args (w_fp w) key (wire_ttl (w_env w) (sv_store sv) key) ob replace"
  let ?conn = "if is_node_connected ?name (sv_cluster sv) then (Inr True, sv_cluster sv)
    else connect_to_node w ?name host p (sv_cluster sv)"
  have fresh: "\<not> is_expired (env_now (w_env w)) key (expires (sv_store sv))"
    using assms(2) by (auto simp: live_def split: if_splits)
  note ttl = wire_ttl_get_ttl [OF assms(3,2), unfolded Let_def]
  obtain c cs where c: "?conn = (c, cs)"
    by fastforce
  let ?sv = "sv\<lparr>sv_cluster := cs\<rparr>"
  let ?r = "send_command_and_wait w ?name ?args timeout ?sv"
  have step: "snd (migrate_key w host p key timeout replace ob sv) =
      (case c of Inl exn \<Rightarrow> ?sv | Inr ok \<Rightarrow> if \<not> ok then ?sv else snd (migrate_reply w key (fst ?r) (snd ?r)))"
    unfolding migrate_key_def Let_def if_not_P [OF fresh] c ttl by (simp add: case_prod_unfold split: sum.split)
  have st: "sv_store (snd ?r) = sv_store sv"
    by (simp add: request_frame)
  have "migrate_outcome w key ?name ?args sv (snd (migrate_reply w key (fst ?r) (snd ?r)))"
  proof (cases "fst ?r")
    case None
    then show ?thesis
      using assms(1) st by (simp add: migrate_outcome_def migrate_reply_def)
  next
    case (Some reply)
    then have "w_reply w = Some reply"
      using request_reply [of ?sv w ?name ?args timeout] assms(4) by auto
    moreover have "request_sent ?name (sv_next_request_id sv) ?args (sv_cluster (snd ?r))"
      using request_goes_out [of w ?name ?args timeout ?sv] Some by simp
    ultimately show ?thesis
      using migrate_reply_outcome [of w "snd ?r" key "fst ?r"] assms(1) Some st by (auto simp: migrate_outcome_def)
  qed
  then show ?thesis
    using assms(1) unfolding step by (simp add: migrate_outcome_def split: sum.split)
qed

lemma handleMigrate_outcome:
  assumes "storage_ok (w_env w) (sv_store sv)" "live (w_env w) (sv_store sv) (args ! 4) = Some ob"
    "deadlines_ok (w_env w) (sv_store sv)" "map_of (sv_pending_replies sv) (sv_next_request_id sv) = None"
  shows "\<exists>p. migrate_outcome w (args ! 4) (args ! 2 @ '':'' @ to_string p) (migrate_args (w_fp w) (args ! 4)
    (wire_ttl (w_env w) (sv_store sv) (args ! 4)) ob (length args > 6 \<and> args ! 6 = ''REPLACE'')) sv (snd (handleMigrate w args sv))"
proof -
  obtain s where g: "storage_get (w_env w) (args ! 4) (sv_store sv) = (Some ob, s)" "same_view (w_env w) (sv_store sv) s"
    "expires s = expires (sv_store sv)"
    using assms(2) get_same_view [OF assms(1), of "args ! 4"]
    by (auto simp: storage_get_def live_def split: if_splits option.splits)
  let ?sv = "sv\<lparr>sv_store := s\<rparr>"
  have v: "live (w_env w) s = live (w_env w) (sv_store sv)" "wire_ttl (w_env w) s = wire_ttl (w_env w) (sv_store sv)"
    "storage_ok (w_env w) s"
    using g(2) by (simp_all add: same_view_def wire_ttl_def fun_eq_iff)
  have "migrate_outcome w (args ! 4) (args ! 2 @ '':'' @ to_string p) (migrate_args (w_fp w) (args ! 4)
      (wire_ttl (w_env w) (sv_store sv) (args ! 4)) ob replace) sv (snd (migrate_key w (args ! 2) p (args ! 4) timeout replace ob ?sv))"
    for p timeout replace
    using migrate_key_outcome [of w ?sv "args ! 4" "args ! 2" p ob replace timeout] assms(2,3,4) g(2) v
    by (auto simp: deadlines_ok_def g(3) migrate_outcome_def same_view_def)
  moreover have "migrate_outcome w k n r sv sv" for k n r
    using assms(1) by (simp add: migrate_outcome_def)
  ultimately show ?thesis
    by (simp add: handleMigrate_def g(1) Let_def split: option.split) blast
qed

section \<open>Concrete servers\<close>

definition demo_world :: world where
  "demo_world = \<lparr>w_env = demo_env, w_fp = bits_lib, w_zlib = demo_zlib, w_io = demo_io, w_steady = 0, w_status = [],
     w_rdb_path = ''dump.rdb'', w_max_lag = 0, w_resolve = (\<lambda>host. None), w_connect = (\<lambda>addr p. True), w_reply = None\<rparr>"

definition demo_server :: "ClusterServer \<Rightarrow> storage \<Rightarrow> server" where
  "demo_server cs s = \<lparr>sv_store = s, sv_rdb = RdbPersistence, sv_files = Map.empty,
     sv_stats = \<lparr>connections_accepted = 0, commands_processed = 0\<rparr>, sv_cluster = cs, sv_repl = new_ReplicationMgr ''id'',
     sv_next_request_id = 1, sv_pending_replies = [], sv_bus_links = [], sv_inbound_refused = 0\<rparr>"

lemma demo_server_sel [simp]:
  "sv_store (demo_server cs s) = s" "sv_cluster (demo_server cs s) = cs" "sv_repl (demo_server cs s) = new_ReplicationMgr ''id''"
  "sv_pending_replies (demo_server cs s) = []" "sv_bus_links (demo_server cs s) = []"
  by (simp_all add: demo_server_def)

lemma demo_world_sel [simp]:
  "w_env demo_world = demo_env" "w_fp demo_world = bits_lib" "w_reply demo_world = None"
  by (simp_all add: demo_world_def)

lemma demo_portable: "portable bits_lib (CacheObject_string ''v'')"
  by (simp add: portable_def object_ok_def CacheObject_string_def CacheObject_def zset_ok_def payload_ok_def elements_def
      element_count_def size_ok_def serialize_def append_record_def int64_arith to_dec.simps)

lemma demo_live: "live demo_env two_entries ''a'' = Some (CacheObject_string ''v'')" "live_ttl demo_env two_entries ''a'' = None"
  by (code_simp, simp add: live_ttl_def two_entries_def)


end
