(* ===== verification/CC_System.thy ===== *)
theory CC_System
  imports CC_Replication_Facts
begin

text \<open>
  Properties of the composed server: what every run keeps, what a replica allows its clients, what the
  replication stream and a full synchronisation carry to a replica, and what moving a key between nodes
  guarantees.
\<close>

section \<open>Runs of a server\<close>

text \<open>A run starts with an empty store and no inbound link.  Its events are a read on a client connection,
  a read on a bus link, an accepted bus connection, a beat of the heartbeat, the expiry sweep, and the two
  halves of a background save; the hash function of the store never changes.\<close>

inductive server_run :: "(string \<Rightarrow> nat) \<Rightarrow> server \<Rightarrow> bool" for h where
  start: "sv_store sv = set_max_entries n GlobalStorage \<Longrightarrow> sv_bus_links sv = [] \<Longrightarrow> server_run h sv"
| client: "server_run h sv \<Longrightarrow> hashed h ws \<Longrightarrow> server_run h (fst (conn_handle_read ws r (sv, c)))"
| bus: "server_run h sv \<Longrightarrow> hashed h ws \<Longrightarrow> link_readable ws r ref sv = Some sv' \<Longrightarrow> server_run h sv'"
| accept: "server_run h sv \<Longrightarrow> server_run h (handle_accept addr p sv)"
| beat: "server_run h sv \<Longrightarrow> server_run h (sv\<lparr>sv_cluster := heartbeat now (sv_cluster sv)\<rparr>)"
| sweep: "server_run h sv \<Longrightarrow> env_hash e = h \<Longrightarrow> server_run h (sv\<lparr>sv_store := snd (sweep e draws (sv_store sv))\<rparr>)"
| schedule: "server_run h sv \<Longrightarrow> do_save (sv_rdb sv) (sv_store sv) = (r, s) \<Longrightarrow>
    server_run h (sv\<lparr>sv_rdb := r, sv_store := s\<rparr>)"
| snapshot: "server_run h sv \<Longrightarrow> env_hash e = h \<Longrightarrow>
    snapshot_thread e z io path (sv_store sv) (sv_rdb sv) (sv_files sv) = (r, fs) \<Longrightarrow>
    server_run h (sv\<lparr>sv_rdb := r, sv_files := fs\<rparr>)"

lemma server_ok_store:
  "server_ok h n sv \<Longrightarrow> storage_ok (some_env h) s \<Longrightarrow> server_ok h n (sv\<lparr>sv_store := s\<rparr>)"
  "server_ok h n (sv\<lparr>sv_rdb := r\<rparr>) = server_ok h n sv" "server_ok h n (sv\<lparr>sv_files := fs\<rparr>) = server_ok h n sv"
  by (simp_all add: server_ok_def)

lemma run_server_ok: "server_run h sv \<Longrightarrow> server_ok h kMaxInboundLinks sv"
proof (induction rule: server_run.induct)
  case (start sv n)
  then show ?case
    by (simp add: server_ok_def storage_ok_def sized_def set_max_entries_def GlobalStorage_def kDefaultShards_def)
next
  case (client sv ws r c)
  then show ?case
    using conn_handle_read_ok [of h ws kMaxInboundLinks "(sv, c)" r] by simp
next
  case (bus sv ws r ref sv')
  then show ?case
    using link_readable_ok by blast
next
  case (accept sv addr p)
  then show ?case
    using handle_accept_ok by blast
next
  case (sweep sv e draws)
  have "storage_ok e (sv_store sv)"
    using sweep.IH sweep.hyps(2) storage_ok_some by (simp add: server_ok_def)
  then have "storage_ok (some_env h) (snd (sweep e draws (sv_store sv)))"
    using sweep_facts sweep.hyps(2) storage_ok_some by blast
  with sweep.IH show ?case
    by (rule server_ok_store)
next
  case (schedule sv r s)
  have "storage_ok (some_env h) s"
    using schedule consume_dirty_view [of "some_env h" "sv_store sv"]
    by (auto simp: do_save_def Let_def server_ok_def same_view_def split: prod.splits if_splits)
  with schedule.IH show ?case
    by (simp add: server_ok_def)
qed (simp_all add: server_ok_def)

lemma demo_deadlines: "expires two_entries = []"
  by (simp add: two_entries_def)

section \<open>Properties\<close>



text \<open>C5: on a replica no command of a client other than CLUSTER changes what any client can see.\<close>

theorem replica_read_only:
  assumes "storage_ok (w_env w) (sv_store sv)" "enabled (sv_cluster sv)" "isReplica (sv_cluster sv)"
    "map to_lower (args ! 0) \<noteq> ''cluster''"
  shows "live (w_env w) (sv_store (snd (dispatch w args sv))) = live (w_env w) (sv_store sv) \<and>
         live_ttl (w_env w) (sv_store (snd (dispatch w args sv))) = live_ttl (w_env w) (sv_store sv)"
proof (cases "create (map to_lower (args ! 0))")
  case (Some c)
  let ?sv = "record_command_processed sv"
  have st: "sv_store ?sv = sv_store sv"
    by (simp add: record_command_processed_def)
  have "same_view (w_env w) (sv_store sv) (sv_store (snd (c w args ?sv)))" if "\<not> is_write_command (map to_lower (args ! 0))"
    using create_observes [OF Some that assms(4), unfolded observes_def, rule_format, of w ?sv args] assms(1) by (simp add: st)
  then show ?thesis
    using assms(2,3) Some by (simp add: dispatch_def Let_def case_prod_unfold replicate_write_def same_view_def)
qed (simp add: dispatch_def Let_def)

theorem replica_read_only_witness:
  "live demo_env (sv_store (snd (dispatch demo_world [''SET'', ''a'', ''x''] (demo_server demo_cluster two_entries)))) ''a'' =
   Some (CacheObject_string ''v'')"
proof -
  have "isReplica demo_cluster" "enabled demo_cluster"
    using demo_cluster_facts(1-3) by (simp_all add: isReplica_def own_ok_def node_isReplica_def)
  moreover have "map to_lower (''SET'') \<noteq> ''cluster''"
    by code_simp
  ultimately show ?thesis
    using replica_read_only [of demo_world "demo_server demo_cluster two_entries" "[''SET'', ''a'', ''x'']"]
      two_entries_ok demo_live by simp
qed



text \<open>C3: a full synchronisation carries the key space to a new replica: the link to the replica gets one
  message per key in order, and a replica that starts empty and handles them has exactly the keys and values
  of the master, with the deadlines the master has by its own clock.\<close>

theorem full_sync_reproduces:
  fixes w :: world and e :: env
  defines "d \<equiv> env_now (w_env w) - env_now e"
  assumes "storage_ok e s" "positive_deadlines (expires s)" "g17_exact (w_fp w)"
    "clock_ok (env_now e)" "clock_ok (env_now (w_env w))"
    "list_all (wire_kv (w_fp w) (env_now e) d) (get_all_objects_with_ttl e s)"
    "room_for (length (get_all_objects_with_ttl e s)) (set_max_entries n GlobalStorage)"
    "sv_store replica = set_max_entries n GlobalStorage" "map_of (conn_links cs) name = Some l"
  shows "let lines = sync_lines e (w_fp w) (get_all_objects_with_ttl e s);
      replica' = foldl (\<lambda>sv line. handle_rep_data w sender [line] ref sv) replica lines in
    map_of (conn_links (sync_snapshot e (w_fp w) name (get_all_objects_with_ttl e s) cs)) name =
      Some (send_all (getMyNodeName cs) (map (\<lambda>line. typed_msg kRepData [line]) lines) l) \<and>
    live (w_env w) (sv_store replica') k = live e s k \<and>
    live_ttl (w_env w) (sv_store replica') k = map_option (\<lambda>t. t + d) (live_ttl e s k)"
proof -
  let ?kvs = "get_all_objects_with_ttl e s" and ?st = "set_max_entries n GlobalStorage"
  have st: "sized ?st" "live (w_env w) ?st k = None"
    by (simp_all add: sized_def set_max_entries_def GlobalStorage_def live_def find_entry_def shard_of_def)
  have kvs: "list_all (loadable (w_env w)) (map (moved d) ?kvs)" "distinct (map kv_key (map (moved d) ?kvs))"
    using assms(7) snapshot_keys [OF assms(2)] by (auto simp: list_all_iff loadable_def moved_def wire_kv_def d_def comp_def)
  have key: "by_key (map (moved d) kvs) k = map_option (moved d) (by_key kvs k)" for kvs
    by (induction kvs) (auto simp: moved_def)
  have rec: "sv_store (foldl (\<lambda>sv line. handle_rep_data w sender [line] ref sv) replica (sync_lines e (w_fp w) ?kvs)) =
      foldl (load_one (w_env w)) ?st (map (moved d) ?kvs)"
    using sync_received [OF assms(7) [unfolded d_def] assms(4-6), of sender ref replica] assms(9) by (simp add: d_def)
  have room: "room_for (length (map (moved d) ?kvs)) ?st"
    using assms(8) by simp
  have live_positive: "0 < t \<and> 0 < t + d" if "live_ttl e s k = Some t" for t
    using that assms(5,6) by (auto simp: live_ttl_def live_def is_expired_def clock_ok_def d_def split: if_splits)
  have "live (w_env w) (foldl (load_one (w_env w)) ?st (map (moved d) ?kvs)) k = live e s k \<and>
      live_ttl (w_env w) (foldl (load_one (w_env w)) ?st (map (moved d) ?kvs)) k = map_option (\<lambda>t. t + d) (live_ttl e s k)"
    using load_all_views [OF st(1) room assms(6) kvs, of k, unfolded key] by_key_snapshot [OF assms(2,3), of k] st(2) live_None_ttl [of e s k]
      live_positive
    by (cases "live e s k"; cases "live_ttl e s k") (auto simp: moved_def deadline_of_def)
  then show ?thesis
    using sync_sent [OF assms(10)] by (simp add: Let_def rec)
qed

theorem full_sync_reproduces_witness:
  "let w = demo_world\<lparr>w_env := demo_env\<lparr>env_now := 5000\<rparr>\<rparr>; lines = sync_lines demo_env bits_lib demo_kvs;
       replica = demo_server (init True ''b'' 2) (set_max_entries 100 GlobalStorage) in
   live (demo_env\<lparr>env_now := 5000\<rparr>) (sv_store (foldl (\<lambda>sv line. handle_rep_data w ''a:1'' [line] (Inbound ''a:1'') sv) replica lines)) ''a'' =
   Some (CacheObject_string ''v'')"
proof -
  let ?w = "demo_world\<lparr>w_env := demo_env\<lparr>env_now := 5000\<rparr>\<rparr>"
  let ?cs = "(init True ''a'' 1)\<lparr>conn_links := [(''b:2'', new_ClusterLink ''b:2'' ''b'' 10002)]\<rparr>"
  have "list_all (wire_kv bits_lib 1000 4000) demo_kvs"
    using demo_portable by (simp add: demo_kvs_def wire_kv_def int64_arith)
  then show ?thesis
    using full_sync_reproduces [where e = demo_env and s = two_entries and w = ?w and n = 100 and cs = ?cs and name = "''b:2''"
        and replica = "demo_server (init True ''b'' 2) (set_max_entries 100 GlobalStorage)" and k = "''a''" and sender = "''a:1''"
        and ref = "Inbound ''a:1''" and l = "new_ClusterLink ''b:2'' ''b'' 10002"] two_entries_ok bits_lib_exact demo_room demo_live
    by (simp add: demo_snapshot demo_deadlines Let_def positive_deadlines_def clock_ok_def int64_arith)
qed



section \<open>Behaviour worth knowing\<close>

text \<open>While a slot is migrating nobody serves its keys: the source answers ASK for every key, and the target,
  which does not own the slot yet, sends the client back to the source.\<close>

theorem migrating_slot_unserved:
  assumes "isSlotMigrating (cstate src) slot" "getNode (cstate src) (mig_target_node (getSlotMigrationInfo (cstate src) slot)) = Some t"
    "getNodeForSlot (cstate tgt) slot = Some owner" "n_name (node_at tgt owner) \<noteq> getMyNodeName tgt"
    "\<not> isSlotMigrating (cstate tgt) slot" "slot = int (keyToSlot key)"
  shows "checkRedirect src key \<noteq> [] \<and> checkRedirect tgt key \<noteq> []"
  using assms by (simp add: checkRedirect_def Let_def encode_error_def)

text \<open>The reply to a protocol error is never sent: it is queued, and the connection is closed before the
  socket becomes writable.\<close>

theorem protocol_error_reply_lost:
  assumes "fst (has_protocol_error ((conn_parser c)\<lparr>input := input (conn_parser c) @ buf\<rparr>))" "conn_output c = []"
  shows "fst (conn_handle_write r (snd (conn_received ws buf (sv, c)))) = []"
  using assms by (simp add: conn_received_def conn_handle_write_def conn_close_def Let_def case_prod_unfold
      split: bool.split)

text \<open>A PONG from a node whose name has no port number throws in the connected callback, so that the rest of
  the read is given up.\<close>

theorem pong_without_port_throws:
  assumes "c_str (hdr_sender_name (msg_header msg)) = ''10.0.0.9:x''" "hdr_type (msg_header msg) = msg_type kPong"
    "link_at sv ref = Some l" "link_ip l = ''10.0.0.9''" "getMyNodeName (sv_cluster sv) \<noteq> ''10.0.0.9:x''"
  shows "handle_link_msg w msg ref sv = None"
proof -
  have "bus_sender_identity_accepted ''10.0.0.9'' ''10.0.0.9'' known kControl" for known
    by (cases known) code_simp+
  moreover have "stoi ''x'' = None"
    by code_simp
  ultimately show ?thesis
    using assms by (simp add: handle_link_msg_def handle_typed_msg_def node_connected_callback_def Let_def)
qed

text \<open>SPOP chooses at random, and its command is replicated verbatim: with another draw the replica removes
  another member.\<close>

theorem spop_diverges:
  "let ob = CacheObject\<lparr>otype := SET, set_val := [''x'', ''y'']\<rparr> in
   set_val (fst (snd (spop_fn 0 ob))) = [''y''] \<and> set_val (fst (snd (spop_fn 1 ob))) = [''x'']"
  by (simp add: spop_fn_def set_members_def set_remove_def CacheObject_def Let_def)

end
