(* ===== verification/CC_Pool.thy ===== *)
theory CC_Pool
  imports CC_Prelude "HOL-Library.Monad_Syntax"
begin

text \<open>
  The memory pool of \<^verbatim>\<open>src/src/memorypool\<close>: size classes, the free list of a thread, the list of spans, and
  the three layers page cache, central cache and thread cache.  Free lists are intrusive: the first word of a
  free block holds the address of the next one, so the model has the memory, a function from addresses to
  words; address 0 is the null pointer.
\<close>

section \<open>Size classes\<close>

definition kSizeClasses :: "nat list" where
  "kSizeClasses = [8, 16, 32, 48, 64, 96, 128, 192, 256, 384, 512, 768, 1024, 1536, 2048, 3072, 4096, 6144, 8192, 12288,
     16384, 24576, 32768, 49152, 65536, 98304, 131072, 196608, 262144]"

definition kNumClasses :: nat where
  "kNumClasses = 29"

text \<open>The search loop from class \<open>i\<close> on.\<close>

fun find_class :: "nat \<Rightarrow> nat list \<Rightarrow> nat \<Rightarrow> nat" where
  "find_class i [] n = kNumClasses - 1"
| "find_class i (c # cs) n = (if c \<ge> n then i else find_class (Suc i) cs n)"

text \<open>\<^term>\<open>None\<close> is the result \<open>-1\<close> for a size above the largest class.\<close>

definition get_index :: "nat \<Rightarrow> nat option" where
  "get_index n = (if n > kSizeClasses ! (kNumClasses - 1) then None else Some (find_class 0 kSizeClasses n))"

definition get_size :: "nat \<Rightarrow> nat" where
  "get_size index = kSizeClasses ! index"

definition round_up :: "nat \<Rightarrow> nat" where
  "round_up n =
     (if n > kSizeClasses ! (kNumClasses - 1) then n else case get_index n of None \<Rightarrow> n | Some i \<Rightarrow> kSizeClasses ! i)"

section \<open>Free lists\<close>

type_synonym memory = "nat \<Rightarrow> nat"

record FreeList =
  fl_head :: nat
  fl_size :: nat

definition new_FreeList :: FreeList where
  "new_FreeList = \<lparr>fl_head = 0, fl_size = 0\<rparr>"

definition fl_push :: "nat \<Rightarrow> memory \<times> FreeList \<Rightarrow> memory \<times> FreeList" where
  "fl_push obj mf =
     (case mf of (mem, fl) \<Rightarrow> (mem(obj := fl_head fl), \<lparr>fl_head = obj, fl_size = fl_size fl + 1\<rparr>))"

definition fl_pop :: "memory \<Rightarrow> FreeList \<Rightarrow> nat \<times> FreeList" where
  "fl_pop mem fl =
     (if fl_head fl = 0 then (0, fl) else (fl_head fl, \<lparr>fl_head = mem (fl_head fl), fl_size = fl_size fl - 1\<rparr>))"

primrec pop_batch :: "nat \<Rightarrow> memory \<Rightarrow> FreeList \<Rightarrow> nat list \<times> FreeList" where
  "pop_batch 0 mem fl = ([], fl)"
| "pop_batch (Suc n) mem fl =
     (if fl_head fl = 0 then ([], fl)
      else case fl_pop mem fl of (obj, fl) \<Rightarrow> (case pop_batch n mem fl of (objs, fl) \<Rightarrow> (obj # objs, fl)))"

definition push_batch :: "nat list \<Rightarrow> memory \<times> FreeList \<Rightarrow> memory \<times> FreeList" where
  "push_batch objs mf = foldl (\<lambda>mf obj. fl_push obj mf) mf objs"

section \<open>Spans and their lists\<close>

record Span =
  page_id :: nat
  num_pages :: nat
  size_class :: nat
  free_list :: nat
  free_count :: nat
  total_objects :: nat
  sp_next :: nat
  sp_prev :: nat

definition new_Span :: Span where
  "new_Span = \<lparr>page_id = 0, num_pages = 0, size_class = 0, free_list = 0, free_count = 0, total_objects = 0,
     sp_next = 0, sp_prev = 0\<rparr>"

type_synonym span_heap = "nat \<Rightarrow> Span"

definition set_next :: "nat \<Rightarrow> nat \<Rightarrow> span_heap \<Rightarrow> span_heap" where
  "set_next a v hp = hp(a := (hp a)\<lparr>sp_next := v\<rparr>)"

definition set_prev :: "nat \<Rightarrow> nat \<Rightarrow> span_heap \<Rightarrow> span_heap" where
  "set_prev a v hp = hp(a := (hp a)\<lparr>sp_prev := v\<rparr>)"

text \<open>The doubly linked ring with a sentinel at \<open>h\<close>.\<close>

definition SpanList :: "nat \<Rightarrow> span_heap \<Rightarrow> span_heap" where
  "SpanList h hp = set_prev h h (set_next h h (hp(h := new_Span)))"

definition push_front :: "nat \<Rightarrow> nat \<Rightarrow> span_heap \<Rightarrow> span_heap" where
  "push_front h s hp =
     (let hp = set_next s (sp_next (hp h)) hp;
          hp = set_prev s h hp;
          hp = set_prev (sp_next (hp h)) s hp
      in set_next h s hp)"

definition push_back :: "nat \<Rightarrow> nat \<Rightarrow> span_heap \<Rightarrow> span_heap" where
  "push_back h s hp =
     (let hp = set_next s h hp;
          hp = set_prev s (sp_prev (hp h)) hp;
          hp = set_next (sp_prev (hp h)) s hp
      in set_prev h s hp)"

definition span_remove :: "nat \<Rightarrow> span_heap \<Rightarrow> span_heap" where
  "span_remove s hp =
     (let hp = set_next (sp_prev (hp s)) (sp_next (hp s)) hp;
          hp = set_prev (sp_next (hp s)) (sp_prev (hp s)) hp
      in set_prev s 0 (set_next s 0 hp))"

definition span_empty :: "nat \<Rightarrow> span_heap \<Rightarrow> bool" where
  "span_empty h hp \<longleftrightarrow> sp_next (hp h) = h"

definition span_front :: "nat \<Rightarrow> span_heap \<Rightarrow> nat" where
  "span_front h hp = sp_next (hp h)"

definition span_back :: "nat \<Rightarrow> span_heap \<Rightarrow> nat" where
  "span_back h hp = sp_prev (hp h)"

text \<open>The walk of an iterator from \<open>cur\<close> to the sentinel.\<close>

partial_function (option) span_walk :: "nat \<Rightarrow> span_heap \<Rightarrow> nat \<Rightarrow> nat list option" where
  "span_walk h hp cur =
     (if cur = h then Some []
      else do { rest \<leftarrow> span_walk h hp (sp_next (hp cur)); Some (cur # rest) })"

definition span_list_size :: "nat \<Rightarrow> span_heap \<Rightarrow> nat option" where
  "span_list_size h hp = map_option length (span_walk h hp (sp_next (hp h)))"

section \<open>The page cache\<close>

text \<open>The operating system: its page size, what \<^verbatim>\<open>mmap\<close> answers to a request for some bytes after the
  regions it has handed out before, and what \<^verbatim>\<open>malloc\<close> returns.\<close>

record os =
  page_size :: nat
  os_mmap :: "(nat \<times> nat) list \<Rightarrow> nat \<Rightarrow> nat option"
  os_malloc :: "nat \<Rightarrow> nat"

text \<open>A list of spans is the list of its nodes from front to back, as the ring above implements it; the map
  from page counts to lists is ordered by its keys.  \<open>mapped\<close> records the regions the system has given, as
  pages.\<close>

record page_cache =
  spans :: span_heap
  next_span :: nat
  page_span_map :: "nat \<rightharpoonup> nat"
  free_span_lists :: "(nat \<times> nat list) list"
  mapped :: "(nat \<times> nat) list"

definition new_page_cache :: page_cache where
  "new_page_cache = \<lparr>spans = (\<lambda>s. new_Span), next_span = 1, page_span_map = Map.empty, free_span_lists = [], mapped = []\<rparr>"

text \<open>\<^verbatim>\<open>operator[]\<close> of the ordered map followed by a change of the list.\<close>

fun upd_list :: "nat \<Rightarrow> (nat list \<Rightarrow> nat list) \<Rightarrow> (nat \<times> nat list) list \<Rightarrow> (nat \<times> nat list) list" where
  "upd_list n f [] = [(n, f [])]"
| "upd_list n f ((k, l) # kls) =
     (if n = k then (k, f l) # kls else if n < k then (n, f []) # (k, l) # kls else (k, l) # upd_list n f kls)"

definition erase_pages :: "nat \<Rightarrow> nat \<Rightarrow> (nat \<rightharpoonup> nat) \<Rightarrow> nat \<rightharpoonup> nat" where
  "erase_pages p n m = foldl (\<lambda>m i. m(p + i := None)) m [0..<n]"

definition map_pages :: "nat \<Rightarrow> nat \<Rightarrow> nat \<Rightarrow> (nat \<rightharpoonup> nat) \<Rightarrow> nat \<rightharpoonup> nat" where
  "map_pages p n s m = foldl (\<lambda>m i. m(p + i \<mapsto> s)) m [0..<n]"

definition take_free :: "nat \<Rightarrow> page_cache \<Rightarrow> nat \<Rightarrow> page_cache" where
  "take_free s pc k = pc\<lparr>free_span_lists := upd_list k (\<lambda>l. remove1 s l) (free_span_lists pc)\<rparr>"

text \<open>Putting a span into its list and its pages into the map.\<close>

definition add_free :: "nat \<Rightarrow> page_cache \<Rightarrow> page_cache" where
  "add_free s pc =
     (let sp = spans pc s in
      pc\<lparr>free_span_lists := upd_list (num_pages sp) ((#) s) (free_span_lists pc),
         page_span_map := map_pages (page_id sp) (num_pages sp) s (page_span_map pc)\<rparr>)"

text \<open>Splitting the span \<open>b\<close>, which has been taken from its list: the pages behind the first ones become a
  span of their own.\<close>

definition split_span :: "nat \<Rightarrow> nat \<Rightarrow> page_cache \<Rightarrow> page_cache" where
  "split_span n b pc =
     (let big = spans pc b; remaining = num_pages big - n; r = next_span pc;
          pc = (if remaining > 0
                then add_free r (pc\<lparr>spans := (spans pc)(r := new_Span\<lparr>page_id := page_id big + n, num_pages := remaining\<rparr>),
                                    next_span := r + 1\<rparr>)
                else pc)
      in pc\<lparr>spans := (spans pc)(b := big\<lparr>num_pages := n\<rparr>),
            page_span_map := erase_pages (page_id big) n (page_span_map pc)\<rparr>)"

definition allocate_span :: "os \<Rightarrow> nat \<Rightarrow> page_cache \<Rightarrow> nat option \<times> page_cache" where
  "allocate_span sys n pc =
     (case map_of (free_span_lists pc) n of
        Some (s # ss) \<Rightarrow>
          let pc = take_free s pc n in
          (Some s, pc\<lparr>page_span_map := erase_pages (page_id (spans pc s)) (num_pages (spans pc s)) (page_span_map pc)\<rparr>)
      | _ \<Rightarrow>
          (case find (\<lambda>(k, l). n + 1 \<le> k \<and> l \<noteq> []) (free_span_lists pc) of
             Some (k, b # bs) \<Rightarrow> (Some b, split_span n b (take_free b pc k))
           | _ \<Rightarrow>
               (case os_mmap sys (mapped pc) (n * page_size sys) of
                  None \<Rightarrow> (None, pc)
                | Some ptr \<Rightarrow>
                    let s = next_span pc; p = ptr div page_size sys in
                    (Some s, pc\<lparr>spans := (spans pc)(s := new_Span\<lparr>page_id := p, num_pages := n\<rparr>), next_span := s + 1,
                                mapped := (p, n) # mapped pc\<rparr>))))"

text \<open>Page numbers are 64-bit: the page before page 0 is the last one.\<close>

definition prev_page :: "nat \<Rightarrow> nat" where
  "prev_page p = (if p = 0 then 2 ^ 64 - 1 else p - 1)"

text \<open>Taking the neighbour \<open>t\<close> out of the map and its list, before the span absorbs it.\<close>

definition absorb :: "nat \<Rightarrow> page_cache \<Rightarrow> page_cache" where
  "absorb t pc =
     (let sp = spans pc t in
      take_free t (pc\<lparr>page_span_map := erase_pages (page_id sp) (num_pages sp) (page_span_map pc)\<rparr>) (num_pages sp))"

partial_function (option) coalesce_prev :: "nat \<Rightarrow> page_cache \<Rightarrow> page_cache option" where
  "coalesce_prev s pc =
     (case page_span_map pc (prev_page (page_id (spans pc s))) of
        None \<Rightarrow> Some pc
      | Some t \<Rightarrow>
          let sp = spans pc s; tp = spans pc t in
          if page_id tp + num_pages tp \<noteq> page_id sp then Some pc
          else coalesce_prev s (let pc = absorb t pc in
                 pc\<lparr>spans := (spans pc)(s := sp\<lparr>page_id := page_id tp, num_pages := num_pages sp + num_pages tp\<rparr>)\<rparr>))"

partial_function (option) coalesce_next :: "nat \<Rightarrow> page_cache \<Rightarrow> page_cache option" where
  "coalesce_next s pc =
     (case page_span_map pc (page_id (spans pc s) + num_pages (spans pc s)) of
        None \<Rightarrow> Some pc
      | Some t \<Rightarrow>
          let sp = spans pc s; tp = spans pc t in
          if page_id sp + num_pages sp \<noteq> page_id tp then Some pc
          else coalesce_next s (let pc = absorb t pc in
                 pc\<lparr>spans := (spans pc)(s := sp\<lparr>num_pages := num_pages sp + num_pages tp\<rparr>)\<rparr>))"

definition coalesce_span :: "nat \<Rightarrow> page_cache \<Rightarrow> page_cache option" where
  "coalesce_span s pc = do { pc \<leftarrow> coalesce_prev s pc; coalesce_next s pc }"

definition free_span :: "nat \<Rightarrow> page_cache \<Rightarrow> page_cache option" where
  "free_span s pc = do { pc \<leftarrow> coalesce_span s pc; Some (add_free s pc) }"

section \<open>The central cache\<close>

text \<open>The state of the pool: the memory, the page cache, the spans of each size class, and the free lists of
  each thread.\<close>

record pool =
  mem :: memory
  pages :: page_cache
  span_lists :: "nat \<Rightarrow> nat list"
  free_lists :: "nat \<Rightarrow> nat \<Rightarrow> FreeList"

definition new_pool :: pool where
  "new_pool = \<lparr>mem = (\<lambda>a. 0), pages = new_page_cache, span_lists = (\<lambda>c. []), free_lists = (\<lambda>t c. new_FreeList)\<rparr>"

definition upd_span :: "nat \<Rightarrow> (Span \<Rightarrow> Span) \<Rightarrow> pool \<Rightarrow> pool" where
  "upd_span s f st = st\<lparr>pages := (pages st)\<lparr>spans := (spans (pages st))(s := f (spans (pages st) s))\<rparr>\<rparr>"

text \<open>The loop that cuts a span into blocks; the result is the memory, the head of the list and the count.
  A class size is never zero.\<close>

function carve :: "nat \<Rightarrow> nat \<Rightarrow> nat \<Rightarrow> nat \<Rightarrow> memory \<times> nat \<times> nat \<Rightarrow> memory \<times> nat \<times> nat" where
  "carve cs room ptr offset st =
     (if 0 < cs \<and> offset + cs \<le> room
      then carve cs room ptr (offset + cs)
             (case st of (m, first, count) \<Rightarrow> (m(ptr + offset := first), ptr + offset, count + 1))
      else st)"
  by pat_completeness auto

termination carve
  by (relation "measure (\<lambda>(cs, room, ptr, offset, st). room - offset)") auto

declare carve.simps [simp del]

definition span_pages :: "os \<Rightarrow> nat \<Rightarrow> nat" where
  "span_pages sys c =
     (let n = (get_size c * 256 + page_size sys - 1) div page_size sys in if n < 1 then 1 else n)"

definition fetch_from_page_cache :: "os \<Rightarrow> nat \<Rightarrow> pool \<Rightarrow> nat option \<times> pool" where
  "fetch_from_page_cache sys c st =
     (case allocate_span sys (span_pages sys c) (pages st) of
        (None, pc) \<Rightarrow> (None, st\<lparr>pages := pc\<rparr>)
      | (Some s, pc) \<Rightarrow>
          let sp = spans pc s in
          (case carve (get_size c) (num_pages sp * page_size sys) (page_id sp * page_size sys) 0 (mem st, 0, 0) of
             (m, first, count) \<Rightarrow>
               (Some s, upd_span s (\<lambda>sp. sp\<lparr>size_class := c, free_list := first, free_count := count, total_objects := count\<rparr>)
                          (st\<lparr>mem := m, pages := pc\<rparr>))))"

definition take_object :: "nat \<Rightarrow> pool \<Rightarrow> nat \<times> pool" where
  "take_object s st =
     (let obj = free_list (spans (pages st) s) in
      (obj, upd_span s (\<lambda>sp. sp\<lparr>free_list := mem st obj, free_count := free_count sp - 1\<rparr>) st))"

text \<open>The null pointer means that the system has no more memory.\<close>

definition central_allocate :: "os \<Rightarrow> nat \<Rightarrow> pool \<Rightarrow> nat \<times> pool" where
  "central_allocate sys c st =
     (case find (\<lambda>s. free_count (spans (pages st) s) > 0) (span_lists st c) of
        Some s \<Rightarrow> take_object s st
      | None \<Rightarrow>
          (case fetch_from_page_cache sys c st of
             (None, st) \<Rightarrow> (0, st)
           | (Some s, st) \<Rightarrow> take_object s (st\<lparr>span_lists := (span_lists st)(c := s # span_lists st c)\<rparr>)))"

definition central_deallocate :: "os \<Rightarrow> nat \<Rightarrow> nat \<Rightarrow> pool \<Rightarrow> pool option" where
  "central_deallocate sys obj c st =
     (let p = obj div page_size sys; hp = spans (pages st) in
      case find (\<lambda>s. page_id (hp s) \<le> p \<and> page_id (hp s) + num_pages (hp s) > p) (span_lists st c) of
        None \<Rightarrow> Some st
      | Some s \<Rightarrow>
          let st = upd_span s (\<lambda>sp. sp\<lparr>free_list := obj, free_count := free_count sp + 1\<rparr>)
                     (st\<lparr>mem := (mem st)(obj := free_list (hp s))\<rparr>) in
          if free_count (spans (pages st) s) = total_objects (spans (pages st) s)
          then let st = upd_span s (\<lambda>sp. sp\<lparr>free_list := 0, free_count := 0, total_objects := 0\<rparr>)
                          (st\<lparr>span_lists := (span_lists st)(c := remove1 s (span_lists st c))\<rparr>)
               in map_option (\<lambda>pc. st\<lparr>pages := pc\<rparr>) (free_span s (pages st))
          else Some st)"

section \<open>The thread cache and the pool\<close>

definition thread_push :: "nat \<Rightarrow> nat \<Rightarrow> nat \<Rightarrow> pool \<Rightarrow> pool" where
  "thread_push t c obj st =
     (case fl_push obj (mem st, free_lists st t c) of
        (m, fl) \<Rightarrow> st\<lparr>mem := m, free_lists := (free_lists st)(t := (free_lists st t)(c := fl))\<rparr>)"

definition thread_pop :: "nat \<Rightarrow> nat \<Rightarrow> pool \<Rightarrow> nat \<times> pool" where
  "thread_pop t c st =
     (case fl_pop (mem st) (free_lists st t c) of
        (obj, fl) \<Rightarrow> (obj, st\<lparr>free_lists := (free_lists st)(t := (free_lists st t)(c := fl))\<rparr>))"

text \<open>Up to \<open>n\<close> objects of the central cache.\<close>

primrec gather :: "os \<Rightarrow> nat \<Rightarrow> nat \<Rightarrow> pool \<Rightarrow> nat list \<times> pool" where
  "gather sys c 0 st = ([], st)"
| "gather sys c (Suc n) st =
     (case central_allocate sys c st of
        (obj, st) \<Rightarrow>
          if obj = 0 then ([], st) else case gather sys c n st of (objs, st) \<Rightarrow> (obj # objs, st))"

definition fetch_from_central :: "os \<Rightarrow> nat \<Rightarrow> nat \<Rightarrow> pool \<Rightarrow> pool" where
  "fetch_from_central sys t c st =
     (case gather sys c 256 st of (objs, st) \<Rightarrow> foldl (\<lambda>st obj. thread_push t c obj st) st objs)"

fun give_back :: "os \<Rightarrow> nat list \<Rightarrow> nat \<Rightarrow> pool \<Rightarrow> pool option" where
  "give_back sys [] c st = Some st"
| "give_back sys (obj # objs) c st = do { st \<leftarrow> central_deallocate sys obj c st; give_back sys objs c st }"

partial_function (option) return_batches :: "os \<Rightarrow> nat \<Rightarrow> nat \<Rightarrow> nat \<Rightarrow> pool \<Rightarrow> pool option" where
  "return_batches sys t c target st =
     (if target = 0 then Some st
      else case pop_batch (min target 256) (mem st) (free_lists st t c) of
        (objs, fl) \<Rightarrow>
          if objs = [] then Some st
          else do {
            st \<leftarrow> give_back sys objs c (st\<lparr>free_lists := (free_lists st)(t := (free_lists st t)(c := fl))\<rparr>);
            return_batches sys t c (target - length objs) st })"

definition return_to_central :: "os \<Rightarrow> nat \<Rightarrow> nat \<Rightarrow> bool \<Rightarrow> pool \<Rightarrow> pool option" where
  "return_to_central sys t c return_all st =
     (let n = fl_size (free_lists st t c) in return_batches sys t c (if return_all then n else n div 2) st)"

definition thread_allocate :: "os \<Rightarrow> nat \<Rightarrow> nat \<Rightarrow> pool \<Rightarrow> nat \<times> pool" where
  "thread_allocate sys t n st =
     (case get_index n of
        None \<Rightarrow> (os_malloc sys n, st)
      | Some c \<Rightarrow>
          if fl_head (free_lists st t c) \<noteq> 0 then thread_pop t c st
          else let st = fetch_from_central sys t c st in
            if fl_head (free_lists st t c) \<noteq> 0 then thread_pop t c st else (0, st))"

definition thread_deallocate :: "os \<Rightarrow> nat \<Rightarrow> nat \<Rightarrow> nat \<Rightarrow> pool \<Rightarrow> pool option" where
  "thread_deallocate sys t obj n st =
     (case get_index n of
        None \<Rightarrow> Some st
      | Some c \<Rightarrow>
          let st = thread_push t c obj st in
          if fl_size (free_lists st t c) > 32 then return_to_central sys t c False st else Some st)"

text \<open>The destructor of a thread cache, when its thread ends: all classes from \<open>c\<close> on.\<close>

fun return_classes :: "os \<Rightarrow> nat \<Rightarrow> nat list \<Rightarrow> pool \<Rightarrow> pool option" where
  "return_classes sys t [] st = Some st"
| "return_classes sys t (c # cs) st =
     (if fl_head (free_lists st t c) = 0 then return_classes sys t cs st
      else do { st \<leftarrow> return_to_central sys t c True st; return_classes sys t cs st })"

definition thread_exit :: "os \<Rightarrow> nat \<Rightarrow> pool \<Rightarrow> pool option" where
  "thread_exit sys t st = return_classes sys t [0..<kNumClasses] st"

definition cached_object_count :: "nat \<Rightarrow> nat \<Rightarrow> pool \<Rightarrow> nat" where
  "cached_object_count t c st = (if c \<ge> kNumClasses then 0 else fl_size (free_lists st t c))"

definition pool_allocate :: "os \<Rightarrow> nat \<Rightarrow> nat \<Rightarrow> pool \<Rightarrow> nat \<times> pool" where
  "pool_allocate sys t n st =
     (if n > kSizeClasses ! (kNumClasses - 1) then (os_malloc sys n, st)
      else case get_index n of None \<Rightarrow> (os_malloc sys n, st) | Some c \<Rightarrow> thread_allocate sys t n st)"

definition pool_deallocate :: "os \<Rightarrow> nat \<Rightarrow> nat \<Rightarrow> nat \<Rightarrow> pool \<Rightarrow> pool option" where
  "pool_deallocate sys t ptr n st =
     (if n > kSizeClasses ! (kNumClasses - 1) then Some st
      else case get_index n of None \<Rightarrow> Some st | Some c \<Rightarrow> thread_deallocate sys t ptr n st)"

end
