(* ===== verification/CC_Pool_Lists.thy ===== *)
theory CC_Pool_Lists
  imports CC_Pool
begin

text \<open>
  The lists of the memory pool: the size classes round up as little as they can, a free list is a stack whose
  links are kept in the free blocks themselves, and a list of spans is a doubly linked ring.
\<close>

section \<open>Size classes\<close>

lemma classes_shape [simp]: "length kSizeClasses = kNumClasses" "sorted kSizeClasses" "distinct kSizeClasses"
  by (simp_all add: kSizeClasses_def kNumClasses_def)

lemma get_size_pos [simp]: "c < kNumClasses \<Longrightarrow> 0 < get_size c"
proof -
  assume "c < kNumClasses"
  then have "get_size c \<in> set kSizeClasses"
    by (simp add: get_size_def)
  then show ?thesis
    by (auto simp: kSizeClasses_def)
qed

lemma find_class_spec:
  assumes "c \<in> set cs" "n \<le> c" "sorted cs"
  shows "\<exists>j < length cs. find_class i cs n = i + j \<and> n \<le> cs ! j \<and> (\<forall>k < j. cs ! k < n)"
  using assms
proof (induction cs arbitrary: i)
  case (Cons x cs)
  show ?case
  proof (cases "n \<le> x")
    case False
    then have "c \<in> set cs" "sorted cs"
      using Cons.prems by auto
    from Cons.IH [OF this(1) Cons.prems(2) this(2), of "Suc i"] obtain j where
      "j < length cs" "find_class (Suc i) cs n = Suc i + j" "n \<le> cs ! j" "\<forall>k < j. cs ! k < n"
      by blast
    then show ?thesis
      using False by (intro exI [of _ "Suc j"]) (auto simp: less_Suc_eq_0_disj)
  qed auto
qed simp

lemma get_index_spec:
  assumes "get_index n = Some c"
  shows "c < kNumClasses" "n \<le> get_size c" "k < c \<Longrightarrow> get_size k < n"
proof -
  have "262144 \<in> set kSizeClasses" "n \<le> 262144"
    using assms by (auto simp: kSizeClasses_def get_index_def kNumClasses_def split: if_splits)
  from find_class_spec [OF this classes_shape(2), of 0]
  show "c < kNumClasses" "n \<le> get_size c" "k < c \<Longrightarrow> get_size k < n"
    using assms by (auto simp: get_index_def get_size_def split: if_splits)
qed

section \<open>Intrusive stacks\<close>

fun chain :: "memory \<Rightarrow> nat \<Rightarrow> nat list \<Rightarrow> bool" where
  "chain m a [] \<longleftrightarrow> a = 0"
| "chain m a (x # xs) \<longleftrightarrow> a = x \<and> x \<noteq> 0 \<and> chain m (m x) xs"

lemma chain_upd [simp]: "u \<notin> set xs \<Longrightarrow> chain (m(u := v)) a xs = chain m a xs"
  by (induction xs arbitrary: a) auto

lemma chain_cong: "(\<And>x. x \<in> set xs \<Longrightarrow> m' x = m x) \<Longrightarrow> chain m' a xs = chain m a xs"
  by (induction xs arbitrary: a) auto

lemma chain_push: "chain m a xs \<Longrightarrow> x \<noteq> 0 \<Longrightarrow> x \<notin> set xs \<Longrightarrow> chain (m(x := a)) x (x # xs)"
  by simp

lemma chain_head: "chain m a xs \<Longrightarrow> a = 0 \<longleftrightarrow> xs = []"
  by (cases xs) auto

definition stack :: "memory \<Rightarrow> FreeList \<Rightarrow> nat list \<Rightarrow> bool" where
  "stack m fl xs \<longleftrightarrow> chain m (fl_head fl) xs \<and> distinct xs \<and> fl_size fl = length xs"

lemma stack_push:
  "stack m fl xs \<Longrightarrow> x \<noteq> 0 \<Longrightarrow> x \<notin> set xs \<Longrightarrow> stack (fst (fl_push x (m, fl))) (snd (fl_push x (m, fl))) (x # xs)"
  by (simp add: stack_def fl_push_def)

lemma stack_pop:
  assumes "stack m fl xs"
  shows "fst (fl_pop m fl) = (case xs of [] \<Rightarrow> 0 | x # _ \<Rightarrow> x)" "stack m (snd (fl_pop m fl)) (tl xs)"
  using assms by (cases xs; auto simp: stack_def fl_pop_def)+

lemma stack_pop_batch:
  "stack m fl xs \<Longrightarrow> fst (pop_batch n m fl) = take n xs \<and> stack m (snd (pop_batch n m fl)) (drop n xs)"
proof (induction n arbitrary: fl xs)
  case (Suc n)
  then have "fl_head fl = 0 \<longleftrightarrow> xs = []"
    by (auto simp: stack_def dest: chain_head)
  then show ?case
    using Suc.IH [OF stack_pop(2) [OF Suc.prems]] stack_pop(1) [OF Suc.prems] Suc.prems
    by (cases xs) (auto simp: case_prod_unfold)
qed simp

section \<open>Rings of spans\<close>

fun linked :: "span_heap \<Rightarrow> nat \<Rightarrow> nat list \<Rightarrow> nat \<Rightarrow> bool" where
  "linked hp a [] z \<longleftrightarrow> sp_next (hp a) = z \<and> sp_prev (hp z) = a"
| "linked hp a (x # xs) z \<longleftrightarrow> sp_next (hp a) = x \<and> sp_prev (hp x) = a \<and> linked hp x xs z"

definition ring :: "span_heap \<Rightarrow> nat \<Rightarrow> nat list \<Rightarrow> bool" where
  "ring hp h xs \<longleftrightarrow> linked hp h xs h \<and> distinct (h # xs)"

lemma linked_cong:
  "(\<And>x. x \<in> insert a (set xs) \<Longrightarrow> sp_next (hp' x) = sp_next (hp x)) \<Longrightarrow>
   (\<And>x. x \<in> insert z (set xs) \<Longrightarrow> sp_prev (hp' x) = sp_prev (hp x)) \<Longrightarrow> linked hp' a xs z = linked hp a xs z"
  by (induction xs arbitrary: a) auto

lemma linked_append: "linked hp a (xs @ y # ys) z \<longleftrightarrow> linked hp a xs y \<and> linked hp y ys z"
  by (induction xs arbitrary: a) auto

lemma links_sel [simp]:
  "sp_next (set_next a v hp x) = (if x = a then v else sp_next (hp x))" "sp_prev (set_next a v hp x) = sp_prev (hp x)"
  "sp_prev (set_prev a v hp x) = (if x = a then v else sp_prev (hp x))" "sp_next (set_prev a v hp x) = sp_next (hp x)"
  by (simp_all add: set_next_def set_prev_def)

lemma ring_new: "ring (SpanList h hp) h []"
  by (simp add: ring_def SpanList_def)

lemma ring_push_front:
  assumes "ring hp h xs" "s \<notin> set (h # xs)"
  shows "ring (push_front h s hp) h (s # xs)"
proof (cases xs)
  case Nil
  then show ?thesis
    using assms by (auto simp: ring_def push_front_def Let_def)
next
  case (Cons x ys)
  have "linked (push_front h s hp) x ys h = linked hp x ys h"
    by (rule linked_cong) (use assms Cons in \<open>auto simp: ring_def push_front_def Let_def\<close>)
  then show ?thesis
    using assms Cons by (auto simp: ring_def push_front_def Let_def)
qed

lemma ring_push_back:
  assumes "ring hp h xs" "s \<notin> set (h # xs)"
  shows "ring (push_back h s hp) h (xs @ [s])"
proof (cases xs rule: rev_cases)
  case Nil
  then show ?thesis
    using assms by (auto simp: ring_def push_back_def Let_def)
next
  case (snoc ys x)
  have "linked (push_back h s hp) h ys x = linked hp h ys x"
    by (rule linked_cong) (use assms snoc in \<open>auto simp: ring_def linked_append push_back_def Let_def\<close>)
  then show ?thesis
    using assms snoc by (auto simp: ring_def linked_append push_back_def Let_def)
qed

lemma ring_remove:
  assumes "ring hp h (xs @ s # ys)"
  shows "ring (span_remove s hp) h (xs @ ys)"
proof -
  let ?hp = "span_remove s hp"
  have keep: "linked ?hp a zs b = linked hp a zs b"
    if "set (a # zs) \<inter> {sp_prev (hp s), s} = {}" "set (b # zs) \<inter> {sp_next (hp s), s} = {}" for a zs b
    by (rule linked_cong) (use that in \<open>auto simp: span_remove_def Let_def\<close>)
  have new: "sp_next (?hp (sp_prev (hp s))) = sp_next (hp s)" "sp_prev (?hp (sp_next (hp s))) = sp_prev (hp s)"
    if "sp_prev (hp s) \<noteq> s" "sp_next (hp s) \<noteq> s"
    using that by (auto simp: span_remove_def Let_def)
  show ?thesis
  proof (cases ys; cases xs rule: rev_cases)
    fix y zs x ws assume "ys = y # zs" "xs = ws @ [x]"
    then show ?thesis
      using assms new keep [of h ws x] keep [of y zs h] by (auto simp: ring_def linked_append)
  next
    fix x ws assume "ys = []" "xs = ws @ [x]"
    then show ?thesis
      using assms new keep [of h ws x] by (auto simp: ring_def linked_append)
  next
    fix y zs assume "ys = y # zs" "xs = []"
    then show ?thesis
      using assms new keep [of y zs h] by (auto simp: ring_def linked_append)
  next
    assume "ys = []" "xs = []"
    then show ?thesis
      using assms new by (auto simp: ring_def)
  qed
qed

lemma ring_observers:
  assumes "ring hp h xs"
  shows "span_empty h hp \<longleftrightarrow> xs = []" "span_front h hp = (case xs of [] \<Rightarrow> h | x # _ \<Rightarrow> x)"
    "span_back h hp = List.last (h # xs)"
proof -
  show "span_empty h hp \<longleftrightarrow> xs = []" "span_front h hp = (case xs of [] \<Rightarrow> h | x # _ \<Rightarrow> x)"
    using assms by (cases xs; auto simp: ring_def span_empty_def span_front_def)+
  show "span_back h hp = List.last (h # xs)"
    using assms by (cases xs rule: rev_cases) (auto simp: ring_def span_back_def linked_append)
qed

lemma walk_linked: "linked hp a xs h \<Longrightarrow> h \<notin> set xs \<Longrightarrow> span_walk h hp (sp_next (hp a)) = Some xs"
  by (induction xs arbitrary: a) (subst span_walk.simps, force)+

lemma ring_walk: "ring hp h xs \<Longrightarrow> span_walk h hp (sp_next (hp h)) = Some xs"
  by (simp add: ring_def walk_linked)

section \<open>The contract of a list of spans\<close>

datatype list_op = Push_front nat | Push_back nat | Remove nat

text \<open>What an operation does to a sequence, and when the code may call it.\<close>

fun seq_step :: "list_op \<Rightarrow> nat list \<Rightarrow> nat list" where
  "seq_step (Push_front s) xs = s # xs"
| "seq_step (Push_back s) xs = xs @ [s]"
| "seq_step (Remove s) xs = remove1 s xs"

fun seq_pre :: "nat \<Rightarrow> list_op \<Rightarrow> nat list \<Rightarrow> bool" where
  "seq_pre h (Push_front s) xs \<longleftrightarrow> s \<notin> set (h # xs)"
| "seq_pre h (Push_back s) xs \<longleftrightarrow> s \<notin> set (h # xs)"
| "seq_pre h (Remove s) xs \<longleftrightarrow> s \<in> set xs"

fun ring_step :: "nat \<Rightarrow> list_op \<Rightarrow> span_heap \<Rightarrow> span_heap" where
  "ring_step h (Push_front s) hp = push_front h s hp"
| "ring_step h (Push_back s) hp = push_back h s hp"
| "ring_step h (Remove s) hp = span_remove s hp"

fun seq_allowed :: "nat \<Rightarrow> list_op list \<Rightarrow> nat list \<Rightarrow> bool" where
  "seq_allowed h [] xs \<longleftrightarrow> True"
| "seq_allowed h (a # as) xs \<longleftrightarrow> seq_pre h a xs \<and> seq_allowed h as (seq_step a xs)"

locale sequence =
  fixes rep :: "'s \<Rightarrow> nat list \<Rightarrow> bool" and step :: "list_op \<Rightarrow> 's \<Rightarrow> 's" and walk :: "'s \<Rightarrow> nat list option" and h :: nat
  assumes rep_step: "rep s xs \<Longrightarrow> seq_pre h a xs \<Longrightarrow> rep (step a s) (seq_step a xs)"
    and rep_walk: "rep s xs \<Longrightarrow> walk s = Some xs"
begin

lemma rep_steps: "rep s xs \<Longrightarrow> seq_allowed h as xs \<Longrightarrow> rep (fold step as s) (fold seq_step as xs)"
  by (induction as arbitrary: s xs) (simp_all add: rep_step)

lemma walk_steps: "rep s xs \<Longrightarrow> seq_allowed h as xs \<Longrightarrow> walk (fold step as s) = Some (fold seq_step as xs)"
  using rep_steps rep_walk by blast

end

interpretation span_ring: sequence "\<lambda>hp. ring hp h" "ring_step h" "\<lambda>hp. span_walk h hp (sp_next (hp h))" h for h
proof
  show "ring (ring_step h a hp) h (seq_step a xs)" if r: "ring hp h xs" and pre: "seq_pre h a xs" for hp xs a
  proof (cases a)
    case (Remove s)
    then obtain ys zs where "xs = ys @ s # zs" "s \<notin> set ys"
      using pre by (auto dest: split_list_first)
    then show ?thesis
      using r Remove ring_remove by (simp add: remove1_append)
  qed (use r pre ring_push_front ring_push_back in auto)
  show "ring hp h xs \<Longrightarrow> span_walk h hp (sp_next (hp h)) = Some xs" for hp xs
    by (rule ring_walk)
qed

definition demo_list_ops :: "list_op list" where
  "demo_list_ops = [Push_front 2, Push_back 3, Push_front 4, Remove 2]"

text \<open>C18: a doubly linked ring of spans behaves as the sequence of its spans: after any insertions at either
  end and any removals, the walk of the ring ends and visits exactly the spans of the sequence in order, and
  the tests for emptiness, the first and the last span and the size agree with it.\<close>

theorem span_list_refines_sequence:
  assumes "seq_allowed h as []" "hp' = fold (ring_step h) as (SpanList h hp)" "xs = fold seq_step as []"
  shows "span_walk h hp' (sp_next (hp' h)) = Some xs \<and> span_list_size h hp' = Some (length xs) \<and>
    (span_empty h hp' \<longleftrightarrow> xs = []) \<and> span_front h hp' = List.hd (xs @ [h]) \<and> span_back h hp' = List.last (h # xs)"
proof -
  have "ring hp' h xs"
    using span_ring.rep_steps [OF ring_new assms(1)] assms(2,3) by simp
  then show ?thesis
    using ring_observers [of hp' h xs] ring_walk by (auto simp: span_list_size_def split: list.splits)
qed

theorem span_list_refines_sequence_witness:
  "span_list_size 1 (fold (ring_step 1) demo_list_ops (SpanList 1 (\<lambda>s. new_Span))) = Some 2"
proof -
  have "seq_allowed 1 demo_list_ops []" and l: "fold seq_step demo_list_ops [] = [4, 3]"
    by (simp_all add: demo_list_ops_def)
  from span_list_refines_sequence [OF this(1) refl refl] show ?thesis
    by (simp add: l)
qed

end
