(* ===== verification/CC_Pool_Pages.thy ===== *)
theory CC_Pool_Pages
  imports CC_Pool_Lists
begin

text \<open>
  The page cache keeps the pages the system has given it partitioned into spans, the free ones in the lists of
  their lengths, their pages in the map, and no two free spans next to each other.
\<close>

section \<open>The page cache\<close>

text \<open>The free spans by their number of pages, and the pages of a span.\<close>

definition lst :: "page_cache \<Rightarrow> nat \<Rightarrow> nat list" where
  "lst pc n = (case map_of (free_span_lists pc) n of None \<Rightarrow> [] | Some l \<Rightarrow> l)"

definition free_set :: "page_cache \<Rightarrow> nat set" where
  "free_set pc = {s. \<exists>n. s \<in> set (lst pc n)}"

definition extent :: "page_cache \<Rightarrow> nat \<Rightarrow> nat set" where
  "extent pc s = {page_id (spans pc s) ..< page_id (spans pc s) + num_pages (spans pc s)}"

definition lists_ok :: "page_cache \<Rightarrow> bool" where
  "lists_ok pc \<longleftrightarrow> sorted_wrt (<) (map fst (free_span_lists pc)) \<and>
     (\<forall>n. distinct (lst pc n) \<and> (\<forall>s \<in> set (lst pc n). num_pages (spans pc s) = n))"

definition extents_ok :: "page_cache \<Rightarrow> nat set \<Rightarrow> bool" where
  "extents_ok pc A \<longleftrightarrow> (\<forall>s \<in> A. s < next_span pc \<and> 0 < num_pages (spans pc s) \<and> 0 < page_id (spans pc s)) \<and>
     (\<forall>s \<in> A. \<forall>t \<in> A. s \<noteq> t \<longrightarrow> extent pc s \<inter> extent pc t = {}) \<and>
     (\<Union>s \<in> A. extent pc s) = (\<Union>(p, n) \<in> set (mapped pc). {p ..< p + n})"

definition page_map_ok :: "page_cache \<Rightarrow> bool" where
  "page_map_ok pc \<longleftrightarrow> (\<forall>p s. page_span_map pc p = Some s \<longleftrightarrow> s \<in> free_set pc \<and> p \<in> extent pc s)"

definition merged :: "page_cache \<Rightarrow> bool" where
  "merged pc \<longleftrightarrow> (\<forall>s \<in> free_set pc. \<forall>t \<in> free_set pc. page_id (spans pc s) + num_pages (spans pc s) \<noteq> page_id (spans pc t))"

text \<open>The invariant; the spans in \<open>used\<close> have been handed out.\<close>

definition pc_ok :: "page_cache \<Rightarrow> nat set \<Rightarrow> bool" where
  "pc_ok pc used \<longleftrightarrow> lists_ok pc \<and> free_set pc \<inter> used = {} \<and> extents_ok pc (free_set pc \<union> used) \<and> page_map_ok pc \<and> merged pc"

lemma erase_pages_eq: "erase_pages p n m x = (if x \<in> {p ..< p + n} then None else m x)"
  unfolding erase_pages_def by (induction n arbitrary: m) auto

lemma map_pages_eq: "map_pages p n s m x = (if x \<in> {p ..< p + n} then Some s else m x)"
  unfolding map_pages_def by (induction n arbitrary: m) auto

lemma upd_list_keys: "(\<forall>x \<in> set (upd_list n f kls). P (fst x)) \<longleftrightarrow> P n \<and> (\<forall>x \<in> set kls. P (fst x))"
  by (induction n f kls rule: upd_list.induct) auto

lemma upd_list_sorted: "sorted_wrt (<) (map fst kls) \<Longrightarrow> sorted_wrt (<) (map fst (upd_list n f kls))"
proof (induction n f kls rule: upd_list.induct)
  case (2 n f k l kls)
  consider "n = k" | "n < k" | "k < n"
    by linarith
  then show ?case
    using 2 upd_list_keys [of n f kls "\<lambda>y. k < y"] by cases (auto dest: less_trans)
qed simp

lemma upd_list_map_of:
  "sorted_wrt (<) (map fst kls) \<Longrightarrow>
   map_of (upd_list n f kls) = (map_of kls)(n \<mapsto> f (case map_of kls n of None \<Rightarrow> [] | Some l \<Rightarrow> l))"
proof (induction n f kls rule: upd_list.induct)
  case (2 n f k l kls)
  have "map_of kls n = None" if "n < k"
    using 2(2) that by (fastforce simp: map_of_eq_None_iff)
  with 2 show ?case
    by (auto simp: fun_eq_iff)
qed auto

lemma lst_upd:
  assumes "lists_ok pc"
  shows "lst (pc\<lparr>free_span_lists := upd_list n f (free_span_lists pc)\<rparr>) = (lst pc)(n := f (lst pc n))"
  using assms by (auto simp: lists_ok_def lst_def upd_list_map_of fun_eq_iff)

lemma free_set_num: "lists_ok pc \<Longrightarrow> s \<in> free_set pc \<longleftrightarrow> s \<in> set (lst pc (num_pages (spans pc s)))"
  by (auto simp: free_set_def lists_ok_def)

lemma free_set_cong: "free_span_lists pc' = free_span_lists pc \<Longrightarrow> free_set pc' = free_set pc"
  by (simp add: free_set_def lst_def)

lemma extent_cong: "spans pc' s = spans pc s \<Longrightarrow> extent pc' s = extent pc s"
  by (simp add: extent_def)

lemma extent_unique: "extents_ok pc A \<Longrightarrow> s \<in> A \<Longrightarrow> t \<in> A \<Longrightarrow> p \<in> extent pc s \<Longrightarrow> p \<in> extent pc t \<Longrightarrow> s = t"
  by (auto simp: extents_ok_def)

lemma extents_okI:
  assumes "\<And>s. s \<in> A \<Longrightarrow> s < next_span pc \<and> 0 < num_pages (spans pc s) \<and> 0 < page_id (spans pc s)"
    "\<And>s t p. s \<in> A \<Longrightarrow> t \<in> A \<Longrightarrow> p \<in> extent pc s \<Longrightarrow> p \<in> extent pc t \<Longrightarrow> s = t"
    "(\<Union>s \<in> A. extent pc s) = (\<Union>(p, n) \<in> set (mapped pc). {p ..< p + n})"
  shows "extents_ok pc A"
  using assms unfolding extents_ok_def by blast

lemma extents_okD:
  assumes "extents_ok pc A"
  shows "s \<in> A \<Longrightarrow> s < next_span pc" "s \<in> A \<Longrightarrow> 0 < num_pages (spans pc s)" "s \<in> A \<Longrightarrow> 0 < page_id (spans pc s)"
    "(\<Union>s \<in> A. extent pc s) = (\<Union>(p, n) \<in> set (mapped pc). {p ..< p + n})"
  using assms by (simp_all add: extents_ok_def)

lemma page_mapped: "page_map_ok pc \<Longrightarrow> t \<in> free_set pc \<Longrightarrow> p \<in> extent pc t \<Longrightarrow> page_span_map pc p = Some t"
  by (simp add: page_map_ok_def)

lemma pc_ok_parts:
  assumes "pc_ok pc used"
  shows "lists_ok pc" "free_set pc \<inter> used = {}" "extents_ok pc (free_set pc \<union> used)" "page_map_ok pc" "merged pc"
  using assms by (simp_all add: pc_ok_def)

lemma free_part_cong:
  assumes "free_span_lists pc' = free_span_lists pc" "page_span_map pc' = page_span_map pc"
    "\<And>u. u \<in> free_set pc \<Longrightarrow> spans pc' u = spans pc u"
  shows "free_set pc' = free_set pc" "lists_ok pc' = lists_ok pc" "page_map_ok pc' = page_map_ok pc" "merged pc' = merged pc"
proof -
  have l: "lst pc' = lst pc"
    using assms(1) by (simp add: lst_def fun_eq_iff)
  have same: "spans pc' u = spans pc u" if "u \<in> set (lst pc n)" for u n
    by (rule assms(3)) (use that in \<open>auto simp: free_set_def\<close>)
  show "lists_ok pc' = lists_ok pc"
    using same l assms(1) unfolding lists_ok_def by metis
  show f: "free_set pc' = free_set pc"
    by (simp add: free_set_def l)
  show "page_map_ok pc' = page_map_ok pc"
    by (simp add: page_map_ok_def extent_def f assms(2,3) cong: conj_cong)
  show "merged pc' = merged pc"
    by (simp add: merged_def f assms(3))
qed

subsection \<open>Taking a free span\<close>

lemma absorb_sel [simp]:
  "spans (absorb t pc) = spans pc" "next_span (absorb t pc) = next_span pc" "mapped (absorb t pc) = mapped pc"
  by (simp_all add: absorb_def take_free_def Let_def)

lemma absorb_lst:
  assumes "lists_ok pc"
  shows "lst (absorb t pc) = (lst pc)(num_pages (spans pc t) := remove1 t (lst pc (num_pages (spans pc t))))"
  using assms by (auto simp: absorb_def take_free_def lst_def Let_def lists_ok_def upd_list_map_of fun_eq_iff)

lemma absorb_free:
  assumes "lists_ok pc"
  shows "free_set (absorb t pc) = free_set pc - {t}" "lists_ok (absorb t pc)"
proof -
  show "free_set (absorb t pc) = free_set pc - {t}"
    using assms unfolding free_set_def absorb_lst [OF assms] by (auto simp: lists_ok_def set_remove1_eq) metis
  have "sorted_wrt (<) (map fst (free_span_lists (absorb t pc)))"
    using assms by (simp add: absorb_def take_free_def Let_def lists_ok_def upd_list_sorted)
  then show "lists_ok (absorb t pc)"
    using assms unfolding lists_ok_def absorb_lst [OF assms] by (auto simp: distinct_remove1 set_remove1_eq)
qed

lemma absorb_ok:
  assumes "pc_ok pc used" "t \<in> free_set pc"
  shows "pc_ok (absorb t pc) (insert t used)"
proof -
  have l: "lists_ok pc"
    using assms(1) by (simp add: pc_ok_def)
  have e: "extent (absorb t pc) = extent pc"
    by (simp add: extent_def fun_eq_iff)
  have "free_set (absorb t pc) \<union> insert t used = free_set pc \<union> used"
    using absorb_free(1) [OF l] assms(2) by auto
  then have "extents_ok (absorb t pc) (free_set (absorb t pc) \<union> insert t used)"
    using assms(1) by (simp add: pc_ok_def extents_ok_def e)
  moreover have "page_span_map (absorb t pc) p = (if p \<in> extent pc t then None else page_span_map pc p)" for p
    by (simp add: absorb_def take_free_def erase_pages_eq extent_def Let_def)
  then have "page_map_ok (absorb t pc)"
    using pc_ok_parts(4) [OF assms(1)] extent_unique [OF pc_ok_parts(3) [OF assms(1)]] assms(2)
    unfolding page_map_ok_def absorb_free(1) [OF l] e by auto
  moreover have "merged (absorb t pc)"
    using assms(1) by (simp add: merged_def absorb_free(1) [OF l] pc_ok_def)
  ultimately show ?thesis
    using assms(1) absorb_free [OF l] by (auto simp: pc_ok_def)
qed

subsection \<open>Returning a span\<close>

lemma add_free_sel [simp]:
  "spans (add_free s pc) = spans pc" "next_span (add_free s pc) = next_span pc" "mapped (add_free s pc) = mapped pc"
  "page_span_map (add_free s pc) p = (if p \<in> extent pc s then Some s else page_span_map pc p)"
  by (simp_all add: add_free_def Let_def map_pages_eq extent_def)

lemma add_free_lst:
  assumes "lists_ok pc"
  shows "lst (add_free s pc) = (lst pc)(num_pages (spans pc s) := s # lst pc (num_pages (spans pc s)))"
  using assms by (auto simp: add_free_def lst_def Let_def lists_ok_def upd_list_map_of fun_eq_iff)

lemma add_free_ok:
  assumes "pc_ok pc used" "s \<in> used"
    "\<And>t. t \<in> free_set pc \<Longrightarrow> page_id (spans pc t) + num_pages (spans pc t) \<noteq> page_id (spans pc s) \<and>
       page_id (spans pc s) + num_pages (spans pc s) \<noteq> page_id (spans pc t)"
  shows "pc_ok (add_free s pc) (used - {s})"
proof -
  note ok = pc_ok_parts [OF assms(1)]
  have s: "s \<notin> free_set pc"
    using ok(2) assms(2) by blast
  have f: "free_set (add_free s pc) = insert s (free_set pc)"
    unfolding free_set_def add_free_lst [OF ok(1)] by auto (metis list.set_intros(2))
  have e: "extent (add_free s pc) = extent pc"
    by (simp add: extent_def fun_eq_iff)
  have "sorted_wrt (<) (map fst (free_span_lists (add_free s pc)))"
    using ok(1) by (simp add: add_free_def Let_def lists_ok_def upd_list_sorted)
  moreover have "s \<notin> set (lst pc n)" for n
    using s by (auto simp: free_set_def)
  ultimately have "lists_ok (add_free s pc)"
    using ok(1) unfolding lists_ok_def add_free_lst [OF ok(1)] by auto
  moreover have "free_set (add_free s pc) \<union> (used - {s}) = free_set pc \<union> used"
    using f assms(2) by auto
  then have "extents_ok (add_free s pc) (free_set (add_free s pc) \<union> (used - {s}))"
    using ok(3) by (simp add: extents_ok_def e)
  moreover have "page_map_ok (add_free s pc)"
    using ok(4) extent_unique [OF ok(3)] assms(2) unfolding page_map_ok_def f e by auto
  moreover have "0 < num_pages (spans pc s)"
    using ok(3) assms(2) by (simp add: extents_ok_def)
  then have "merged (add_free s pc)"
    using ok(5) assms(3) by (auto simp: merged_def f)
  ultimately show ?thesis
    using ok(2) by (auto simp: pc_ok_def f)
qed

subsection \<open>Merging\<close>

definition resize :: "nat \<Rightarrow> Span \<Rightarrow> page_cache \<Rightarrow> page_cache" where
  "resize s sp pc = pc\<lparr>spans := (spans pc)(s := sp)\<rparr>"

lemma resize_sel [simp]:
  "spans (resize s sp pc) = (spans pc)(s := sp)" "next_span (resize s sp pc) = next_span pc"
  "mapped (resize s sp pc) = mapped pc" "page_span_map (resize s sp pc) = page_span_map pc"
  "free_set (resize s sp pc) = free_set pc" "lst (resize s sp pc) = lst pc"
  by (simp_all add: resize_def free_set_def lst_def fun_eq_iff)

lemma resize_extent:
  "extent (resize s sp pc) t = (if t = s then {page_id sp ..< page_id sp + num_pages sp} else extent pc t)"
  by (simp add: extent_def)

lemma merge_ok:
  assumes "pc_ok pc used" "s \<in> used" "t \<in> used" "s \<noteq> t" "0 < page_id sp" "0 < num_pages sp"
    "{page_id sp ..< page_id sp + num_pages sp} = extent pc s \<union> extent pc t"
  shows "pc_ok (resize s sp pc) (used - {t})"
proof -
  note ok = pc_ok_parts [OF assms(1)]
  have st: "s \<notin> free_set pc" "t \<notin> free_set pc"
    using ok(2) assms(2,3) by auto
  then have "lists_ok (resize s sp pc)"
    using ok(1) by (auto simp: lists_ok_def free_set_def resize_def lst_def)
  moreover have "extents_ok (resize s sp pc) (free_set pc \<union> (used - {t}))"
  proof -
    have "(\<Union>u \<in> free_set pc \<union> (used - {t}). extent (resize s sp pc) u) = (\<Union>u \<in> free_set pc \<union> used. extent pc u)"
      using assms(2-4,7) st by (auto simp: resize_extent split: if_splits)
    moreover have "u = v" if "u \<in> free_set pc \<union> (used - {t})" "v \<in> free_set pc \<union> (used - {t})"
        "p \<in> extent (resize s sp pc) u" "p \<in> extent (resize s sp pc) v" for u v p
    proof -
      have "u \<noteq> t" "v \<noteq> t"
        using that(1,2) st(2) by auto
      then show ?thesis
        using that extent_unique [OF ok(3), of u v p] extent_unique [OF ok(3), of u t p] extent_unique [OF ok(3), of v t p]
          extent_unique [OF ok(3), of u s p] extent_unique [OF ok(3), of v s p] assms(2,3,7)
        by (auto simp: resize_extent split: if_splits)
    qed
    moreover have "u < next_span (resize s sp pc) \<and> 0 < num_pages (spans (resize s sp pc) u) \<and>
        0 < page_id (spans (resize s sp pc) u)" if "u \<in> free_set pc \<union> (used - {t})" for u
      using that extents_okD(1-3) [OF ok(3), of u] assms(5,6) by auto
    ultimately show ?thesis
      using extents_okD(4) [OF ok(3)] by (intro extents_okI) simp_all
  qed
  moreover have "page_map_ok (resize s sp pc)" "merged (resize s sp pc)"
    using ok(4,5) st by (auto simp: page_map_ok_def merged_def resize_extent)
  ultimately show ?thesis
    using ok(2) by (auto simp: pc_ok_def)
qed

lemma finite_free_set: "finite (free_set pc)"
proof (rule finite_subset)
  show "free_set pc \<subseteq> set (concat (map snd (free_span_lists pc)))"
  proof
    fix s assume "s \<in> free_set pc"
    then obtain n where "s \<in> set (lst pc n)"
      by (auto simp: free_set_def)
    then show "s \<in> set (concat (map snd (free_span_lists pc)))"
      by (cases "map_of (free_span_lists pc) n") (auto simp: lst_def dest!: map_of_SomeD intro: bexI [rotated])
  qed
qed simp

text \<open>What merging a used span with free neighbours leaves.\<close>

definition grown :: "nat \<Rightarrow> nat set \<Rightarrow> page_cache \<Rightarrow> page_cache \<Rightarrow> bool" where
  "grown s used pc pc' \<longleftrightarrow> pc_ok pc' used \<and> free_set pc' \<subseteq> free_set pc \<and> mapped pc' = mapped pc \<and>
     next_span pc' = next_span pc \<and> (\<forall>u \<in> used - {s}. spans pc' u = spans pc u)"

lemma grown_refl: "pc_ok pc used \<Longrightarrow> grown s used pc pc"
  by (simp add: grown_def)

lemma grown_trans: "grown s used pc pc' \<Longrightarrow> grown s used pc' pc'' \<Longrightarrow> grown s used pc pc''"
  by (auto simp: grown_def)

lemma absorb_grown:
  assumes "pc_ok pc used" "s \<in> used" "t \<in> free_set pc" "0 < page_id sp" "0 < num_pages sp"
    "{page_id sp ..< page_id sp + num_pages sp} = extent pc s \<union> extent pc t"
  shows "grown s used pc (resize s sp (absorb t pc))" "card (free_set (resize s sp (absorb t pc))) < card (free_set pc)"
proof -
  have t: "t \<notin> used" "s \<noteq> t"
    using pc_ok_parts(2) [OF assms(1)] assms(2,3) by auto
  have e: "extent (absorb t pc) = extent pc"
    by (simp add: extent_def fun_eq_iff)
  have "pc_ok (resize s sp (absorb t pc)) (insert t used - {t})"
    by (rule merge_ok [OF absorb_ok [OF assms(1,3)]]) (use assms t in \<open>auto simp: e\<close>)
  then show "grown s used pc (resize s sp (absorb t pc))"
    using t absorb_free(1) [OF pc_ok_parts(1) [OF assms(1)]] by (auto simp: grown_def)
  show "card (free_set (resize s sp (absorb t pc))) < card (free_set pc)"
    unfolding resize_sel absorb_free(1) [OF pc_ok_parts(1) [OF assms(1)]] by (rule card_Diff1_less [OF finite_free_set assms(3)])
qed

lemma coalesce_prev_ok:
  assumes "pc_ok pc used" "s \<in> used"
  shows "\<exists>pc'. coalesce_prev s pc = Some pc' \<and> grown s used pc pc' \<and>
    (\<forall>t \<in> free_set pc'. page_id (spans pc' t) + num_pages (spans pc' t) \<noteq> page_id (spans pc' s))"
  using assms
proof (induction pc rule: measure_induct_rule [of "\<lambda>pc. card (free_set pc)"])
  case (less pc)
  note ok = pc_ok_parts [OF less.prems(1)]
  let ?sp = "spans pc s"
  have pos: "0 < page_id ?sp" "0 < num_pages ?sp"
    using extents_okD(2,3) [OF ok(3), of s] less.prems(2) by auto
  then have pv: "prev_page (page_id ?sp) = page_id ?sp - 1"
    by (simp add: prev_page_def)
  show ?case
  proof (cases "page_span_map pc (prev_page (page_id ?sp))")
    case None
    have "page_id (spans pc t) + num_pages (spans pc t) \<noteq> page_id ?sp" if "t \<in> free_set pc" for t
    proof
      assume "page_id (spans pc t) + num_pages (spans pc t) = page_id ?sp"
      then have "page_id ?sp - 1 \<in> extent pc t"
        using extents_okD(2) [OF ok(3), of t] that by (auto simp: extent_def)
      then show False
        using None page_mapped [OF ok(4) that] pv by simp
    qed
    then show ?thesis
      using None less.prems(1) by (subst coalesce_prev.simps) (simp add: grown_refl)
  next
    case (Some t)
    let ?tp = "spans pc t"
    let ?sp' = "?sp\<lparr>page_id := page_id ?tp, num_pages := num_pages ?sp + num_pages ?tp\<rparr>"
    have t: "t \<in> free_set pc" "page_id ?sp - 1 \<in> extent pc t"
      using Some ok(4) pv by (simp_all add: page_map_ok_def)
    have "page_id ?sp \<in> extent pc s" "s \<noteq> t"
      using pos t(1) ok(2) less.prems(2) by (auto simp: extent_def)
    then have "page_id ?sp \<notin> extent pc t"
      using extent_unique [OF ok(3), of s t] t(1) less.prems(2) by auto
    then have adj: "page_id ?tp + num_pages ?tp = page_id ?sp"
      using t(2) pos by (auto simp: extent_def)
    have "{page_id ?sp' ..< page_id ?sp' + num_pages ?sp'} = extent pc s \<union> extent pc t"
      using adj by (auto simp: extent_def)
    moreover have "0 < page_id ?sp'" "0 < num_pages ?sp'"
      using extents_okD(3) [OF ok(3), of t] t(1) pos by auto
    ultimately have g: "grown s used pc (resize s ?sp' (absorb t pc))"
      "card (free_set (resize s ?sp' (absorb t pc))) < card (free_set pc)"
      using absorb_grown [OF less.prems t(1)] by blast+
    have step: "coalesce_prev s pc = coalesce_prev s (resize s ?sp' (absorb t pc))"
      using Some adj by (subst coalesce_prev.simps) (simp add: Let_def resize_def)
    from less.IH [OF g(2) _ less.prems(2)] g(1) obtain pc' where
      "coalesce_prev s (resize s ?sp' (absorb t pc)) = Some pc'" "grown s used (resize s ?sp' (absorb t pc)) pc'"
      "\<forall>t \<in> free_set pc'. page_id (spans pc' t) + num_pages (spans pc' t) \<noteq> page_id (spans pc' s)"
      by (auto simp: grown_def)
    then show ?thesis
      using step grown_trans [OF g(1)] by auto
  qed
qed

lemma coalesce_next_ok:
  assumes "pc_ok pc used" "s \<in> used"
  shows "\<exists>pc'. coalesce_next s pc = Some pc' \<and> grown s used pc pc' \<and> page_id (spans pc' s) = page_id (spans pc s) \<and>
    (\<forall>t \<in> free_set pc'. spans pc' t = spans pc t) \<and>
    (\<forall>t \<in> free_set pc'. page_id (spans pc' s) + num_pages (spans pc' s) \<noteq> page_id (spans pc' t))"
  using assms
proof (induction pc rule: measure_induct_rule [of "\<lambda>pc. card (free_set pc)"])
  case (less pc)
  note ok = pc_ok_parts [OF less.prems(1)]
  let ?sp = "spans pc s" and ?stop = "page_id (spans pc s) + num_pages (spans pc s)"
  have pos: "0 < page_id ?sp" "0 < num_pages ?sp" and s: "s \<notin> free_set pc"
    using extents_okD(2,3) [OF ok(3), of s] less.prems(2) ok(2) by auto
  show ?case
  proof (cases "page_span_map pc ?stop")
    case None
    have "?stop \<noteq> page_id (spans pc t)" if "t \<in> free_set pc" for t
    proof
      assume "?stop = page_id (spans pc t)"
      then have "?stop \<in> extent pc t"
        using extents_okD(2) [OF ok(3), of t] that by (auto simp: extent_def)
      then show False
        using None page_mapped [OF ok(4) that] by simp
    qed
    then show ?thesis
      using None less.prems(1) by (subst coalesce_next.simps) (simp add: grown_refl)
  next
    case (Some t)
    let ?tp = "spans pc t"
    let ?sp' = "?sp\<lparr>num_pages := num_pages ?sp + num_pages ?tp\<rparr>"
    have t: "t \<in> free_set pc" "?stop \<in> extent pc t"
      using Some ok(4) by (simp_all add: page_map_ok_def)
    have "?stop - 1 \<in> extent pc s" "s \<noteq> t"
      using pos t(1) s by (auto simp: extent_def)
    then have "?stop - 1 \<notin> extent pc t"
      using extent_unique [OF ok(3), of s t] t(1) less.prems(2) by auto
    then have adj: "?stop = page_id ?tp"
      using t(2) pos by (auto simp: extent_def)
    have "{page_id ?sp' ..< page_id ?sp' + num_pages ?sp'} = extent pc s \<union> extent pc t"
      using adj by (auto simp: extent_def)
    moreover have "0 < page_id ?sp'" "0 < num_pages ?sp'"
      using pos by auto
    ultimately have g: "grown s used pc (resize s ?sp' (absorb t pc))"
      "card (free_set (resize s ?sp' (absorb t pc))) < card (free_set pc)"
      using absorb_grown [OF less.prems t(1)] by blast+
    have step: "coalesce_next s pc = coalesce_next s (resize s ?sp' (absorb t pc))"
      using Some adj by (subst coalesce_next.simps) (simp add: Let_def resize_def)
    from less.IH [OF g(2) _ less.prems(2)] g(1) obtain pc' where n:
      "coalesce_next s (resize s ?sp' (absorb t pc)) = Some pc'" "grown s used (resize s ?sp' (absorb t pc)) pc'"
      "page_id (spans pc' s) = page_id (spans (resize s ?sp' (absorb t pc)) s)"
      "\<forall>u \<in> free_set pc'. spans pc' u = spans (resize s ?sp' (absorb t pc)) u"
      "\<forall>u \<in> free_set pc'. page_id (spans pc' s) + num_pages (spans pc' s) \<noteq> page_id (spans pc' u)"
      by (auto simp: grown_def)
    have "s \<notin> free_set pc'"
      using n(2) s g(1) by (auto simp: grown_def)
    then show ?thesis
      using step n grown_trans [OF g(1) n(2)] by (auto simp: fun_upd_apply)
  qed
qed

lemma free_span_ok:
  assumes "pc_ok pc used" "s \<in> used"
  shows "\<exists>pc'. free_span s pc = Some pc' \<and> pc_ok pc' (used - {s}) \<and> mapped pc' = mapped pc \<and>
    (\<forall>u \<in> used - {s}. spans pc' u = spans pc u)"
proof -
  obtain pc1 where pc1: "coalesce_prev s pc = Some pc1" "grown s used pc pc1"
    "\<forall>t \<in> free_set pc1. page_id (spans pc1 t) + num_pages (spans pc1 t) \<noteq> page_id (spans pc1 s)"
    using coalesce_prev_ok [OF assms] by blast
  then have "pc_ok pc1 used"
    by (simp add: grown_def)
  from coalesce_next_ok [OF this assms(2)] obtain pc2 where pc2: "coalesce_next s pc1 = Some pc2" "grown s used pc1 pc2"
    "page_id (spans pc2 s) = page_id (spans pc1 s)" "\<forall>t \<in> free_set pc2. spans pc2 t = spans pc1 t"
    "\<forall>t \<in> free_set pc2. page_id (spans pc2 s) + num_pages (spans pc2 s) \<noteq> page_id (spans pc2 t)"
    by blast
  have sub: "free_set pc2 \<subseteq> free_set pc1"
    using pc2(2) by (simp add: grown_def)
  have "pc_ok (add_free s pc2) (used - {s})"
  proof (rule add_free_ok [OF _ assms(2)])
    show "pc_ok pc2 used"
      using pc2(2) by (simp add: grown_def)
    show "page_id (spans pc2 t) + num_pages (spans pc2 t) \<noteq> page_id (spans pc2 s) \<and>
        page_id (spans pc2 s) + num_pages (spans pc2 s) \<noteq> page_id (spans pc2 t)" if "t \<in> free_set pc2" for t
      using that pc1(3) pc2(3,4,5) sub by auto
  qed
  moreover have "free_span s pc = Some (add_free s pc2)"
    using pc1(1) pc2(1) by (simp add: free_span_def coalesce_span_def)
  ultimately show ?thesis
    using pc1(2) pc2(2) by (auto simp: grown_def)
qed

subsection \<open>Allocation\<close>

text \<open>What the manual promises of \<^verbatim>\<open>mmap\<close>: a region that is aligned to pages, not at address zero, and
  disjoint from those mapped before.\<close>

definition mmap_fresh :: "os \<Rightarrow> bool" where
  "mmap_fresh sys \<longleftrightarrow> 0 < page_size sys \<and> (\<forall>regions n ptr. os_mmap sys regions (n * page_size sys) = Some ptr \<longrightarrow>
     page_size sys dvd ptr \<and> 0 < ptr \<and>
     (\<forall>(p, k) \<in> set regions. {ptr div page_size sys ..< ptr div page_size sys + n} \<inter> {p ..< p + k} = {}))"

lemma new_used_ok:
  assumes "pc_ok pc used" "s = next_span pc" "0 < n" "0 < p" "\<forall>(q, k) \<in> set (mapped pc). {p ..< p + n} \<inter> {q ..< q + k} = {}"
    "page_id sp = p" "num_pages sp = n"
  shows "pc_ok (pc\<lparr>spans := (spans pc)(s := sp), next_span := Suc s, mapped := (p, n) # mapped pc\<rparr>) (insert s used)"
proof -
  let ?pc = "pc\<lparr>spans := (spans pc)(s := sp), next_span := Suc s, mapped := (p, n) # mapped pc\<rparr>"
  note ok = pc_ok_parts [OF assms(1)]
  have s: "s \<notin> free_set pc" "s \<notin> used"
    using extents_okD(1) [OF ok(3), of s] assms(2) by auto
  have agree: "spans ?pc u = spans pc u" if "u \<in> free_set pc" for u
    using that s(1) by auto
  have cong: "free_set ?pc = free_set pc" "lists_ok ?pc" "page_map_ok ?pc" "merged ?pc"
    using free_part_cong [OF _ _ agree] ok(1,4,5) by simp_all
  have e: "extent ?pc u = (if u = s then {p ..< p + n} else extent pc u)" for u
    using assms(6,7) by (simp add: extent_def)
  have "extents_ok ?pc (insert s (free_set pc \<union> used))"
  proof (rule extents_okI)
    have "(\<Union>u \<in> insert s (free_set pc \<union> used). extent ?pc u) = {p ..< p + n} \<union> (\<Union>u \<in> free_set pc \<union> used. extent pc u)"
      using s by (auto simp: e split: if_splits)
    then show "(\<Union>u \<in> insert s (free_set pc \<union> used). extent ?pc u) = (\<Union>(q, k) \<in> set (mapped ?pc). {q ..< q + k})"
      unfolding extents_okD(4) [OF ok(3)] by simp
    have old: "q \<notin> {p ..< p + n}" if "u \<in> free_set pc \<union> used" "q \<in> extent pc u" for u q
    proof -
      have "q \<in> (\<Union>(q, k) \<in> set (mapped pc). {q ..< q + k})"
        using that unfolding extents_okD(4) [OF ok(3), symmetric] by blast
      then show ?thesis
        using assms(5) by fastforce
    qed
    show "u = v" if "u \<in> insert s (free_set pc \<union> used)" "v \<in> insert s (free_set pc \<union> used)" "q \<in> extent ?pc u" "q \<in> extent ?pc v"
      for u v q
      using that old [of u q] old [of v q] extent_unique [OF ok(3), of u v q] by (simp add: e split: if_splits)
    show "u < next_span ?pc \<and> 0 < num_pages (spans ?pc u) \<and> 0 < page_id (spans ?pc u)"
      if "u \<in> insert s (free_set pc \<union> used)" for u
      using that extents_okD(1-3) [OF ok(3), of u] assms(2-4,6,7) by auto
  qed
  then show ?thesis
    using ok(2) s(1) cong by (auto simp: pc_ok_def)
qed

lemma split_used_ok:
  assumes "pc_ok pc used" "b \<in> used" "r = next_span pc" "0 < n" "n < num_pages (spans pc b)"
    "page_id rest = page_id (spans pc b) + n" "num_pages rest = num_pages (spans pc b) - n"
  shows "pc_ok (pc\<lparr>spans := (spans pc)(r := rest, b := (spans pc b)\<lparr>num_pages := n\<rparr>), next_span := Suc r\<rparr>) (insert r used)"
proof -
  let ?pc = "pc\<lparr>spans := (spans pc)(r := rest, b := (spans pc b)\<lparr>num_pages := n\<rparr>), next_span := Suc r\<rparr>"
  let ?old = "free_set pc \<union> used - {b}"
  note ok = pc_ok_parts [OF assms(1)]
  have r: "r \<notin> free_set pc" "r \<notin> used" "r \<noteq> b" "b \<notin> free_set pc"
    using extents_okD(1) [OF ok(3), of r] assms(2,3) ok(2) by auto
  have agree: "spans ?pc u = spans pc u" if "u \<in> free_set pc" for u
    using that r by auto
  have cong: "free_set ?pc = free_set pc" "lists_ok ?pc" "page_map_ok ?pc" "merged ?pc"
    using free_part_cong [OF _ _ agree] ok(1,4,5) by simp_all
  have b: "extent pc b = extent ?pc b \<union> extent ?pc r" "extent ?pc b \<inter> extent ?pc r = {}"
    using r(3) assms(4-7) by (auto simp: extent_def)
  have same: "extent ?pc u = extent pc u" if "u \<in> ?old" for u
    using that r by (auto simp: extent_def)
  have sets: "free_set ?pc \<union> insert r used = insert r (insert b ?old)" "free_set pc \<union> used = insert b ?old"
    using assms(2) cong(1) by auto
  have "extents_ok ?pc (insert r (insert b ?old))"
  proof (rule extents_okI)
    have "(\<Union>u \<in> insert r (insert b ?old). extent ?pc u) = extent ?pc r \<union> extent ?pc b \<union> (\<Union>u \<in> ?old. extent pc u)"
      using same by auto
    also have "\<dots> = (\<Union>u \<in> insert b ?old. extent pc u)"
      unfolding UN_insert b(1) by auto
    finally show "(\<Union>u \<in> insert r (insert b ?old). extent ?pc u) = (\<Union>(q, k) \<in> set (mapped ?pc). {q ..< q + k})"
      unfolding sets(2) [symmetric] extents_okD(4) [OF ok(3)] by simp
    let ?of = "\<lambda>u. if u = r then b else u"
    have sub: "q \<in> extent pc (?of u)" "?of u \<in> free_set pc \<union> used" if "q \<in> extent ?pc u" "u \<in> insert r (insert b ?old)" for u q
      using that b(1) same assms(2) by (auto split: if_splits)
    show "u = v" if "u \<in> insert r (insert b ?old)" "v \<in> insert r (insert b ?old)" "q \<in> extent ?pc u" "q \<in> extent ?pc v" for u v q
    proof -
      have "?of u = ?of v"
        using extent_unique [OF ok(3)] sub [OF that(3,1)] sub [OF that(4,2)] by blast
      then show ?thesis
        using that(3,4) b(2) by (auto split: if_splits)
    qed
    show "u < next_span ?pc \<and> 0 < num_pages (spans ?pc u) \<and> 0 < page_id (spans ?pc u)" if "u \<in> insert r (insert b ?old)" for u
      using that extents_okD(1-3) [OF ok(3), of u] extents_okD(1-3) [OF ok(3), of b] assms(2-7) by auto
  qed
  then show ?thesis
    using ok(2) r(1) cong unfolding pc_ok_def sets(1) by auto
qed

lemma take_exact:
  assumes "pc_ok pc used" "map_of (free_span_lists pc) n = Some (s # ss)"
  shows "s \<in> free_set pc" "num_pages (spans pc s) = n"
    "(take_free s pc n)\<lparr>page_span_map := erase_pages (page_id (spans pc s)) (num_pages (spans pc s)) (page_span_map pc)\<rparr> = absorb s pc"
proof -
  have m: "s \<in> set (lst pc n)"
    using assms(2) by (simp add: lst_def)
  then show "s \<in> free_set pc" and n: "num_pages (spans pc s) = n"
    using pc_ok_parts(1) [OF assms(1)] by (auto simp: free_set_def lists_ok_def)
  show "(take_free s pc n)\<lparr>page_span_map := erase_pages (page_id (spans pc s)) (num_pages (spans pc s)) (page_span_map pc)\<rparr> = absorb s pc"
    by (simp add: absorb_def take_free_def Let_def n)
qed

lemma split_span_eq:
  assumes "num_pages (spans pc b) = k" "n < k" "r = next_span pc" "r \<noteq> b"
  shows "split_span n b (take_free b pc k) =
    add_free r ((absorb b pc)\<lparr>spans := (spans pc)(r := new_Span\<lparr>page_id := page_id (spans pc b) + n, num_pages := k - n\<rparr>,
      b := (spans pc b)\<lparr>num_pages := n\<rparr>), next_span := Suc r\<rparr>)"
  using assms
  by (intro page_cache.equality)
     (auto simp: split_span_def add_free_def absorb_def take_free_def Let_def fun_eq_iff erase_pages_eq map_pages_eq)

lemma split_ok:
  assumes "pc_ok pc used" "b \<in> free_set pc" "num_pages (spans pc b) = k" "0 < n" "n < k"
  shows "pc_ok (split_span n b (take_free b pc k)) (insert b used)"
proof -
  let ?r = "next_span pc"
  let ?sp = "(spans pc)(?r := new_Span\<lparr>page_id := page_id (spans pc b) + n, num_pages := k - n\<rparr>, b := (spans pc b)\<lparr>num_pages := n\<rparr>)"
  let ?pc = "(absorb b pc)\<lparr>spans := ?sp, next_span := Suc ?r\<rparr>"
  note ok = pc_ok_parts [OF assms(1)]
  have r: "?r \<notin> free_set pc" "?r \<notin> used" "?r \<noteq> b" "b \<notin> used"
    using extents_okD(1) [OF ok(3), of ?r] assms(2) ok(2) by auto
  have "pc_ok ?pc (insert ?r (insert b used))"
    using split_used_ok [OF absorb_ok [OF assms(1,2)], of b ?r n "new_Span\<lparr>page_id := page_id (spans pc b) + n, num_pages := k - n\<rparr>"]
      assms(3-5) by simp
  moreover have "free_set ?pc = free_set pc - {b}"
    using free_set_cong [of ?pc "absorb b pc"] absorb_free(1) [OF ok(1)] by simp
  then have "page_id (spans ?pc t) + num_pages (spans ?pc t) \<noteq> page_id (spans ?pc ?r) \<and>
      page_id (spans ?pc ?r) + num_pages (spans ?pc ?r) \<noteq> page_id (spans ?pc t)" if "t \<in> free_set ?pc" for t
  proof -
    have t: "t \<in> free_set pc" "t \<noteq> b" "t \<noteq> ?r"
      using that \<open>free_set ?pc = free_set pc - {b}\<close> r(1) by auto
    have "page_id (spans pc b) + n - 1 \<in> extent pc b"
      using assms(3-5) by (simp add: extent_def) linarith
    then have "page_id (spans pc b) + n - 1 \<notin> extent pc t"
      using extent_unique [OF ok(3), of t b "page_id (spans pc b) + n - 1"] t(1,2) assms(2) by blast
    then have "page_id (spans pc t) + num_pages (spans pc t) \<noteq> page_id (spans pc b) + n"
      using extents_okD(2) [OF ok(3), of t] t(1) by (auto simp: extent_def)
    then show ?thesis
      using ok(5) t r(3) assms(2,3,5) by (auto simp: merged_def)
  qed
  ultimately have "pc_ok (add_free ?r ?pc) (insert ?r (insert b used) - {?r})"
    by (intro add_free_ok) auto
  then show ?thesis
    using r split_span_eq [OF assms(3,5) refl r(3)] by (simp add: insert_Diff_if)
qed

lemma split_span_sel:
  "u \<noteq> next_span pc \<Longrightarrow> spans (split_span n b pc) u = (if u = b then (spans pc b)\<lparr>num_pages := n\<rparr> else spans pc u)"
  by (simp add: split_span_def Let_def)

lemma allocate_span_ok:
  assumes "pc_ok pc used" "mmap_fresh sys" "0 < n" "allocate_span sys n pc = (Some s, pc')"
  shows "pc_ok pc' (insert s used) \<and> s \<notin> used \<and> num_pages (spans pc' s) = n \<and> (\<forall>u \<in> used. spans pc' u = spans pc u)"
proof -
  note ok = pc_ok_parts [OF assms(1)]
  have fresh: "next_span pc \<notin> free_set pc \<union> used"
    using extents_okD(1) [OF ok(3), of "next_span pc"] by blast
  consider (exact) ss where "map_of (free_span_lists pc) n = Some (s # ss)" "pc' = absorb s pc"
    | (split) k bs where "(k, s # bs) \<in> set (free_span_lists pc)" "n < k" "pc' = split_span n s (take_free s pc k)"
    | (mmap) ptr where "os_mmap sys (mapped pc) (n * page_size sys) = Some ptr" "s = next_span pc"
        "pc' = pc\<lparr>spans := (spans pc)(s := new_Span\<lparr>page_id := ptr div page_size sys, num_pages := n\<rparr>), next_span := Suc s,
                  mapped := (ptr div page_size sys, n) # mapped pc\<rparr>"
    using assms(4) take_exact(3) [OF assms(1)]
    by (fastforce simp: allocate_span_def Let_def take_free_def find_Some_iff in_set_conv_nth split: option.splits list.splits prod.splits)
  then show ?thesis
  proof cases
    case exact
    then show ?thesis
      using take_exact(1,2) [OF assms(1) exact(1)] absorb_ok [OF assms(1)] ok(2) by auto
  next
    case split
    have "s \<in> set (lst pc k)"
      using split(1) ok(1) by (simp add: lst_def lists_ok_def strict_sorted_iff)
    then have s: "s \<in> free_set pc" "num_pages (spans pc s) = k"
      using ok(1) by (auto simp: free_set_def lists_ok_def)
    have "spans pc' u = (if u = s then (spans pc s)\<lparr>num_pages := n\<rparr> else spans pc u)" if "u \<in> free_set pc \<union> used" for u
    proof -
      have "u \<noteq> next_span pc"
        using that fresh by blast
      then show ?thesis
        by (simp add: split(3) split_span_sel take_free_def)
    qed
    then show ?thesis
      using split_ok [OF assms(1) s assms(3) split(2)] split(3) ok(2) s(1) by auto
  next
    case mmap
    let ?p = "ptr div page_size sys"
    have "0 < ?p" "\<forall>(q, k) \<in> set (mapped pc). {?p ..< ?p + n} \<inter> {q ..< q + k} = {}"
      using assms(2) mmap(1) unfolding mmap_fresh_def by (fastforce elim!: dvdE, blast)
    from new_used_ok [OF assms(1) mmap(2) assms(3) this] show ?thesis
      using fresh unfolding mmap(3) by (auto simp: mmap(2))
  qed
qed

lemma allocate_span_None: "allocate_span sys n pc = (None, pc') \<Longrightarrow> pc' = pc"
  by (auto simp: allocate_span_def Let_def split: option.splits list.splits prod.splits)

end
