(* ===== verification/CC_Pool_Facts.thy ===== *)
theory CC_Pool_Facts
  imports CC_Pool_Pages
begin

text \<open>
  The blocks of the memory pool.  Every block of a span that serves a size class has one owner: the list of its
  span, the list of a thread, or the client.  The operations of the central cache and of the thread caches move
  blocks between owners, so two blocks a client holds never overlap, and a span whose blocks are all back goes
  back to the page cache.
\<close>

section \<open>Blocks and their owners\<close>

datatype owner = In_Span | In_Thread nat | Client

definition blocks :: "os \<Rightarrow> nat \<Rightarrow> Span \<Rightarrow> nat set" where
  "blocks sys c sp =
     (\<lambda>i. page_id sp * page_size sys + i * get_size c) ` {..< num_pages sp * page_size sys div get_size c}"

definition class_blocks :: "os \<Rightarrow> pool \<Rightarrow> nat \<Rightarrow> nat set" where
  "class_blocks sys st c = (\<Union>s \<in> set (span_lists st c). blocks sys c (spans (pages st) s))"

definition span_ok :: "os \<Rightarrow> memory \<Rightarrow> (nat \<Rightarrow> owner) \<Rightarrow> nat \<Rightarrow> Span \<Rightarrow> bool" where
  "span_ok sys m own c sp \<longleftrightarrow> total_objects sp = num_pages sp * page_size sys div get_size c \<and>
     (\<exists>xs. chain m (free_list sp) xs \<and> distinct xs \<and> free_count sp = length xs \<and> set xs = {b \<in> blocks sys c sp. own b = In_Span})"

definition thread_ok :: "memory \<Rightarrow> FreeList \<Rightarrow> (nat \<Rightarrow> owner) \<Rightarrow> nat set \<Rightarrow> nat \<Rightarrow> bool" where
  "thread_ok m fl own B t \<longleftrightarrow> (\<exists>xs. stack m fl xs \<and> set xs = {b \<in> B. own b = In_Thread t})"

definition used_spans :: "pool \<Rightarrow> nat set" where
  "used_spans st = (\<Union>c \<in> {..<kNumClasses}. set (span_lists st c))"

definition pool_inv :: "os \<Rightarrow> pool \<Rightarrow> (nat \<Rightarrow> owner) \<Rightarrow> bool" where
  "pool_inv sys st own \<longleftrightarrow> pc_ok (pages st) (used_spans st) \<and> (\<forall>c < kNumClasses. distinct (span_lists st c)) \<and>
     (\<forall>c < kNumClasses. \<forall>d < kNumClasses. c \<noteq> d \<longrightarrow> set (span_lists st c) \<inter> set (span_lists st d) = {}) \<and>
     (\<forall>c < kNumClasses. \<forall>s \<in> set (span_lists st c). span_ok sys (mem st) own c (spans (pages st) s)) \<and>
     (\<forall>c < kNumClasses. \<forall>t. thread_ok (mem st) (free_lists st t c) own (class_blocks sys st c) t)"

definition held_blocks :: "os \<Rightarrow> pool \<Rightarrow> (nat \<Rightarrow> owner) \<Rightarrow> nat \<Rightarrow> nat set" where
  "held_blocks sys st own c = (if c < kNumClasses then {b \<in> class_blocks sys st c. own b = Client} else {})"

text \<open>No span in the lists is wholly free.\<close>

definition busy :: "pool \<Rightarrow> bool" where
  "busy st \<longleftrightarrow> (\<forall>s \<in> used_spans st. free_count (spans (pages st) s) < total_objects (spans (pages st) s))"

text \<open>The state \<open>st\<close> of the pool, while clients hold the blocks \<open>H c\<close> of each class \<open>c\<close>.\<close>

definition pool_ok :: "os \<Rightarrow> pool \<Rightarrow> (nat \<Rightarrow> nat set) \<Rightarrow> bool" where
  "pool_ok sys st H \<longleftrightarrow> busy st \<and> (\<exists>own. pool_inv sys st own \<and> H = held_blocks sys st own)"

subsection \<open>Where blocks are\<close>

lemma used_spansI [intro]: "s \<in> set (span_lists st c) \<Longrightarrow> c < kNumClasses \<Longrightarrow> s \<in> used_spans st"
  by (auto simp: used_spans_def)

lemma used_spans_insert:
  "c < kNumClasses \<Longrightarrow> span_lists st' = (span_lists st)(c := s # span_lists st c) \<Longrightarrow> used_spans st' = insert s (used_spans st)"
  by (auto simp: used_spans_def split: if_splits)

lemma block_room:
  assumes "x \<in> blocks sys c sp" "c < kNumClasses"
  shows "page_id sp * page_size sys \<le> x" "x + get_size c \<le> (page_id sp + num_pages sp) * page_size sys"
proof -
  let ?room = "num_pages sp * page_size sys"
  obtain i where i: "x = page_id sp * page_size sys + i * get_size c" "i < ?room div get_size c"
    using assms(1) by (auto simp: blocks_def)
  have "Suc i * get_size c \<le> ?room div get_size c * get_size c"
    using i(2) by (intro mult_le_mono1) simp
  also have "\<dots> \<le> ?room"
    by simp
  finally show "page_id sp * page_size sys \<le> x" "x + get_size c \<le> (page_id sp + num_pages sp) * page_size sys"
    using i(1) by (simp_all add: algebra_simps)
qed

lemma block_page:
  assumes "x \<in> blocks sys c (spans pc s)" "c < kNumClasses" "x \<le> y" "y < x + get_size c"
  shows "y div page_size sys \<in> extent pc s"
proof -
  let ?sp = "spans pc s"
  have y: "page_id ?sp * page_size sys \<le> y" "y < (page_id ?sp + num_pages ?sp) * page_size sys"
    using block_room [OF assms(1,2)] assms(3,4) by linarith+
  then have "page_size sys \<noteq> 0"
    by (metis mult_0_right not_less_zero)
  then show ?thesis
    using y by (simp add: extent_def less_eq_div_iff_mult_less_eq div_less_iff_less_mult)
qed

lemma block_apart:
  assumes "x \<in> blocks sys c sp" "y \<in> blocks sys c sp" "x \<noteq> y"
  shows "x + get_size c \<le> y \<or> y + get_size c \<le> x"
proof -
  let ?cs = "get_size c"
  obtain i j where ij: "x = page_id sp * page_size sys + i * ?cs" "y = page_id sp * page_size sys + j * ?cs"
    using assms(1,2) by (auto simp: blocks_def)
  have "Suc i * ?cs \<le> j * ?cs" if "i < j"
    using that by (intro mult_le_mono1) simp
  moreover have "Suc j * ?cs \<le> i * ?cs" if "j < i"
    using that by (intro mult_le_mono1) simp
  moreover have "i \<noteq> j"
    using assms(3) ij by auto
  ultimately show ?thesis
    using ij by (auto simp: algebra_simps dest: nat_neq_iff [THEN iffD1])
qed

lemma pool_invD:
  assumes "pool_inv sys st own"
  shows "pc_ok (pages st) (used_spans st)" "c < kNumClasses \<Longrightarrow> distinct (span_lists st c)"
    "c < kNumClasses \<Longrightarrow> s \<in> set (span_lists st c) \<Longrightarrow> span_ok sys (mem st) own c (spans (pages st) s)"
    "c < kNumClasses \<Longrightarrow> thread_ok (mem st) (free_lists st t c) own (class_blocks sys st c) t"
    "c < kNumClasses \<Longrightarrow> d < kNumClasses \<Longrightarrow> s \<in> set (span_lists st c) \<Longrightarrow> s \<in> set (span_lists st d) \<Longrightarrow> c = d"
  using assms unfolding pool_inv_def by (simp_all, blast)

text \<open>A byte belongs to one block at most.\<close>

lemma span_of_page:
  assumes "pool_inv sys st own" "c < kNumClasses" "d < kNumClasses" "s \<in> set (span_lists st c)" "t \<in> set (span_lists st d)"
    "p \<in> extent (pages st) s" "p \<in> extent (pages st) t"
  shows "s = t" "c = d"
proof -
  note ok = pc_ok_parts [OF pool_invD(1) [OF assms(1)]]
  show st: "s = t"
    using extent_unique [OF ok(3) _ _ assms(6,7)] assms(2-5) by blast
  show "c = d"
    using pool_invD(5) [OF assms(1-4)] assms(5) st by simp
qed

lemma block_owner_unique:
  assumes "pool_inv sys st own" "c < kNumClasses" "d < kNumClasses" "s \<in> set (span_lists st c)" "t \<in> set (span_lists st d)"
    "x \<in> blocks sys c (spans (pages st) s)" "y \<in> blocks sys d (spans (pages st) t)" "x \<le> z" "z < x + get_size c" "y \<le> z" "z < y + get_size d"
  shows "s = t" "c = d" "x = y"
proof -
  show e: "s = t" "c = d"
    using span_of_page [OF assms(1-5)] block_page assms(6-11) assms(2,3) by blast+
  show "x = y"
    using block_apart [of x sys c "spans (pages st) s" y] assms(6-11) e by force
qed

lemma class_of_block:
  assumes "pool_inv sys st own" "c < kNumClasses" "d < kNumClasses" "x \<in> class_blocks sys st c" "x \<in> class_blocks sys st d"
  shows "c = d"
proof -
  obtain s t where "s \<in> set (span_lists st c)" "x \<in> blocks sys c (spans (pages st) s)"
    "t \<in> set (span_lists st d)" "x \<in> blocks sys d (spans (pages st) t)"
    using assms(4,5) by (auto simp: class_blocks_def)
  then show ?thesis
    using block_owner_unique(2) [OF assms(1-3), of s t x x x] assms(2,3) by simp
qed

lemma block_pos:
  assumes "pool_inv sys st own" "c < kNumClasses" "0 < page_size sys" "x \<in> class_blocks sys st c"
  shows "0 < x"
proof -
  obtain s where s: "s \<in> set (span_lists st c)" "x \<in> blocks sys c (spans (pages st) s)"
    using assms(4) by (auto simp: class_blocks_def)
  then have "0 < page_id (spans (pages st) s)"
    using extents_okD(3) [OF pc_ok_parts(3) [OF pool_invD(1) [OF assms(1)]], of s] assms(2) by blast
  then show ?thesis
    using block_room(1) [OF s(2) assms(2)] assms(3) by (cases x) auto
qed

text \<open>What changes of the memory and of the owners leave a list as it is.\<close>

lemma span_ok_frame:
  assumes "span_ok sys m own c sp" "\<And>x. x \<in> blocks sys c sp \<Longrightarrow> own' x = In_Span \<longleftrightarrow> own x = In_Span"
    "\<And>x. x \<in> blocks sys c sp \<Longrightarrow> own x = In_Span \<Longrightarrow> m' x = m x"
  shows "span_ok sys m' own' c sp"
proof -
  have e: "{b \<in> blocks sys c sp. own' b = In_Span} = {b \<in> blocks sys c sp. own b = In_Span}"
    using assms(2) by blast
  obtain xs where xs: "chain m (free_list sp) xs" "distinct xs" "free_count sp = length xs" "set xs = {b \<in> blocks sys c sp. own b = In_Span}"
    using assms(1) by (auto simp: span_ok_def)
  then have "chain m' (free_list sp) xs"
    using chain_cong [of xs m' m] assms(3) by auto
  then show ?thesis
    using assms(1) xs unfolding span_ok_def e by blast
qed

lemma thread_ok_frame:
  assumes "thread_ok m fl own B t" "\<And>x. x \<in> B' \<and> own' x = In_Thread t \<longleftrightarrow> x \<in> B \<and> own x = In_Thread t"
    "\<And>x. x \<in> B \<Longrightarrow> own x = In_Thread t \<Longrightarrow> m' x = m x"
  shows "thread_ok m' fl own' B' t"
proof -
  have e: "{b \<in> B'. own' b = In_Thread t} = {b \<in> B. own b = In_Thread t}"
    using assms(2) by blast
  obtain xs where xs: "stack m fl xs" "set xs = {b \<in> B. own b = In_Thread t}"
    using assms(1) by (auto simp: thread_ok_def)
  then have "stack m' fl xs"
    using chain_cong [of xs m' m] assms(3) by (auto simp: stack_def)
  then show ?thesis
    using xs(2) unfolding thread_ok_def e by blast
qed

text \<open>A block changes hands: what the clients hold then, and what is left to show of the lists.\<close>

lemma held_upd:
  assumes "pool_inv sys st own" "c < kNumClasses" "obj \<in> class_blocks sys st c" "\<And>d. d < kNumClasses \<Longrightarrow> class_blocks sys st' d = class_blocks sys st d"
  shows "held_blocks sys st' (own(obj := o')) =
    (held_blocks sys st own)(c := if o' = Client then insert obj (held_blocks sys st own c) else held_blocks sys st own c - {obj})"
    (is "?l = ?r")
proof
  fix d
  have "d \<noteq> c \<Longrightarrow> d < kNumClasses \<Longrightarrow> obj \<notin> class_blocks sys st d"
    using class_of_block [OF assms(1,2) _ assms(3)] by blast
  then show "?l d = ?r d"
    using assms(2-4) by (cases "d = c"; cases "d < kNumClasses") (auto simp: held_blocks_def)
qed

lemma move_inv:
  assumes inv: "pool_inv sys st own" and c: "c < kNumClasses" "obj \<in> class_blocks sys st c"
    and pc: "pc_ok (pages st') (used_spans st)" "span_lists st' = span_lists st"
    "\<And>s. s \<in> used_spans st \<Longrightarrow> page_id (spans (pages st') s) = page_id (spans (pages st) s) \<and>
       num_pages (spans (pages st') s) = num_pages (spans (pages st) s)"
    and m: "own obj = Client \<or> mem st' = mem st" "\<And>a. a \<noteq> obj \<Longrightarrow> mem st' a = mem st a"
    and sp: "\<And>s. s \<in> set (span_lists st c) \<Longrightarrow> (own obj = In_Span \<or> o' = In_Span) \<and> obj \<in> blocks sys c (spans (pages st) s) \<Longrightarrow>
       span_ok sys (mem st') (own(obj := o')) c (spans (pages st') s)"
    "\<And>d s. d < kNumClasses \<Longrightarrow> s \<in> set (span_lists st d) \<Longrightarrow>
       \<not> ((own obj = In_Span \<or> o' = In_Span) \<and> obj \<in> blocks sys d (spans (pages st) s)) \<Longrightarrow> spans (pages st') s = spans (pages st) s"
    and th: "\<And>t. own obj = In_Thread t \<or> o' = In_Thread t \<Longrightarrow> thread_ok (mem st') (free_lists st' t c) (own(obj := o')) (class_blocks sys st c) t"
    "\<And>t d. \<not> (d = c \<and> (own obj = In_Thread t \<or> o' = In_Thread t)) \<Longrightarrow> free_lists st' t d = free_lists st t d"
  shows "pool_inv sys st' (own(obj := o'))" "\<And>d. d < kNumClasses \<Longrightarrow> class_blocks sys st' d = class_blocks sys st d"
proof -
  have b: "blocks sys d (spans (pages st') s) = blocks sys d (spans (pages st) s)" if "d < kNumClasses" "s \<in> set (span_lists st d)" for d s
    using pc(3) [OF used_spansI [OF that(2,1)]] by (simp add: blocks_def)
  then show cb: "class_blocks sys st' d = class_blocks sys st d" if "d < kNumClasses" for d
    using that by (simp add: class_blocks_def pc(2))
  have other: "d = c" if "d < kNumClasses" "obj \<in> class_blocks sys st d" for d
    using class_of_block [OF inv that(1) c(1) that(2) c(2)] .
  have in_class: "obj \<in> class_blocks sys st d" if "s \<in> set (span_lists st d)" "obj \<in> blocks sys d (spans (pages st) s)" for s d
    using that by (auto simp: class_blocks_def)
  have keep: "mem st' x = mem st x" if "own x \<noteq> Client" for x
    using that m by (cases "x = obj") auto
  have "span_ok sys (mem st') (own(obj := o')) d (spans (pages st') s)" if d: "d < kNumClasses" "s \<in> set (span_lists st d)" for d s
  proof (cases "(own obj = In_Span \<or> o' = In_Span) \<and> obj \<in> blocks sys d (spans (pages st) s)")
    case True
    then show ?thesis
      using sp(1) other in_class d by blast
  next
    case False
    have "span_ok sys (mem st') (own(obj := o')) d (spans (pages st) s)"
      using keep False by (intro span_ok_frame [OF pool_invD(3) [OF inv d]]) auto
    then show ?thesis
      using sp(2) [OF d False] by simp
  qed
  moreover have "thread_ok (mem st') (free_lists st' t d) (own(obj := o')) (class_blocks sys st' d) t" if d: "d < kNumClasses" for d t
  proof (cases "d = c \<and> (own obj = In_Thread t \<or> o' = In_Thread t)")
    case True
    then show ?thesis
      using th(1) cb d by simp
  next
    case False
    have "thread_ok (mem st') (free_lists st t d) (own(obj := o')) (class_blocks sys st d) t"
      using keep False other [OF d] by (intro thread_ok_frame [OF pool_invD(4) [OF inv d]]) auto
    then show ?thesis
      using th(2) [OF False] cb [OF d] by simp
  qed
  ultimately show "pool_inv sys st' (own(obj := o'))"
    using inv pc(1,2) unfolding pool_inv_def used_spans_def by simp
qed

section \<open>Thread lists\<close>

lemma thread_push_sel [simp]:
  "pages (thread_push t c obj st) = pages st" "span_lists (thread_push t c obj st) = span_lists st"
  "mem (thread_push t c obj st) = (mem st)(obj := fl_head (free_lists st t c))"
  "free_lists (thread_push t c obj st) =
     (free_lists st)(t := (free_lists st t)(c := \<lparr>fl_head = obj, fl_size = fl_size (free_lists st t c) + 1\<rparr>))"
  by (simp_all add: thread_push_def fl_push_def)

lemma thread_pop_sel [simp]:
  "pages (snd (thread_pop t c st)) = pages st" "span_lists (snd (thread_pop t c st)) = span_lists st"
  "mem (snd (thread_pop t c st)) = mem st"
  "free_lists (snd (thread_pop t c st)) =
     (free_lists st)(t := (free_lists st t)(c := snd (fl_pop (mem st) (free_lists st t c))))"
  "fst (thread_pop t c st) = fl_head (free_lists st t c)"
  by (simp_all add: thread_pop_def case_prod_unfold fl_pop_def)

lemma thread_used [simp]:
  "used_spans (thread_push t c obj st) = used_spans st" "used_spans (snd (thread_pop t c st)) = used_spans st"
  by (simp_all add: used_spans_def)

lemma held_blocksD: "x \<in> held_blocks sys st own c \<Longrightarrow> c < kNumClasses \<and> x \<in> class_blocks sys st c \<and> own x = Client"
  by (simp add: held_blocks_def split: if_splits)

lemma thread_push_ok:
  assumes "pool_ok sys st H" "0 < page_size sys" "obj \<in> H c"
  shows "pool_ok sys (thread_push t c obj st) (H(c := H c - {obj}))"
proof -
  let ?st = "thread_push t c obj st"
  obtain own where own: "pool_inv sys st own" "H = held_blocks sys st own" "busy st"
    using assms(1) by (auto simp: pool_ok_def)
  then have c: "c < kNumClasses" "obj \<in> class_blocks sys st c" "own obj = Client"
    using assms(3) held_blocksD by auto
  obtain xs where xs: "stack (mem st) (free_lists st t c) xs" "set xs = {b \<in> class_blocks sys st c. own b = In_Thread t}"
    using pool_invD(4) [OF own(1) c(1), of t] by (auto simp: thread_ok_def)
  have "stack (mem ?st) (free_lists ?st t c) (obj # xs)"
    using stack_push [OF xs(1), of obj] xs(2) c(3) block_pos [OF own(1) c(1) assms(2) c(2)] by (simp add: fl_push_def)
  then have "thread_ok (mem ?st) (free_lists ?st t c) (own(obj := In_Thread t)) (class_blocks sys st c) t"
    unfolding thread_ok_def using xs(2) c(2,3) by (intro exI [of _ "obj # xs"]) auto
  then have "pool_inv sys ?st (own(obj := In_Thread t))" "\<And>d. d < kNumClasses \<Longrightarrow> class_blocks sys ?st d = class_blocks sys st d"
    using c pool_invD(1) [OF own(1)] by (intro move_inv [OF own(1) c(1,2), where st' = ?st]; auto)+
  then show ?thesis
    unfolding pool_ok_def own(2) using held_upd [OF own(1) c(1,2), of ?st "In_Thread t"]
      own(3) by (intro conjI exI [of _ "own(obj := In_Thread t)"]) (simp_all add: busy_def)
qed

lemma thread_pop_ok:
  assumes "pool_ok sys st H" "c < kNumClasses" "fl_head (free_lists st t c) \<noteq> 0" "thread_pop t c st = (obj, st')"
  shows "pool_ok sys st' (H(c := insert obj (H c)))" "obj \<noteq> 0" "obj \<notin> H c"
    "fl_size (free_lists st' t c) = fl_size (free_lists st t c) - 1"
proof -
  obtain own where own: "pool_inv sys st own" "H = held_blocks sys st own" "busy st"
    using assms(1) by (auto simp: pool_ok_def)
  have st': "st' = snd (thread_pop t c st)" "obj = fl_head (free_lists st t c)"
    using assms(4) thread_pop_sel(5) [of t c st] by simp_all
  obtain xs where xs: "stack (mem st) (free_lists st t c) xs" "set xs = {b \<in> class_blocks sys st c. own b = In_Thread t}"
    using pool_invD(4) [OF own(1) assms(2), of t] by (auto simp: thread_ok_def)
  then obtain ys where ys: "xs = obj # ys"
    using assms(3) by (cases xs) (auto simp: stack_def st'(2))
  then have c: "obj \<in> class_blocks sys st c" "own obj = In_Thread t"
    using xs(2) by auto
  have "stack (mem st') (free_lists st' t c) ys"
    using stack_pop(2) [OF xs(1)] by (simp add: st'(1) ys)
  then have "thread_ok (mem st') (free_lists st' t c) (own(obj := Client)) (class_blocks sys st c) t"
    unfolding thread_ok_def using xs ys by (intro exI [of _ ys]) (auto simp: stack_def)
  then have "pool_inv sys st' (own(obj := Client))" "\<And>d. d < kNumClasses \<Longrightarrow> class_blocks sys st' d = class_blocks sys st d"
    using c pool_invD(1) [OF own(1)] by (intro move_inv [OF own(1) assms(2) c(1), where st' = st']; auto simp: st'(1))+
  then show "pool_ok sys st' (H(c := insert obj (H c)))"
    unfolding pool_ok_def own(2) using held_upd [OF own(1) assms(2) c(1), of st' Client]
      own(3) by (intro conjI exI [of _ "own(obj := Client)"]) (simp_all add: busy_def st'(1))
  show "obj \<noteq> 0" "obj \<notin> H c" "fl_size (free_lists st' t c) = fl_size (free_lists st t c) - 1"
    using assms(3) c by (auto simp: st' own(2) held_blocks_def fl_pop_def)
qed

section \<open>Spans of a class\<close>

lemma carve_ok:
  assumes "0 < cs" "0 < ptr" "j \<le> room div cs" "chain m first xs" "distinct xs" "set xs = (\<lambda>i. ptr + i * cs) ` {..<j}"
    "carve cs room ptr (j * cs) (m, first, j) = (m', first', n)"
  shows "n = room div cs \<and> (\<forall>a. a \<notin> (\<lambda>i. ptr + i * cs) ` {..< room div cs} \<longrightarrow> m' a = m a) \<and>
    (\<exists>ys. chain m' first' ys \<and> distinct ys \<and> set ys = (\<lambda>i. ptr + i * cs) ` {..< room div cs})"
  using assms(3-7)
proof (induction "room div cs - j" arbitrary: j m first xs)
  case 0
  then have "j = room div cs" "\<not> j * cs + cs \<le> room"
    using assms(1) dividend_less_div_times [of cs room] by auto
  then show ?case
    using 0 by (subst (asm) carve.simps) auto
next
  case (Suc k)
  let ?x = "ptr + j * cs"
  have "Suc j * cs \<le> room div cs * cs"
    using Suc(2) by (intro mult_le_mono1) linarith
  then have "Suc j * cs \<le> room"
    by (rule order_trans) simp
  then have "j * cs + cs \<le> room"
    by (simp add: add.commute)
  then have step: "carve cs room ptr (Suc j * cs) (m(?x := first), ?x, Suc j) = (m', first', n)"
    using Suc(7) assms(1) by (subst (asm) carve.simps) (simp add: add.commute)
  have new: "?x \<notin> set xs"
    using Suc(6) assms(1) by auto
  then have ch: "chain (m(?x := first)) ?x (?x # xs)"
    using Suc(4) assms(2) by simp
  have d: "distinct (?x # xs)" "set (?x # xs) = (\<lambda>i. ptr + i * cs) ` {..<Suc j}"
    using Suc(5,6) new by (auto simp: lessThan_Suc)
  have "k = room div cs - Suc j" "Suc j \<le> room div cs"
    using Suc(2) by linarith+
  then have "n = room div cs \<and> (\<forall>a. a \<notin> (\<lambda>i. ptr + i * cs) ` {..< room div cs} \<longrightarrow> m' a = (m(?x := first)) a) \<and>
      (\<exists>ys. chain m' first' ys \<and> distinct ys \<and> set ys = (\<lambda>i. ptr + i * cs) ` {..< room div cs})"
    using Suc(1) ch d step by blast
  moreover have "?x \<in> (\<lambda>i. ptr + i * cs) ` {..< room div cs}"
    using Suc(2) by (intro imageI) simp
  ultimately show ?case
    by auto
qed

text \<open>The page cache looks at the pages of a span only.\<close>

lemma pc_ok_spans:
  assumes "\<And>u. page_id (f u) = page_id (spans pc u) \<and> num_pages (f u) = num_pages (spans pc u)"
  shows "pc_ok (pc\<lparr>spans := f\<rparr>) used = pc_ok pc used"
proof -
  have "lst (pc\<lparr>spans := f\<rparr>) = lst pc" "free_set (pc\<lparr>spans := f\<rparr>) = free_set pc" "extent (pc\<lparr>spans := f\<rparr>) = extent pc"
    using assms by (simp_all add: lst_def free_set_def extent_def fun_eq_iff)
  then show ?thesis
    using assms by (simp add: pc_ok_def lists_ok_def extents_ok_def page_map_ok_def merged_def)
qed

lemma upd_span_sel [simp]:
  "mem (upd_span s f st) = mem st" "span_lists (upd_span s f st) = span_lists st" "free_lists (upd_span s f st) = free_lists st"
  "spans (pages (upd_span s f st)) = (spans (pages st))(s := f (spans (pages st) s))"
  by (simp_all add: upd_span_def)

lemma upd_span_pages:
  assumes "\<And>sp. page_id (f sp) = page_id sp \<and> num_pages (f sp) = num_pages sp"
  shows "pc_ok (pages (upd_span s f st)) used = pc_ok (pages st) used"
  using assms by (simp add: upd_span_def pc_ok_spans)

text \<open>A block of the span \<open>s\<close> moves into or out of its list.\<close>

lemma span_move:
  assumes inv: "pool_inv sys st own" and c: "c < kNumClasses" "s \<in> set (span_lists st c)" "obj \<in> blocks sys c (spans (pages st) s)"
    and move: "(own obj, o') \<in> {(In_Span, Client), (Client, In_Span)}"
    and st': "st' = upd_span s f (st\<lparr>mem := m\<rparr>)" "\<And>a. a \<noteq> obj \<Longrightarrow> m a = mem st a" "own obj = Client \<or> m = mem st"
    and f: "\<And>sp. page_id (f sp) = page_id sp \<and> num_pages (f sp) = num_pages sp"
    and sp: "span_ok sys m (own(obj := o')) c (f (spans (pages st) s))"
  shows "pool_inv sys st' (own(obj := o'))"
    "held_blocks sys st' (own(obj := o')) = (held_blocks sys st own)
       (c := if o' = Client then insert obj (held_blocks sys st own c) else held_blocks sys st own c - {obj})"
proof -
  have obj: "obj \<in> class_blocks sys st c"
    using c by (auto simp: class_blocks_def)
  have sp': "span_ok sys m (own(obj := o')) c (spans (pages st') u)"
    if "u \<in> set (span_lists st c)" "obj \<in> blocks sys c (spans (pages st) u)" for u
    using block_owner_unique(1) [OF inv c(1,1) that(1) c(2) that(2) c(3), of obj] c(1) sp by (simp add: st'(1))
  have same: "spans (pages st') u = spans (pages st) u"
    if "d < kNumClasses" "u \<in> set (span_lists st d)" "obj \<notin> blocks sys d (spans (pages st) u)" for d u
  proof -
    have "u \<noteq> s"
      using pool_invD(5) [OF inv c(1) that(1) c(2)] that c(3) by blast
    then show ?thesis
      by (simp add: st'(1))
  qed
  have pc: "pc_ok (pages st') (used_spans st)"
    using pool_invD(1) [OF inv] f by (simp add: st'(1) upd_span_pages)
  have fixed: "page_id (spans (pages st') u) = page_id (spans (pages st) u) \<and> num_pages (spans (pages st') u) = num_pages (spans (pages st) u)" for u
    using f by (simp add: st'(1))
  have sel: "mem st' = m" "span_lists st' = span_lists st" "free_lists st' = free_lists st"
    by (simp_all add: st'(1))
  have inv': "pool_inv sys st' (own(obj := o'))" "\<And>d. d < kNumClasses \<Longrightarrow> class_blocks sys st' d = class_blocks sys st d"
    by (intro move_inv [OF inv c(1) obj pc sel(2) fixed, where o' = o']; use move st'(2,3) sp' same sel in auto)+
  then show "pool_inv sys st' (own(obj := o'))" "held_blocks sys st' (own(obj := o')) = (held_blocks sys st own)
      (c := if o' = Client then insert obj (held_blocks sys st own c) else held_blocks sys st own c - {obj})"
    using held_upd [OF inv c(1) obj inv'(2)] by blast+
qed

lemma take_object_ok:
  assumes "pool_inv sys st own" "c < kNumClasses" "s \<in> set (span_lists st c)" "0 < free_count (spans (pages st) s)"
    "take_object s st = (obj, st')"
  shows "pool_inv sys st' (own(obj := Client))"
    "held_blocks sys st' (own(obj := Client)) = (held_blocks sys st own)(c := insert obj (held_blocks sys st own c))"
    "obj \<noteq> 0" "obj \<notin> held_blocks sys st own c"
proof -
  let ?sp = "spans (pages st) s"
  have st': "obj = free_list ?sp" "st' = upd_span s (\<lambda>sp. sp\<lparr>free_list := mem st obj, free_count := free_count sp - 1\<rparr>) st"
    using assms(5) by (auto simp: take_object_def Let_def)
  obtain xs where xs: "chain (mem st) (free_list ?sp) xs" "distinct xs" "free_count ?sp = length xs" "set xs = {b \<in> blocks sys c ?sp. own b = In_Span}"
    and total: "total_objects ?sp = num_pages ?sp * page_size sys div get_size c"
    using pool_invD(3) [OF assms(1-3)] by (auto simp: span_ok_def)
  then obtain ys where ys: "xs = obj # ys"
    using assms(4) by (cases xs) (auto simp: st'(1))
  then have obj: "obj \<in> blocks sys c ?sp" "own obj = In_Span" "obj \<in> class_blocks sys st c"
    using xs(4) assms(3) by (auto simp: class_blocks_def)
  let ?f = "\<lambda>sp. sp\<lparr>free_list := mem st obj, free_count := free_count sp - 1\<rparr>"
  have "span_ok sys (mem st) (own(obj := Client)) c (?f ?sp)"
    unfolding span_ok_def using xs ys total by (intro conjI exI [of _ ys]) (auto simp: blocks_def)
  then show "pool_inv sys st' (own(obj := Client))"
    "held_blocks sys st' (own(obj := Client)) = (held_blocks sys st own)(c := insert obj (held_blocks sys st own c))"
    using span_move [OF assms(1-3) obj(1), of Client st' ?f "mem st"] obj(2) st'(2) by simp_all
  show "obj \<noteq> 0" "obj \<notin> held_blocks sys st own c"
    using xs(1) ys obj(2) by (auto simp: held_blocks_def)
qed

lemma span_pages_room:
  assumes "0 < page_size sys"
  shows "get_size c \<le> span_pages sys c * page_size sys" "0 < span_pages sys c"
proof -
  let ?a = "get_size c * 256" and ?p = "page_size sys"
  have "?a + ?p - 1 = (?a + ?p - 1) div ?p * ?p + (?a + ?p - 1) mod ?p"
    by simp
  moreover have "(?a + ?p - 1) mod ?p < ?p"
    using assms by simp
  ultimately have "?a \<le> (?a + ?p - 1) div ?p * ?p"
    by linarith
  then show "get_size c \<le> span_pages sys c * ?p" "0 < span_pages sys c"
    by (auto simp: span_pages_def Let_def)
qed

lemma card_blocks:
  assumes "c < kNumClasses"
  shows "card (blocks sys c sp) = num_pages sp * page_size sys div get_size c" "finite (blocks sys c sp)"
proof -
  have "inj_on (\<lambda>i. page_id sp * page_size sys + i * get_size c) {..< num_pages sp * page_size sys div get_size c}"
    using get_size_pos [OF assms] by (auto simp: inj_on_def)
  then show "card (blocks sys c sp) = num_pages sp * page_size sys div get_size c" "finite (blocks sys c sp)"
    by (simp_all add: blocks_def card_image)
qed

lemma carve_span:
  assumes "0 < page_size sys" "0 < page_id sp" "c < kNumClasses"
    "carve (get_size c) (num_pages sp * page_size sys) (page_id sp * page_size sys) 0 (m, 0, 0) = (m', first, n)"
  shows "n = num_pages sp * page_size sys div get_size c" "\<And>a. a \<notin> blocks sys c sp \<Longrightarrow> m' a = m a"
    "\<exists>ys. chain m' first ys \<and> distinct ys \<and> length ys = n \<and> set ys = blocks sys c sp"
proof -
  let ?room = "num_pages sp * page_size sys"
  have r: "n = ?room div get_size c \<and> (\<forall>a. a \<notin> blocks sys c sp \<longrightarrow> m' a = m a) \<and>
      (\<exists>ys. chain m' first ys \<and> distinct ys \<and> set ys = blocks sys c sp)"
    using carve_ok [of "get_size c" "page_id sp * page_size sys" 0 ?room m 0 "[]" m' first n] assms by (simp add: blocks_def)
  have "card (blocks sys c sp) = ?room div get_size c"
    by (rule card_blocks [OF assms(3)])
  with r show "n = ?room div get_size c" "\<And>a. a \<notin> blocks sys c sp \<Longrightarrow> m' a = m a"
    "\<exists>ys. chain m' first ys \<and> distinct ys \<and> length ys = n \<and> set ys = blocks sys c sp"
    by (auto simp: distinct_card [symmetric])
qed

lemma new_span_inv:
  assumes inv: "pool_inv sys st own" and c: "c < kNumClasses"
    and pc: "pc_ok (pages st') (insert s (used_spans st))" "s \<notin> used_spans st"
    and lists: "span_lists st' = (span_lists st)(c := s # span_lists st c)" "free_lists st' = free_lists st"
    and same: "\<And>u. u \<in> used_spans st \<Longrightarrow> spans (pages st') u = spans (pages st) u"
    and B: "B = blocks sys c (spans (pages st') s)" "\<And>a. a \<notin> B \<Longrightarrow> mem st' a = mem st a"
    and sp: "span_ok sys (mem st') (\<lambda>x. In_Span) c (spans (pages st') s)"
  shows "pool_inv sys st' (\<lambda>x. if x \<in> B then In_Span else own x) \<and>
    held_blocks sys st' (\<lambda>x. if x \<in> B then In_Span else own x) = held_blocks sys st own"
proof -
  let ?own = "\<lambda>x. if x \<in> B then In_Span else own x"
  have blk: "blocks sys d (spans (pages st') u) = blocks sys d (spans (pages st) u)" if "d < kNumClasses" "u \<in> set (span_lists st d)" for d u
    using same [OF used_spansI [OF that(2,1)]] by simp
  have apart: "x \<notin> B" if d: "d < kNumClasses" "x \<in> class_blocks sys st d" for x d
  proof
    assume "x \<in> B"
    obtain u where u: "u \<in> set (span_lists st d)" "x \<in> blocks sys d (spans (pages st') u)"
      using d blk [OF d(1)] by (auto simp: class_blocks_def)
    have "x div page_size sys \<in> extent (pages st') u" "x div page_size sys \<in> extent (pages st') s"
      using block_page u(2) d(1) \<open>x \<in> B\<close> B(1) c by (metis get_size_pos le_refl less_add_same_cancel1)+
    then have "u = s"
      using extent_unique [OF pc_ok_parts(3) [OF pc(1)]] u(1) d(1) by blast
    then show False
      using u(1) d(1) pc(2) by blast
  qed
  have cb: "class_blocks sys st' d = class_blocks sys st d \<union> (if d = c then B else {})" if "d < kNumClasses" for d
    using blk [OF that] by (auto simp: class_blocks_def lists(1) B(1))
  have us: "used_spans st' = insert s (used_spans st)"
    using used_spans_insert [OF c lists(1)] .
  have new: "s \<notin> set (span_lists st d)" if "d < kNumClasses" for d
    using that pc(2) by blast
  have "span_ok sys (mem st') ?own d (spans (pages st') u)" if d: "d < kNumClasses" "u \<in> set (span_lists st' d)" for d u
  proof (cases "u \<in> set (span_lists st d)")
    case True
    have "x \<in> class_blocks sys st d" if "x \<in> blocks sys d (spans (pages st) u)" for x
      using that True by (auto simp: class_blocks_def)
    then have "span_ok sys (mem st') ?own d (spans (pages st) u)"
      using apart [OF d(1)] B(2) by (intro span_ok_frame [OF pool_invD(3) [OF inv d(1) True]]) auto
    then show ?thesis
      using same [OF used_spansI [OF True d(1)]] by simp
  next
    case False
    then have "u = s" "d = c"
      using d(2) by (auto simp: lists(1) split: if_splits)
    then show ?thesis
      using B(1) by (simp add: span_ok_frame [OF sp])
  qed
  moreover have "thread_ok (mem st') (free_lists st' t d) ?own (class_blocks sys st' d) t" if d: "d < kNumClasses" for d t
    using apart [OF d] B(2) unfolding lists(2) cb [OF d] by (intro thread_ok_frame [OF pool_invD(4) [OF inv d]]) auto
  moreover have "held_blocks sys st' ?own = held_blocks sys st own"
    using apart cb by (auto simp: held_blocks_def fun_eq_iff)
  moreover have "\<forall>d < kNumClasses. distinct (span_lists st' d)"
    using new pool_invD(2) [OF inv] by (simp add: lists(1))
  moreover have "\<forall>d < kNumClasses. \<forall>e < kNumClasses. d \<noteq> e \<longrightarrow> set (span_lists st' d) \<inter> set (span_lists st' e) = {}"
    using new inv by (auto simp: lists(1) pool_inv_def)
  ultimately show ?thesis
    using pc(1) unfolding pool_inv_def us by blast
qed

lemma fetch_from_page_cache_ok:
  assumes "pool_inv sys st own" "c < kNumClasses" "mmap_fresh sys" "fetch_from_page_cache sys c st = (Some s, st1)"
    "st' = st1\<lparr>span_lists := (span_lists st)(c := s # span_lists st c)\<rparr>"
  shows "\<exists>own'. pool_inv sys st' own' \<and> held_blocks sys st' own' = held_blocks sys st own"
    "0 < free_count (spans (pages st') s)" "free_count (spans (pages st') s) = total_objects (spans (pages st') s)"
    "\<And>u. u \<in> used_spans st \<Longrightarrow> spans (pages st') u = spans (pages st) u" "s \<notin> used_spans st" "span_lists st1 = span_lists st"
proof -
  obtain pc m first n where pc: "allocate_span sys (span_pages sys c) (pages st) = (Some s, pc)"
    and m: "carve (get_size c) (num_pages (spans pc s) * page_size sys) (page_id (spans pc s) * page_size sys) 0 (mem st, 0, 0) = (m, first, n)"
    and st1: "st1 = upd_span s (\<lambda>sp. sp\<lparr>size_class := c, free_list := first, free_count := n, total_objects := n\<rparr>) (st\<lparr>mem := m, pages := pc\<rparr>)"
    using assms(4) by (auto simp: fetch_from_page_cache_def Let_def split: prod.splits option.splits)
  have ps: "0 < page_size sys"
    using assms(3) by (simp add: mmap_fresh_def)
  have alloc: "pc_ok pc (insert s (used_spans st))" "s \<notin> used_spans st" "num_pages (spans pc s) = span_pages sys c"
    "\<And>u. u \<in> used_spans st \<Longrightarrow> spans pc u = spans (pages st) u"
    using allocate_span_ok [OF pool_invD(1) [OF assms(1)] assms(3) span_pages_room(2) [OF ps] pc] by auto
  have "0 < page_id (spans pc s)"
    using extents_okD(3) [OF pc_ok_parts(3) [OF alloc(1)], of s] by simp
  note carved = carve_span [OF ps this assms(2) m]
  show "s \<notin> used_spans st" "span_lists st1 = span_lists st"
    using alloc(2) by (simp_all add: st1)
  show same: "spans (pages st') u = spans (pages st) u" if "u \<in> used_spans st" for u
    using that alloc(2,4) by (auto simp: assms(5) st1)
  show "free_count (spans (pages st') s) = total_objects (spans (pages st') s)"
    by (simp add: assms(5) st1)
  show "0 < free_count (spans (pages st') s)"
    using carved(1) span_pages_room(1) [OF ps, of c] get_size_pos [OF assms(2)] by (simp add: assms(5) st1 alloc(3) div_greater_zero_iff)
  have B: "blocks sys c (spans (pages st') s) = blocks sys c (spans pc s)"
    by (simp add: assms(5) st1 blocks_def)
  have "span_ok sys (mem st') (\<lambda>x. In_Span) c (spans (pages st') s)"
    unfolding span_ok_def B using carved(1,3) by (auto simp: assms(5) st1)
  moreover have "pc_ok (pages st') (insert s (used_spans st))"
    using alloc(1) by (simp add: assms(5) st1 upd_span_pages)
  ultimately show "\<exists>own'. pool_inv sys st' own' \<and> held_blocks sys st' own' = held_blocks sys st own"
    using new_span_inv [OF assms(1,2) _ alloc(2) _ _ same, where B = "blocks sys c (spans pc s)"] carved(2) B
    by (auto simp: assms(5) st1)
qed

lemma fetch_from_page_cache_None: "fetch_from_page_cache sys c st = (None, st') \<Longrightarrow> st' = st"
  by (cases "allocate_span sys (span_pages sys c) (pages st)")
     (auto simp: fetch_from_page_cache_def Let_def split: option.splits prod.splits dest: allocate_span_None)

lemma central_allocate_ok:
  assumes "pool_ok sys st H" "c < kNumClasses" "mmap_fresh sys" "central_allocate sys c st = (obj, st')"
  shows "if obj = 0 then pool_ok sys st' H else pool_ok sys st' (H(c := insert obj (H c))) \<and> obj \<notin> H c"
proof -
  obtain own where own: "pool_inv sys st own" "H = held_blocks sys st own" "busy st"
    using assms(1) by (auto simp: pool_ok_def)
  show ?thesis
  proof (cases "find (\<lambda>s. free_count (spans (pages st) s) > 0) (span_lists st c)")
    case (Some s)
    then have s: "s \<in> set (span_lists st c)" "0 < free_count (spans (pages st) s)"
      by (auto simp: find_Some_iff)
    have take: "take_object s st = (obj, st')"
      using assms(4) Some by (simp add: central_allocate_def)
    have "busy st'"
      using own(3) take by (auto simp: busy_def take_object_def used_spans_def Let_def less_imp_diff_less)
    then show ?thesis
      unfolding pool_ok_def own(2) using take_object_ok [OF own(1) assms(2) s take] by auto
  next
    case None
    show ?thesis
    proof (cases "fetch_from_page_cache sys c st")
      case (Pair r st1)
      show ?thesis
      proof (cases r)
        case None
        then have "st' = st" "obj = 0"
          using assms(4) Pair \<open>find _ _ = None\<close> fetch_from_page_cache_None by (auto simp: central_allocate_def)
        then show ?thesis
          using assms(1) by simp
      next
        case (Some s)
        define st2 where "st2 = st1\<lparr>span_lists := (span_lists st)(c := s # span_lists st c)\<rparr>"
        note fetch = fetch_from_page_cache_ok [OF own(1) assms(2,3) _ st2_def, OF Pair [unfolded Some]]
        have "take_object s st2 = (obj, st')"
          using assms(4) Pair Some \<open>find _ _ = None\<close> fetch(6) by (simp add: central_allocate_def st2_def)
        moreover obtain own' where own': "pool_inv sys st2 own'" "held_blocks sys st2 own' = held_blocks sys st own"
          using fetch(1) by blast
        moreover have s: "s \<in> set (span_lists st2 c)"
          by (simp add: st2_def)
        moreover have "busy st'"
        proof -
          have "st' = upd_span s (\<lambda>sp. sp\<lparr>free_list := mem st2 obj, free_count := free_count sp - 1\<rparr>) st2"
            using \<open>take_object s st2 = (obj, st')\<close> by (auto simp: take_object_def Let_def)
          then show ?thesis
            using own(3) fetch(2-5) used_spans_insert [OF assms(2), of st' st s] by (auto simp: busy_def st2_def)
        qed
        ultimately show ?thesis
          unfolding pool_ok_def own(2) using take_object_ok [OF own'(1) assms(2) s fetch(2)] by auto
      qed
    qed
  qed
qed

lemma find_span:
  assumes "pool_inv sys st own" "c < kNumClasses" "s \<in> set (span_lists st c)" "obj \<in> blocks sys c (spans (pages st) s)"
  shows "find (\<lambda>u. page_id (spans (pages st) u) \<le> obj div page_size sys \<and>
      page_id (spans (pages st) u) + num_pages (spans (pages st) u) > obj div page_size sys) (span_lists st c) = Some s"
    (is "find ?P _ = _")
proof -
  have P: "?P = (\<lambda>u. obj div page_size sys \<in> extent (pages st) u)"
    by (auto simp: extent_def)
  have "obj div page_size sys \<in> extent (pages st) s"
    using block_page [OF assms(4,2), of obj] assms(2) by simp
  moreover obtain u where "find ?P (span_lists st c) = Some u"
    using calculation assms(3) unfolding P by (metis find_None_iff option.exhaust)
  moreover have "u \<in> set (span_lists st c)" "obj div page_size sys \<in> extent (pages st) u"
    using calculation(2) unfolding P by (auto simp: find_Some_iff)
  ultimately show ?thesis
    using span_of_page(1) [OF assms(1,2,2) _ assms(3)] by auto
qed

lemma put_object_ok:
  assumes "pool_inv sys st own" "c < kNumClasses" "s \<in> set (span_lists st c)" "obj \<in> blocks sys c (spans (pages st) s)" "own obj = Client"
    "0 < page_size sys" "st' = upd_span s (\<lambda>sp. sp\<lparr>free_list := obj, free_count := free_count sp + 1\<rparr>)
       (st\<lparr>mem := (mem st)(obj := free_list (spans (pages st) s))\<rparr>)"
  shows "pool_inv sys st' (own(obj := In_Span))"
    "held_blocks sys st' (own(obj := In_Span)) = (held_blocks sys st own)(c := held_blocks sys st own c - {obj})"
proof -
  let ?sp = "spans (pages st) s"
  obtain xs where xs: "chain (mem st) (free_list ?sp) xs" "distinct xs" "free_count ?sp = length xs" "set xs = {b \<in> blocks sys c ?sp. own b = In_Span}"
    and total: "total_objects ?sp = num_pages ?sp * page_size sys div get_size c"
    using pool_invD(3) [OF assms(1-3)] by (auto simp: span_ok_def)
  have obj: "obj \<in> class_blocks sys st c"
    using assms(3,4) by (auto simp: class_blocks_def)
  let ?f = "\<lambda>sp. sp\<lparr>free_list := obj, free_count := free_count sp + 1\<rparr>" and ?m = "(mem st)(obj := free_list ?sp)"
  have B: "blocks sys c (?f ?sp) = blocks sys c ?sp"
    by (simp add: blocks_def)
  have "chain ?m obj (obj # xs)"
    using chain_push [OF xs(1)] block_pos [OF assms(1,2,6) obj] xs(4) assms(5) by simp
  then have "span_ok sys ?m (own(obj := In_Span)) c (?f ?sp)"
    unfolding span_ok_def B using xs total assms(4,5) by (intro conjI exI [of _ "obj # xs"]) auto
  then show "pool_inv sys st' (own(obj := In_Span))"
    "held_blocks sys st' (own(obj := In_Span)) = (held_blocks sys st own)(c := held_blocks sys st own c - {obj})"
    using span_move [OF assms(1-4), of In_Span st' ?f ?m] assms(5,7) by simp_all
qed

lemma all_free:
  assumes "span_ok sys m own c sp" "free_count sp = total_objects sp" "c < kNumClasses" "b \<in> blocks sys c sp"
  shows "own b = In_Span"
proof -
  have "card {b \<in> blocks sys c sp. own b = In_Span} = card (blocks sys c sp)" "finite (blocks sys c sp)"
    using assms(1,2) card_blocks [OF assms(3)] by (auto simp: span_ok_def distinct_card [symmetric])
  then have "{b \<in> blocks sys c sp. own b = In_Span} = blocks sys c sp"
    by (intro card_subset_eq) auto
  then show ?thesis
    using assms(4) by blast
qed

lemma release_inv:
  assumes inv: "pool_inv sys st own" and c: "c < kNumClasses" "s \<in> set (span_lists st c)"
    and free: "\<And>b. b \<in> blocks sys c (spans (pages st) s) \<Longrightarrow> own b = In_Span"
    and pc: "pc_ok (pages st') (used_spans st - {s})" "\<And>u. u \<in> used_spans st - {s} \<Longrightarrow> spans (pages st') u = spans (pages st) u"
    and st': "span_lists st' = (span_lists st)(c := remove1 s (span_lists st c))" "free_lists st' = free_lists st" "mem st' = mem st"
  shows "pool_inv sys st' own" "held_blocks sys st' own = held_blocks sys st own" "used_spans st' = used_spans st - {s}"
proof -
  have l: "set (span_lists st' d) = set (span_lists st d) - {s}" "distinct (span_lists st' d)" if "d < kNumClasses" for d
    using that c pool_invD(2,5) [OF inv] by (auto simp: st'(1))
  then show us: "used_spans st' = used_spans st - {s}"
    by (auto simp: used_spans_def)
  have same: "spans (pages st') u = spans (pages st) u" if "d < kNumClasses" "u \<in> set (span_lists st' d)" for d u
    using pc(2) l(1) that by blast
  have cb: "x \<in> class_blocks sys st' d \<longleftrightarrow> x \<in> class_blocks sys st d" if "d < kNumClasses" "own x \<noteq> In_Span" for x d
  proof -
    have "s \<in> set (span_lists st d) \<Longrightarrow> x \<notin> blocks sys d (spans (pages st) s)"
      using pool_invD(5) [OF inv c(1) that(1) c(2)] free that(2) by blast
    then show ?thesis
      using same [OF that(1)] l(1) [OF that(1)] by (auto simp: class_blocks_def)
  qed
  show "held_blocks sys st' own = held_blocks sys st own"
    using cb by (auto simp: held_blocks_def fun_eq_iff)
  have "thread_ok (mem st') (free_lists st' t d) own (class_blocks sys st' d) t" if d: "d < kNumClasses" for d t
    using cb [OF d] unfolding st'(2,3) by (intro thread_ok_frame [OF pool_invD(4) [OF inv d]]) auto
  moreover have "span_ok sys (mem st') own d (spans (pages st') u)" if "d < kNumClasses" "u \<in> set (span_lists st' d)" for d u
    using pool_invD(3) [OF inv that(1)] l(1) that same [OF that] by (simp add: st'(3))
  moreover have "\<forall>d < kNumClasses. \<forall>e < kNumClasses. d \<noteq> e \<longrightarrow> set (span_lists st' d) \<inter> set (span_lists st' e) = {}"
    using l(1) pool_invD(5) [OF inv] by blast
  ultimately show "pool_inv sys st' own"
    using pc(1) l(2) unfolding pool_inv_def us by blast
qed

lemma central_deallocate_ok:
  assumes "pool_ok sys st H" "0 < page_size sys" "obj \<in> H c"
  shows "\<exists>st'. central_deallocate sys obj c st = Some st' \<and> pool_ok sys st' (H(c := H c - {obj})) \<and> free_lists st' = free_lists st"
proof -
  obtain own where own: "pool_inv sys st own" "H = held_blocks sys st own" "busy st"
    using assms(1) by (auto simp: pool_ok_def)
  then have c: "c < kNumClasses" "obj \<in> class_blocks sys st c" "own obj = Client"
    using assms(3) held_blocksD by auto
  then obtain s where s: "s \<in> set (span_lists st c)" "obj \<in> blocks sys c (spans (pages st) s)"
    by (auto simp: class_blocks_def)
  define st1 where "st1 = upd_span s (\<lambda>sp. sp\<lparr>free_list := obj, free_count := free_count sp + 1\<rparr>)
    (st\<lparr>mem := (mem st)(obj := free_list (spans (pages st) s))\<rparr>)"
  note put = put_object_ok [OF own(1) c(1) s c(3) assms(2) st1_def]
  have st1: "span_lists st1 = span_lists st" "used_spans st1 = used_spans st" "free_lists st1 = free_lists st"
    by (simp_all add: st1_def used_spans_def)
  have less: "free_count (spans (pages st1) u) < total_objects (spans (pages st1) u)" if "u \<in> used_spans st" "u \<noteq> s" for u
    using own(3) that by (simp add: busy_def st1_def)
  show ?thesis
  proof (cases "free_count (spans (pages st1) s) = total_objects (spans (pages st1) s)")
    case False
    then have "busy st1"
      using less own(3) s(1) c(1) st1 by (fastforce simp: busy_def st1_def)
    moreover have "central_deallocate sys obj c st = Some st1"
      using find_span [OF own(1) c(1) s] False by (simp add: central_deallocate_def Let_def st1_def)
    ultimately show ?thesis
      using put own(2) st1 by (auto simp: pool_ok_def)
  next
    case True
    let ?g = "\<lambda>sp. sp\<lparr>free_list := 0, free_count := 0, total_objects := 0\<rparr>"
    define st2 where "st2 = upd_span s ?g (st1\<lparr>span_lists := (span_lists st1)(c := remove1 s (span_lists st1 c))\<rparr>)"
    have "pc_ok (pages st2) (used_spans st)"
      using pool_invD(1) [OF put(1)] st1 by (simp add: st2_def upd_span_pages)
    then obtain pc where pc: "free_span s (pages st2) = Some pc" "pc_ok pc (used_spans st - {s})" "\<forall>u \<in> used_spans st - {s}. spans pc u = spans (pages st2) u"
      using free_span_ok s(1) c(1) by blast
    have s1: "s \<in> set (span_lists st1 c)"
      using s(1) st1 by simp
    note all = all_free [OF pool_invD(3) [OF put(1) c(1) s1] True c(1)]
    have rel: "pool_inv sys (st2\<lparr>pages := pc\<rparr>) (own(obj := In_Span))"
      "held_blocks sys (st2\<lparr>pages := pc\<rparr>) (own(obj := In_Span)) = held_blocks sys st1 (own(obj := In_Span))"
      "used_spans (st2\<lparr>pages := pc\<rparr>) = used_spans st1 - {s}"
      by (rule release_inv [OF put(1) c(1) s1 all]; use pc(2,3) st1 in \<open>auto simp: st2_def\<close>)+
    have "central_deallocate sys obj c st = Some (st2\<lparr>pages := pc\<rparr>)"
      using find_span [OF own(1) c(1) s] True pc(1) by (simp add: central_deallocate_def Let_def st1_def st2_def)
    moreover have "busy (st2\<lparr>pages := pc\<rparr>)"
      using less pc(3) unfolding busy_def rel(3) st1(2) by (auto simp: st2_def)
    ultimately show ?thesis
      using rel put(2) own(2) st1(3) by (auto simp: pool_ok_def st2_def)
  qed
qed

section \<open>Batches\<close>

lemma mmap_fresh_page [simp]: "mmap_fresh sys \<Longrightarrow> 0 < page_size sys"
  by (simp add: mmap_fresh_def)

lemma pool_ok_eq: "pool_ok sys st H \<Longrightarrow> (\<And>d. H d = H' d) \<Longrightarrow> st = st' \<Longrightarrow> pool_ok sys st' H'"
  by (metis ext)

definition plus_blocks :: "nat \<Rightarrow> nat list \<Rightarrow> (nat \<Rightarrow> nat set) \<Rightarrow> nat \<Rightarrow> nat set" where
  "plus_blocks c objs H d = (if d = c then set objs \<union> H d else H d)"

definition set_list :: "nat \<Rightarrow> nat \<Rightarrow> FreeList \<Rightarrow> pool \<Rightarrow> pool" where
  "set_list t c fl st = st\<lparr>free_lists := (free_lists st)(t := (free_lists st t)(c := fl))\<rparr>"

lemma plus_blocks_Nil [simp]: "plus_blocks c [] H = H"
  by (simp add: plus_blocks_def fun_eq_iff)

lemma gather_ok:
  assumes "pool_ok sys st H" "c < kNumClasses" "mmap_fresh sys" "gather sys c n st = (objs, st')"
  shows "pool_ok sys st' (plus_blocks c objs H) \<and> distinct objs \<and> set objs \<inter> H c = {}"
  using assms(1,4)
proof (induction n arbitrary: st H objs)
  case (Suc n)
  obtain obj st1 where a: "central_allocate sys c st = (obj, st1)"
    by fastforce
  note ok = central_allocate_ok [OF Suc.prems(1) assms(2,3) a]
  show ?case
  proof (cases "obj = 0")
    case True
    then show ?thesis
      using ok Suc.prems(2) a by simp
  next
    case False
    obtain xs st2 where g: "gather sys c n st1 = (xs, st2)"
      by fastforce
    have ok1: "pool_ok sys st1 (H(c := insert obj (H c)))" "obj \<notin> H c"
      using ok False by simp_all
    have r: "objs = obj # xs" "st' = st2"
      using Suc.prems(2) a g False by auto
    note ih = Suc.IH [OF ok1(1) g [folded r(2)]]
    have "pool_ok sys st' (plus_blocks c objs H)"
      by (rule pool_ok_eq [OF conjunct1 [OF ih]]) (auto simp: r plus_blocks_def)
    then show ?thesis
      using ih ok1(2) r by auto
  qed
qed simp

lemma push_all_ok:
  assumes "mmap_fresh sys" "pool_ok sys st (plus_blocks c objs H)" "distinct objs" "set objs \<inter> H c = {}"
  shows "pool_ok sys (foldl (\<lambda>st obj. thread_push t c obj st) st objs) H"
  using assms(2-4)
proof (induction objs arbitrary: st)
  case (Cons obj objs)
  have "pool_ok sys (thread_push t c obj st) (plus_blocks c objs H)"
    by (rule pool_ok_eq [OF thread_push_ok [OF Cons.prems(1) mmap_fresh_page [OF assms(1)], of obj c t]]) (use Cons.prems(2,3) in \<open>auto simp: plus_blocks_def\<close>)
  then show ?case
    using Cons by simp
qed simp

lemma empty_list:
  assumes "pool_ok sys st H" "c < kNumClasses"
  shows "fl_head (free_lists st t c) = 0 \<longleftrightarrow> fl_size (free_lists st t c) = 0"
proof -
  obtain own where "pool_inv sys st own"
    using assms(1) by (auto simp: pool_ok_def)
  from pool_invD(4) [OF this assms(2), of t] obtain xs where "stack (mem st) (free_lists st t c) xs"
    by (auto simp: thread_ok_def)
  then show ?thesis
    using chain_head by (auto simp: stack_def)
qed

lemma set_list_triv [simp]: "free_lists st t c = fl \<Longrightarrow> set_list t c fl st = st"
  by (auto simp: set_list_def)

lemma pop_batch_ok:
  assumes "pool_ok sys st H" "c < kNumClasses" "pop_batch n (mem st) (free_lists st t c) = (objs, fl)"
  shows "pool_ok sys (set_list t c fl st) (plus_blocks c objs H) \<and>
    distinct objs \<and> set objs \<inter> H c = {} \<and> length objs = min n (fl_size (free_lists st t c)) \<and>
    fl_size fl = fl_size (free_lists st t c) - length objs"
  using assms(1,3)
proof (induction n arbitrary: st H objs)
  case (Suc n)
  note empty = empty_list [OF Suc.prems(1) assms(2), of t]
  show ?case
  proof (cases "fl_head (free_lists st t c) = 0")
    case True
    then have r: "objs = []" "fl = free_lists st t c"
      using Suc.prems(2) by auto
    have "pool_ok sys (set_list t c fl st) (plus_blocks c objs H)"
      by (rule pool_ok_eq [OF Suc.prems(1)]) (simp_all add: r set_list_def)
    then show ?thesis
      using r True empty by simp
  next
    case False
    obtain obj st1 where p: "thread_pop t c st = (obj, st1)"
      by fastforce
    then have st1: "st1 = st\<lparr>free_lists := (free_lists st)(t := (free_lists st t)(c := snd (fl_pop (mem st) (free_lists st t c))))\<rparr>"
      "obj = fst (fl_pop (mem st) (free_lists st t c))"
      by (auto simp: thread_pop_def case_prod_unfold)
    obtain ys fl' where b: "pop_batch n (mem st1) (free_lists st1 t c) = (ys, fl')"
      by fastforce
    have r: "objs = obj # ys" "fl = fl'"
      using Suc.prems(2) False b by (simp_all add: st1 case_prod_unfold)
    note pop = thread_pop_ok [OF Suc.prems(1) assms(2) False p]
    note ih = Suc.IH [OF pop(1) b [folded r(2)]]
    have "pool_ok sys (set_list t c fl st) (plus_blocks c objs H)"
      by (rule pool_ok_eq [OF conjunct1 [OF ih]]) (auto simp: r st1 plus_blocks_def set_list_def)
    then show ?thesis
      using ih r pop(3,4) False empty by auto
  qed
qed simp

lemma give_back_ok:
  assumes "mmap_fresh sys" "pool_ok sys st (plus_blocks c objs H)" "distinct objs" "set objs \<inter> H c = {}"
  shows "\<exists>st'. give_back sys objs c st = Some st' \<and> pool_ok sys st' H \<and> free_lists st' = free_lists st"
  using assms(2-4)
proof (induction objs arbitrary: st)
  case (Cons obj objs)
  let ?H = "plus_blocks c (obj # objs) H"
  have obj: "obj \<in> ?H c"
    by (simp add: plus_blocks_def)
  obtain st1 where st1: "central_deallocate sys obj c st = Some st1" "pool_ok sys st1 (?H(c := ?H c - {obj}))" "free_lists st1 = free_lists st"
    using central_deallocate_ok [OF Cons.prems(1) mmap_fresh_page [OF assms(1)] obj] by blast
  have "pool_ok sys st1 (plus_blocks c objs H)"
    by (rule pool_ok_eq [OF st1(2)]) (use Cons.prems(2,3) in \<open>auto simp: plus_blocks_def\<close>)
  from Cons.IH [OF this] show ?case
    using Cons.prems(2,3) st1(1,3) by simp
qed simp

lemma return_batches_ok:
  assumes "mmap_fresh sys" "pool_ok sys st H" "c < kNumClasses"
  shows "\<exists>st'. return_batches sys t c target st = Some st' \<and> pool_ok sys st' H \<and>
    fl_size (free_lists st' t c) = fl_size (free_lists st t c) - target \<and>
    (\<forall>u d. (u, d) \<noteq> (t, c) \<longrightarrow> free_lists st' u d = free_lists st u d)"
  using assms(2)
proof (induction target arbitrary: st rule: less_induct)
  case (less target)
  show ?case
  proof (cases "target = 0")
    case True
    then show ?thesis
      using less.prems by (subst return_batches.simps) simp
  next
    case False
    obtain objs fl where b: "pop_batch (min target 256) (mem st) (free_lists st t c) = (objs, fl)"
      by fastforce
    note pop = pop_batch_ok [OF less.prems assms(3) b]
    show ?thesis
    proof (cases "objs = []")
      case True
      then show ?thesis
        using less.prems b False pop by (subst return_batches.simps) auto
    next
      case nonempty: False
      let ?st = "set_list t c fl st"
      obtain st1 where st1: "give_back sys objs c ?st = Some st1" "pool_ok sys st1 H" "free_lists st1 = free_lists ?st"
        using give_back_ok [OF assms(1)] pop by blast
      have "target - length objs < target"
        using nonempty False by simp
      from less.IH [OF this st1(2)] obtain st2 where "return_batches sys t c (target - length objs) st1 = Some st2" "pool_ok sys st2 H"
        "fl_size (free_lists st2 t c) = fl_size (free_lists st1 t c) - (target - length objs)"
        "\<forall>u d. (u, d) \<noteq> (t, c) \<longrightarrow> free_lists st2 u d = free_lists st1 u d"
        by blast
      then show ?thesis
        using b False nonempty st1 pop by (subst return_batches.simps) (auto simp: set_list_def)
    qed
  qed
qed

section \<open>The operations of a thread\<close>

lemma fetch_from_central_ok:
  assumes "pool_ok sys st H" "c < kNumClasses" "mmap_fresh sys"
  shows "pool_ok sys (fetch_from_central sys t c st) H"
proof -
  obtain objs st' where g: "gather sys c 256 st = (objs, st')"
    by fastforce
  then show ?thesis
    using push_all_ok [OF assms(3)] gather_ok [OF assms g] by (simp add: fetch_from_central_def)
qed

lemma thread_allocate_ok:
  assumes "pool_ok sys st H" "mmap_fresh sys" "get_index n = Some c" "thread_allocate sys t n st = (p, st')"
  shows "if p = 0 then pool_ok sys st' H else pool_ok sys st' (H(c := insert p (H c))) \<and> p \<notin> H c"
proof -
  note c = get_index_spec(1) [OF assms(3)]
  note ok = fetch_from_central_ok [OF assms(1) c assms(2), of t]
  show ?thesis
    using assms(3,4) thread_pop_ok(1-3) [OF assms(1) c, of t p st'] thread_pop_ok(1-3) [OF ok c, of t p st'] ok
    by (auto simp: thread_allocate_def Let_def split: if_splits)
qed

lemma return_to_central_ok:
  assumes "mmap_fresh sys" "pool_ok sys st H" "c < kNumClasses"
  shows "\<exists>st'. return_to_central sys t c return_all st = Some st' \<and> pool_ok sys st' H \<and>
    (return_all \<longrightarrow> fl_size (free_lists st' t c) = 0) \<and> (\<forall>u d. (u, d) \<noteq> (t, c) \<longrightarrow> free_lists st' u d = free_lists st u d)"
  using return_batches_ok [OF assms, of t "if return_all then fl_size (free_lists st t c) else fl_size (free_lists st t c) div 2"]
  by (auto simp: return_to_central_def Let_def)

lemma thread_deallocate_ok:
  assumes "pool_ok sys st H" "mmap_fresh sys" "get_index n = Some c" "p \<in> H c"
  shows "\<exists>st'. thread_deallocate sys t p n st = Some st' \<and> pool_ok sys st' (H(c := H c - {p})) \<and>
    (\<forall>u d. u \<noteq> t \<longrightarrow> free_lists st' u d = free_lists st u d)"
proof -
  have ok: "pool_ok sys (thread_push t c p st) (H(c := H c - {p}))"
    using thread_push_ok [OF assms(1) mmap_fresh_page [OF assms(2)] assms(4)] .
  obtain st' where "return_to_central sys t c False (thread_push t c p st) = Some st'" "pool_ok sys st' (H(c := H c - {p}))"
    "\<forall>u d. (u, d) \<noteq> (t, c) \<longrightarrow> free_lists st' u d = free_lists (thread_push t c p st) u d"
    using return_to_central_ok [OF assms(2) ok get_index_spec(1) [OF assms(3)], of t False] by blast
  then show ?thesis
    using ok assms(3) by (simp add: thread_deallocate_def Let_def)
qed

lemma return_classes_ok:
  assumes "mmap_fresh sys" "pool_ok sys st H" "set cs \<subseteq> {..<kNumClasses}"
  shows "\<exists>st'. return_classes sys t cs st = Some st' \<and> pool_ok sys st' H \<and> (\<forall>c \<in> set cs. fl_size (free_lists st' t c) = 0) \<and>
    (\<forall>u d. u \<noteq> t \<or> d \<notin> set cs \<longrightarrow> free_lists st' u d = free_lists st u d)"
  using assms(2,3)
proof (induction cs arbitrary: st)
  case (Cons c cs)
  obtain st1 where st1: "(if fl_head (free_lists st t c) = 0 then Some st else return_to_central sys t c True st) = Some st1" "pool_ok sys st1 H"
    "fl_size (free_lists st1 t c) = 0" "\<forall>u d. (u, d) \<noteq> (t, c) \<longrightarrow> free_lists st1 u d = free_lists st u d"
    using return_to_central_ok [OF assms(1) Cons.prems(1), of c t True] empty_list [OF Cons.prems(1), of c t] Cons.prems by auto
  obtain st2 where "return_classes sys t cs st1 = Some st2" "pool_ok sys st2 H" "\<forall>c \<in> set cs. fl_size (free_lists st2 t c) = 0"
    "\<forall>u d. u \<noteq> t \<or> d \<notin> set cs \<longrightarrow> free_lists st2 u d = free_lists st1 u d"
    using Cons.IH [OF st1(2)] Cons.prems(2) by auto
  moreover have "return_classes sys t (c # cs) st = return_classes sys t cs st1"
    using st1(1) by (auto split: if_splits)
  moreover have "fl_size (free_lists st2 t c) = 0"
    using calculation(3,4) st1(3) by (cases "c \<in> set cs") auto
  ultimately show ?case
    using st1(4) by auto
qed simp

lemma thread_exit_ok:
  assumes "mmap_fresh sys" "pool_ok sys st H"
  shows "\<exists>st'. thread_exit sys t st = Some st' \<and> pool_ok sys st' H \<and> (\<forall>c < kNumClasses. fl_size (free_lists st' t c) = 0) \<and>
    (\<forall>u c. u \<noteq> t \<longrightarrow> free_lists st' u c = free_lists st u c)"
  using return_classes_ok [OF assms, of "[0..<kNumClasses]" t] by (fastforce simp: thread_exit_def)

section \<open>Failure of the system only\<close>

lemma allocate_span_fails: "allocate_span sys n pc = (None, pc') \<Longrightarrow> os_mmap sys (mapped pc) (n * page_size sys) = None"
  by (auto simp: allocate_span_def Let_def split: option.splits list.splits prod.splits)

lemma central_allocate_fails:
  assumes "pool_ok sys st H" "c < kNumClasses" "mmap_fresh sys" "central_allocate sys c st = (0, st')"
  shows "os_mmap sys (mapped (pages st)) (span_pages sys c * page_size sys) = None"
proof (rule ccontr)
  assume some: "os_mmap sys (mapped (pages st)) (span_pages sys c * page_size sys) \<noteq> None"
  obtain own where own: "pool_inv sys st own"
    using assms(1) by (auto simp: pool_ok_def)
  consider s where "s \<in> set (span_lists st c)" "0 < free_count (spans (pages st) s)" "take_object s st = (0, st')"
    | s st1 where "fetch_from_page_cache sys c st = (Some s, st1)"
        "take_object s (st1\<lparr>span_lists := (span_lists st1)(c := s # span_lists st1 c)\<rparr>) = (0, st')"
    | st1 where "fetch_from_page_cache sys c st = (None, st1)"
    using assms(4) unfolding central_allocate_def by (fastforce simp: find_Some_iff split: option.splits prod.splits)
  then show False
  proof cases
    case 1
    then show ?thesis
      using take_object_ok(3) [OF own assms(2) 1] by simp
  next
    case 2
    note fetch = fetch_from_page_cache_ok [OF own assms(2,3) 2(1) refl]
    obtain own' where "pool_inv sys (st1\<lparr>span_lists := (span_lists st)(c := s # span_lists st c)\<rparr>) own'"
      using fetch(1) by blast
    from take_object_ok(3) [OF this assms(2) _ fetch(2)] show ?thesis
      using 2(2) fetch(6) by simp
  next
    case 3
    then show ?thesis
      using some by (auto simp: fetch_from_page_cache_def Let_def split: prod.splits option.splits dest: allocate_span_fails)
  qed
qed

lemma gather_nonzero: "gather sys c n st = (objs, st') \<Longrightarrow> 0 \<notin> set objs"
proof (induction n arbitrary: st objs)
  case (Suc n)
  then show ?case
    by (fastforce split: prod.splits if_splits)
qed simp

lemma gather_Nil: "gather sys c (Suc n) st = ([], st') \<Longrightarrow> \<exists>st'. central_allocate sys c st = (0, st')"
  by (auto split: prod.splits if_splits)

lemma push_all_head:
  "fl_head (free_lists (foldl (\<lambda>st obj. thread_push t c obj st) st objs) t c) =
   (if objs = [] then fl_head (free_lists st t c) else List.last objs)"
  by (induction objs arbitrary: st) auto

lemma central_allocate_lists: "central_allocate sys c st = (obj, st') \<Longrightarrow> free_lists st' = free_lists st"
  by (auto simp: central_allocate_def fetch_from_page_cache_def take_object_def Let_def split: option.splits prod.splits)

lemma gather_lists: "gather sys c n st = (objs, st') \<Longrightarrow> free_lists st' = free_lists st"
proof (induction n arbitrary: st objs)
  case (Suc n)
  then show ?case
    using central_allocate_lists by (fastforce split: prod.splits if_splits)
qed simp

lemma thread_allocate_fails:
  assumes "pool_ok sys st H" "mmap_fresh sys" "get_index n = Some c" "thread_allocate sys t n st = (0, st')"
  shows "os_mmap sys (mapped (pages st)) (span_pages sys c * page_size sys) = None"
proof -
  note c = get_index_spec(1) [OF assms(3)]
  note ok = fetch_from_central_ok [OF assms(1) c assms(2), of t]
  have "fl_head (free_lists (fetch_from_central sys t c st) t c) = 0"
    using assms(3,4) thread_pop_ok(2) [OF assms(1) c, of t 0 st'] thread_pop_ok(2) [OF ok c, of t 0 st']
    by (auto simp: thread_allocate_def Let_def split: if_splits)
  moreover obtain objs st1 where g: "gather sys c 256 st = (objs, st1)"
    by fastforce
  moreover have "List.last objs \<noteq> 0" if "objs \<noteq> []"
    using last_in_set [OF that] gather_nonzero [OF g] by metis
  ultimately have "objs = []"
    by (auto simp: fetch_from_central_def push_all_head split: if_splits)
  then obtain st2 where "central_allocate sys c st = (0, st2)"
    using gather_Nil [of sys c 255 st st1] g by auto
  then show ?thesis
    using central_allocate_fails [OF assms(1) c assms(2)] by blast
qed

end
