(* ===== verification/CC_Pool_Run.thy ===== *)
theory CC_Pool_Run
  imports CC_Pool_Facts
begin

text \<open>
  Runs of the memory pool: threads allocate, write and free in any order and end.  The blocks in the hands of
  clients never overlap, every call returns, and when all blocks are back no page is lost.
\<close>

section \<open>Runs of the pool\<close>

text \<open>Threads allocate and free in any order, clients write into the blocks they hold, and threads end.
  \<open>H c\<close> are the blocks of class \<open>c\<close> in the hands of clients; a block is freed with a size of its class.\<close>

inductive pool_run :: "os \<Rightarrow> pool \<Rightarrow> (nat \<Rightarrow> nat set) \<Rightarrow> bool" for sys where
  pool_start: "pool_run sys new_pool (\<lambda>c. {})"
| pool_alloc: "pool_run sys st H \<Longrightarrow> get_index n = Some c \<Longrightarrow> pool_allocate sys t n st = (p, st') \<Longrightarrow>
    pool_run sys st' (if p = 0 then H else H(c := insert p (H c)))"
| pool_free: "pool_run sys st H \<Longrightarrow> get_index n = Some c \<Longrightarrow> p \<in> H c \<Longrightarrow> pool_deallocate sys t p n st = Some st' \<Longrightarrow>
    pool_run sys st' (H(c := H c - {p}))"
| pool_write: "pool_run sys st H \<Longrightarrow> (\<And>a. (\<And>c b. b \<in> H c \<Longrightarrow> a \<notin> {b ..< b + get_size c}) \<Longrightarrow> m a = mem st a) \<Longrightarrow>
    pool_run sys (st\<lparr>mem := m\<rparr>) H"
| pool_exit: "pool_run sys st H \<Longrightarrow> thread_exit sys t st = Some st' \<Longrightarrow> pool_run sys st' H"

lemma pool_allocate_thread: "get_index n = Some c \<Longrightarrow> pool_allocate sys t n st = thread_allocate sys t n st"
  by (auto simp: pool_allocate_def get_index_def split: if_splits)

lemma pool_deallocate_thread: "get_index n = Some c \<Longrightarrow> pool_deallocate sys t p n st = thread_deallocate sys t p n st"
  by (auto simp: pool_deallocate_def get_index_def split: if_splits)

lemma new_pool_ok: "pool_ok sys new_pool (\<lambda>c. {})"
proof -
  have "pc_ok new_page_cache {}"
    by (simp add: pc_ok_def new_page_cache_def lists_ok_def lst_def free_set_def extents_ok_def page_map_ok_def merged_def)
  then have "pool_inv sys new_pool (\<lambda>x. Client)"
    by (simp add: pool_inv_def new_pool_def used_spans_def thread_ok_def stack_def new_FreeList_def class_blocks_def)
  then show ?thesis
    by (auto simp: pool_ok_def busy_def used_spans_def new_pool_def held_blocks_def class_blocks_def fun_eq_iff)
qed

lemma write_ok:
  assumes "pool_ok sys st H" "\<And>a. (\<And>c b. b \<in> H c \<Longrightarrow> a \<notin> {b ..< b + get_size c}) \<Longrightarrow> m a = mem st a"
  shows "pool_ok sys (st\<lparr>mem := m\<rparr>) H"
proof -
  obtain own where own: "pool_inv sys st own" "H = held_blocks sys st own" "busy st"
    using assms(1) by (auto simp: pool_ok_def)
  have keep: "m x = mem st x" if x: "d < kNumClasses" "x \<in> class_blocks sys st d" "own x \<noteq> Client" for x d
  proof (rule assms(2))
    fix c b
    assume "b \<in> H c"
    then have b: "c < kNumClasses" "b \<in> class_blocks sys st c" "own b = Client"
      using own(2) held_blocksD by auto
    obtain s u where "s \<in> set (span_lists st c)" "b \<in> blocks sys c (spans (pages st) s)"
      "u \<in> set (span_lists st d)" "x \<in> blocks sys d (spans (pages st) u)"
      using b(2) x(2) by (auto simp: class_blocks_def)
    from block_owner_unique(3) [OF own(1) b(1) x(1) this(1,3,2,4), of x] show "x \<notin> {b ..< b + get_size c}"
      using b(3) x(1,3) by auto
  qed
  let ?st = "st\<lparr>mem := m\<rparr>"
  have cb: "class_blocks sys ?st = class_blocks sys st" "used_spans ?st = used_spans st"
    by (simp_all add: class_blocks_def used_spans_def fun_eq_iff)
  have "span_ok sys m own d (spans (pages st) s)" if d: "d < kNumClasses" "s \<in> set (span_lists st d)" for d s
  proof -
    have "x \<in> class_blocks sys st d" if "x \<in> blocks sys d (spans (pages st) s)" for x
      using that d(2) by (auto simp: class_blocks_def)
    then show ?thesis
      using keep [OF d(1)] by (intro span_ok_frame [OF pool_invD(3) [OF own(1) d]]) auto
  qed
  moreover have "thread_ok m (free_lists st t d) own (class_blocks sys st d) t" if d: "d < kNumClasses" for d t
    using keep [OF d] by (intro thread_ok_frame [OF pool_invD(4) [OF own(1) d]]) auto
  ultimately have "pool_inv sys ?st own"
    using own(1) unfolding pool_inv_def cb by simp
  moreover have "held_blocks sys ?st own = H" "busy ?st"
    using own(2,3) cb by (simp_all add: held_blocks_def busy_def fun_eq_iff)
  ultimately show ?thesis
    by (auto simp: pool_ok_def)
qed

lemma pool_run_ok: "pool_run sys st H \<Longrightarrow> mmap_fresh sys \<Longrightarrow> pool_ok sys st H"
proof (induction rule: pool_run.induct)
  case pool_start
  show ?case
    by (rule new_pool_ok)
next
  case (pool_alloc st H n c t p st')
  then show ?case
    using thread_allocate_ok [of sys st H n c t p st'] pool_allocate_thread by (simp split: if_splits)
next
  case (pool_free st H n c p t st')
  then have "\<exists>st''. thread_deallocate sys t p n st = Some st'' \<and> pool_ok sys st'' (H(c := H c - {p}))"
    using thread_deallocate_ok by blast
  then show ?case
    using pool_free(2,4) pool_deallocate_thread by (metis option.inject)
next
  case (pool_write st H m)
  show ?case
    by (rule write_ok) (use pool_write in auto)
next
  case (pool_exit st H t st')
  then show ?case
    using thread_exit_ok [of sys st H t] by auto
qed

lemma held_apart:
  assumes "pool_ok sys st H" "x \<in> H c" "y \<in> H d" "(c, x) \<noteq> (d, y)"
  shows "{x ..< x + get_size c} \<inter> {y ..< y + get_size d} = {}"
proof -
  obtain own where own: "pool_inv sys st own" "H = held_blocks sys st own"
    using assms(1) by (auto simp: pool_ok_def)
  have c: "c < kNumClasses" "d < kNumClasses" "x \<in> class_blocks sys st c" "y \<in> class_blocks sys st d"
    using assms(2,3) own(2) held_blocksD by auto
  then obtain s t where "s \<in> set (span_lists st c)" "x \<in> blocks sys c (spans (pages st) s)"
    "t \<in> set (span_lists st d)" "y \<in> blocks sys d (spans (pages st) t)"
    by (auto simp: class_blocks_def)
  from block_owner_unique(2,3) [OF own(1) c(1,2) this(1,3,2,4)] show ?thesis
    unfolding disjoint_iff using assms(4) by auto
qed

lemma held_mapped:
  assumes "pool_ok sys st H" "x \<in> H c" "x \<le> z" "z < x + get_size c"
  shows "z div page_size sys \<in> (\<Union>(p, n) \<in> set (mapped (pages st)). {p ..< p + n})"
proof -
  obtain own where own: "pool_inv sys st own" "H = held_blocks sys st own"
    using assms(1) by (auto simp: pool_ok_def)
  then have c: "c < kNumClasses" "x \<in> class_blocks sys st c"
    using assms(2) held_blocksD by auto
  then obtain s where s: "s \<in> set (span_lists st c)" "x \<in> blocks sys c (spans (pages st) s)"
    by (auto simp: class_blocks_def)
  have "z div page_size sys \<in> extent (pages st) s"
    using block_page [OF s(2) c(1) assms(3,4)] .
  then show ?thesis
    unfolding extents_okD(4) [OF pc_ok_parts(3) [OF pool_invD(1) [OF own(1)]], symmetric] using s(1) c(1) by blast
qed

text \<open>When no client and no thread has a block, every page is back in the page cache.\<close>

lemma drained:
  assumes "pool_ok sys st H" "\<And>c. H c = {}" "\<And>t c. c < kNumClasses \<Longrightarrow> fl_size (free_lists st t c) = 0" "c < kNumClasses"
  shows "span_lists st c = []"
proof (rule ccontr)
  assume "span_lists st c \<noteq> []"
  then obtain s where s: "s \<in> set (span_lists st c)"
    by (cases "span_lists st c") auto
  let ?sp = "spans (pages st) s"
  obtain own where own: "pool_inv sys st own" "H = held_blocks sys st own" "busy st"
    using assms(1) by (auto simp: pool_ok_def)
  have "own b = In_Span" if "b \<in> blocks sys c ?sp" for b
  proof -
    have b: "b \<in> class_blocks sys st c"
      using that s by (auto simp: class_blocks_def)
    have "own b \<noteq> In_Thread t" for t
    proof -
      obtain xs where "length xs = fl_size (free_lists st t c)" "set xs = {b \<in> class_blocks sys st c. own b = In_Thread t}"
        using pool_invD(4) [OF own(1) assms(4), of t] by (auto simp: thread_ok_def stack_def)
      then show ?thesis
        using assms(3) [OF assms(4), of t] b by auto
    qed
    moreover have "own b \<noteq> Client"
      using assms(2) [of c] own(2) b assms(4) by (auto simp: held_blocks_def)
    ultimately show ?thesis
      by (cases "own b") auto
  qed
  then have "{b \<in> blocks sys c ?sp. own b = In_Span} = blocks sys c ?sp"
    by blast
  then have "free_count ?sp = total_objects ?sp"
    using pool_invD(3) [OF own(1) assms(4) s] card_blocks(1) [OF assms(4)] unfolding span_ok_def by (metis distinct_card)
  then show False
    using own(3) used_spansI [OF s assms(4)] unfolding busy_def by force
qed

lemma all_pages_free:
  assumes "pool_ok sys st H" "\<And>c. c < kNumClasses \<Longrightarrow> span_lists st c = []" "q \<in> (\<Union>(p, n) \<in> set (mapped (pages st)). {p ..< p + n})"
  shows "\<exists>s. page_span_map (pages st) q = Some s"
proof -
  obtain own where own: "pool_inv sys st own"
    using assms(1) by (auto simp: pool_ok_def)
  have "used_spans st = {}"
    using assms(2) by (auto simp: used_spans_def)
  then have ok: "pc_ok (pages st) {}"
    using pool_invD(1) [OF own] by simp
  obtain s where "s \<in> free_set (pages st)" "q \<in> extent (pages st) s"
    using assms(3) extents_okD(4) [OF pc_ok_parts(3) [OF ok]] by auto
  then show ?thesis
    using pc_ok_parts(4) [OF ok] by (auto simp: page_map_ok_def)
qed

section \<open>Properties of the pool\<close>

lemma frame_allocate: "u \<noteq> t \<Longrightarrow> get_index n = Some c \<Longrightarrow> free_lists (snd (pool_allocate sys t n st)) u = free_lists st u"
proof -
  assume u: "u \<noteq> t" and n: "get_index n = Some c"
  obtain objs st1 where g: "gather sys c 256 st = (objs, st1)"
    by fastforce
  have "free_lists (foldl (\<lambda>st obj. thread_push t c obj st) st1 objs) u = free_lists st1 u" for st1
    using u by (induction objs arbitrary: st1) auto
  then have "free_lists (fetch_from_central sys t c st) u = free_lists st u"
    using g gather_lists [OF g] by (simp add: fetch_from_central_def)
  then show ?thesis
    using u n by (simp add: pool_allocate_thread thread_allocate_def Let_def)
qed

text \<open>C15: an allocation of the pool returns the null pointer only when the system has no more memory;
  otherwise the block belongs to the smallest size class that fits the request, it lies in memory the system
  has given, and it overlaps no block that some client holds, whatever allocations, releases, writes into held
  blocks and thread ends came before.\<close>

theorem pool_allocate_correct:
  assumes "mmap_fresh sys" "pool_run sys st H" "get_index n = Some c" "pool_allocate sys t n st = (p, st')"
  shows "if p = 0 then os_mmap sys (mapped (pages st)) (span_pages sys c * page_size sys) = None
    else n \<le> get_size c \<and> (\<forall>k < c. get_size k < n) \<and>
      (\<forall>d. \<forall>b \<in> H d. {p ..< p + get_size c} \<inter> {b ..< b + get_size d} = {}) \<and>
      (\<forall>z \<in> {p ..< p + get_size c}. \<exists>(q, k) \<in> set (mapped (pages st')). z div page_size sys \<in> {q ..< q + k})"
proof -
  have ok: "pool_ok sys st H"
    using pool_run_ok [OF assms(2,1)] .
  have thread: "thread_allocate sys t n st = (p, st')"
    using assms(3,4) pool_allocate_thread by simp
  show ?thesis
  proof (cases "p = 0")
    case True
    then show ?thesis
      using thread_allocate_fails [OF ok assms(1,3)] thread by simp
  next
    case False
    then have p: "pool_ok sys st' (H(c := insert p (H c)))" "p \<notin> H c"
      using thread_allocate_ok [OF ok assms(1,3) thread] by simp_all
    have "{p ..< p + get_size c} \<inter> {b ..< b + get_size d} = {}" if "b \<in> H d" for b d
      using that p(2) by (intro held_apart [OF p(1)]) auto
    moreover have "\<exists>(q, k) \<in> set (mapped (pages st')). z div page_size sys \<in> {q ..< q + k}" if "z \<in> {p ..< p + get_size c}" for z
      using held_mapped [OF p(1), of p c z] that by fastforce
    ultimately show ?thesis
      using False get_index_spec(2,3) [OF assms(3)] by simp
  qed
qed

text \<open>C17: freeing a block that a client holds returns, and so does the end of a thread: the loops that give blocks
  back to the central cache and merge spans end.\<close>

theorem pool_deallocate_returns:
  assumes "mmap_fresh sys" "pool_run sys st H" "get_index n = Some c" "p \<in> H c"
  shows "(\<exists>st'. pool_deallocate sys t p n st = Some st') \<and> (\<exists>st'. thread_exit sys t st = Some st')"
  using thread_deallocate_ok [OF pool_run_ok [OF assms(2,1)] assms(1,3,4), of t] thread_exit_ok [OF assms(1) pool_run_ok [OF assms(2,1)], of t]
    pool_deallocate_thread [OF assms(3)] by auto

text \<open>C16: when the clients have freed all blocks and no thread keeps any in its lists, no size class has a span
  left and every page the system ever gave is in a free span of the page cache.\<close>

theorem pool_no_leak:
  assumes "mmap_fresh sys" "pool_run sys st (\<lambda>c. {})" "\<forall>t. \<forall>c < kNumClasses. fl_size (free_lists st t c) = 0"
  shows "(\<forall>c < kNumClasses. span_lists st c = []) \<and>
    (\<Union>(p, n) \<in> set (mapped (pages st)). {p ..< p + n}) \<subseteq> dom (page_span_map (pages st))"
proof -
  have ok: "pool_ok sys st (\<lambda>c. {})"
    using pool_run_ok [OF assms(2,1)] .
  have "span_lists st c = []" if "c < kNumClasses" for c
    using drained [OF ok _ _ that] assms(3) by simp
  then show ?thesis
    using all_pages_free [OF ok] by blast
qed

section \<open>A system for the witnesses\<close>

text \<open>A system with pages of 4096 bytes that always gives the pages behind those it has given.\<close>

definition demo_os :: os where
  "demo_os = \<lparr>page_size = 4096, os_mmap = (\<lambda>regions n. Some (4096 * foldr (\<lambda>(p, k) q. max (p + k) q) regions 1)), os_malloc = (\<lambda>n. 8)\<rparr>"

lemma demo_os_mmap: "os_mmap demo_os rs n \<noteq> None"
  by (simp add: demo_os_def)

lemma demo_os_fresh: "mmap_fresh demo_os"
proof -
  have max: "p + k \<le> foldr (\<lambda>(p, k) q. max (p + k) q) rs 1" if "(p, k) \<in> set rs" for p k :: nat and rs
    using that by (induction rs) (auto simp: max_def)
  moreover have "0 < foldr (\<lambda>(p, k) q. max (p + k) q) rs (1::nat)" for rs
    by (induction rs) auto
  ultimately show ?thesis
    by (fastforce simp: mmap_fresh_def demo_os_def)
qed

definition demo_first :: pool where
  "demo_first = snd (pool_allocate demo_os 0 100 new_pool)"

definition demo_block :: nat where
  "demo_block = fst (pool_allocate demo_os 0 100 new_pool)"

lemma demo_index: "get_index 100 = Some 6" "get_size 6 = 128"
  by (simp_all add: get_index_def get_size_def kSizeClasses_def kNumClasses_def)

lemma demo_run: "demo_block \<noteq> 0" "pool_run demo_os demo_first ((\<lambda>c. {})(6 := {demo_block}))"
proof -
  have a: "pool_allocate demo_os 0 100 new_pool = (demo_block, demo_first)"
    by (simp add: demo_block_def demo_first_def)
  show nonzero: "demo_block \<noteq> 0"
    using thread_allocate_fails [OF new_pool_ok demo_os_fresh demo_index(1), of 0 demo_first] a pool_allocate_thread [OF demo_index(1)]
    by (auto simp: demo_os_mmap)
  show "pool_run demo_os demo_first ((\<lambda>c. {})(6 := {demo_block}))"
    using pool_alloc [OF pool_start demo_index(1) a] nonzero by simp
qed

theorem pool_allocate_correct_witness:
  "{fst (pool_allocate demo_os 1 100 demo_first) ..< fst (pool_allocate demo_os 1 100 demo_first) + 128} \<inter> {demo_block ..< demo_block + 128} = {}"
proof -
  let ?p = "fst (pool_allocate demo_os 1 100 demo_first)"
  have "\<forall>d. \<forall>b \<in> ((\<lambda>c. {})(6 := {demo_block})) d. {?p ..< ?p + get_size 6} \<inter> {b ..< b + get_size d} = {}"
    using pool_allocate_correct [OF demo_os_fresh demo_run(2) demo_index(1) prod.collapse [symmetric], of 1] demo_os_mmap
    by (simp only: simp_thms split: if_splits) blast
  from spec [OF this, of 6] show ?thesis
    by (simp only: fun_upd_same demo_index(2) ball_simps insert_iff simp_thms)
qed

theorem pool_deallocate_returns_witness: "\<exists>st'. pool_deallocate demo_os 1 demo_block 100 demo_first = Some st'"
  using pool_deallocate_returns [OF demo_os_fresh demo_run(2) demo_index(1), of demo_block 1] by simp

definition demo_freed :: pool where
  "demo_freed = the (pool_deallocate demo_os 1 demo_block 100 demo_first)"

definition demo_drained :: pool where
  "demo_drained = the (thread_exit demo_os 1 (the (thread_exit demo_os 0 demo_freed)))"

lemma demo_drained_run:
  "pool_run demo_os demo_drained (\<lambda>c. {})" "c < kNumClasses \<Longrightarrow> fl_size (free_lists demo_drained t c) = 0"
proof -
  let ?H = "(\<lambda>c. {})(6 := {demo_block})"
  have p: "demo_block \<in> ?H 6"
    by simp
  have H: "?H(6 := ?H 6 - {demo_block}) = (\<lambda>c. {})"
    by auto
  have free: "pool_deallocate demo_os 1 demo_block 100 demo_first = Some demo_freed" "\<And>u d. u \<noteq> 1 \<Longrightarrow> free_lists demo_freed u d = free_lists demo_first u d"
    using thread_deallocate_ok [OF pool_run_ok [OF demo_run(2) demo_os_fresh] demo_os_fresh demo_index(1) p, of 1]
    by (auto simp: demo_freed_def pool_deallocate_thread [OF demo_index(1)])
  have r: "pool_run demo_os demo_freed (\<lambda>c. {})"
    using pool_free [OF demo_run(2) demo_index(1) p free(1)] unfolding H .
  obtain st where st: "thread_exit demo_os 0 demo_freed = Some st" "\<And>c. c < kNumClasses \<Longrightarrow> fl_size (free_lists st 0 c) = 0"
    "\<And>u c. u \<noteq> 0 \<Longrightarrow> free_lists st u c = free_lists demo_freed u c"
    using thread_exit_ok [OF demo_os_fresh pool_run_ok [OF r demo_os_fresh], of 0] by auto
  have r1: "pool_run demo_os st (\<lambda>c. {})"
    using pool_exit [OF r st(1)] .
  obtain st' where st': "thread_exit demo_os 1 st = Some st'" "\<And>c. c < kNumClasses \<Longrightarrow> fl_size (free_lists st' 1 c) = 0"
    "\<And>u c. u \<noteq> 1 \<Longrightarrow> free_lists st' u c = free_lists st u c"
    using thread_exit_ok [OF demo_os_fresh pool_run_ok [OF r1 demo_os_fresh], of 1] by blast
  have d: "demo_drained = st'"
    using st(1) st'(1) by (simp add: demo_drained_def)
  show "pool_run demo_os demo_drained (\<lambda>c. {})"
    using pool_exit [OF r1 st'(1)] d by simp
  show "fl_size (free_lists demo_drained t c) = 0" if c: "c < kNumClasses"
  proof -
    consider "t = 0" | "t = 1" | "t \<noteq> 0" "t \<noteq> 1"
      by blast
    then show ?thesis
    proof cases
      case 3
      then have "free_lists st' t c = free_lists demo_first t c"
        using st'(3) st(3) free(2) by simp
      then show ?thesis
        using frame_allocate [OF 3(1) demo_index(1), of demo_os new_pool] d by (simp add: demo_first_def new_pool_def new_FreeList_def)
    qed (use st(2) st'(2,3) d c in simp_all)
  qed
qed

theorem pool_no_leak_witness: "used_spans demo_drained = {}"
proof -
  have "\<forall>c < kNumClasses. span_lists demo_drained c = []"
    using pool_no_leak [OF demo_os_fresh demo_drained_run(1)] demo_drained_run(2) by blast
  then show ?thesis
    by (auto simp: used_spans_def)
qed

end
