(* ===== verification/CC_Monitor.thy ===== *)
theory CC_Monitor
  imports Main "HOL-Library.Multiset"
begin

text \<open>
  Condition variables.  The locks of \<^verbatim>\<open>base/lock.cpp\<close> and the thread pool keep their state under a mutex and
  let threads wait on a condition variable.  A call is one critical section: it changes the state, may send a
  signal, and either returns or waits for a predicate.  Waiting threads are asleep until a signal, a spurious
  wake-up or a timeout lets them look at the predicate again.
\<close>

section \<open>Calls, signals and schedules\<close>

text \<open>A signal to one or to all sleeping threads, sent under the mutex or after its release.\<close>

datatype signal = Silent | Now_one | Now_all | Later_one | Later_all

datatype ('w, 'r) outcome = Returns 'r | Waits 'w

text \<open>The code of a class: a call by a thread, the predicate of a wait, what runs after it under the same mutex, and
  the result of a wait that timed out.\<close>

record ('o, 's, 'w, 'r) code =
  call :: "'o \<Rightarrow> nat \<Rightarrow> 's \<Rightarrow> 's \<times> signal \<times> ('w, 'r) outcome"
  ready :: "'w \<Rightarrow> 's \<Rightarrow> bool"
  resume :: "'w \<Rightarrow> nat \<Rightarrow> 's \<Rightarrow> 's \<times> 'r"
  expired :: "'w \<Rightarrow> 'r option"

text \<open>How the clients use it: which calls they make, and what they know from calls and results.\<close>

record ('o, 'r, 'g) client =
  may :: "'o \<Rightarrow> nat \<Rightarrow> 'g \<Rightarrow> bool"
  returned :: "'o option \<Rightarrow> 'r \<Rightarrow> nat \<Rightarrow> 'g \<Rightarrow> 'g"

record ('s, 'w, 'g) sys_state =
  shared :: 's
  asleep :: "(nat \<times> 'w) multiset"
  awake :: "(nat \<times> 'w) multiset"
  ones :: nat
  alls :: nat
  ghost :: 'g

definition sys_start :: "'s \<Rightarrow> 'g \<Rightarrow> ('s, 'w, 'g) sys_state" where
  "sys_start s g = \<lparr>shared = s, asleep = {#}, awake = {#}, ones = 0, alls = 0, ghost = g\<rparr>"

definition wake_all :: "('s, 'w, 'g) sys_state \<Rightarrow> ('s, 'w, 'g) sys_state" where
  "wake_all y = y\<lparr>asleep := {#}, awake := asleep y + awake y\<rparr>"

inductive wake_one :: "('s, 'w, 'g) sys_state \<Rightarrow> ('s, 'w, 'g) sys_state \<Rightarrow> bool" where
  nobody_asleep: "asleep y = {#} \<Longrightarrow> wake_one y y"
| somebody_woken: "asleep y = add_mset p A \<Longrightarrow> wake_one y (y\<lparr>asleep := A, awake := add_mset p (awake y)\<rparr>)"

inductive signalled :: "signal \<Rightarrow> ('s, 'w, 'g) sys_state \<Rightarrow> ('s, 'w, 'g) sys_state \<Rightarrow> bool" where
  silent: "signalled Silent y y"
| now_one: "wake_one y y' \<Longrightarrow> signalled Now_one y y'"
| now_all: "signalled Now_all y (wake_all y)"
| later_one: "signalled Later_one y (y\<lparr>ones := Suc (ones y)\<rparr>)"
| later_all: "signalled Later_all y (y\<lparr>alls := Suc (alls y)\<rparr>)"

text \<open>The steps of the threads and of the scheduler.\<close>

inductive mstep :: "('o, 's, 'w, 'r) code \<Rightarrow> ('o, 'r, 'g) client \<Rightarrow> ('s, 'w, 'g) sys_state \<Rightarrow> ('s, 'w, 'g) sys_state \<Rightarrow> bool"
  for cd cl where
  call_returns: "t \<notin># image_mset fst (asleep y + awake y) \<Longrightarrow> may cl a t (ghost y) \<Longrightarrow>
    call cd a t (shared y) = (s, sg, Returns r) \<Longrightarrow>
    signalled sg (y\<lparr>shared := s, ghost := returned cl (Some a) r t (ghost y)\<rparr>) y' \<Longrightarrow> mstep cd cl y y'"
| call_passes: "t \<notin># image_mset fst (asleep y + awake y) \<Longrightarrow> may cl a t (ghost y) \<Longrightarrow>
    call cd a t (shared y) = (s, sg, Waits w) \<Longrightarrow> ready cd w s \<Longrightarrow> resume cd w t s = (s', r) \<Longrightarrow>
    signalled sg (y\<lparr>shared := s', ghost := returned cl (Some a) r t (ghost y)\<rparr>) y' \<Longrightarrow> mstep cd cl y y'"
| call_blocks: "t \<notin># image_mset fst (asleep y + awake y) \<Longrightarrow> may cl a t (ghost y) \<Longrightarrow>
    call cd a t (shared y) = (s, sg, Waits w) \<Longrightarrow> \<not> ready cd w s \<Longrightarrow>
    signalled sg (y\<lparr>shared := s\<rparr>) y' \<Longrightarrow> mstep cd cl y (y'\<lparr>asleep := add_mset (t, w) (asleep y')\<rparr>)"
| wait_ends: "awake y = add_mset (t, w) A \<Longrightarrow> ready cd w (shared y) \<Longrightarrow> resume cd w t (shared y) = (s, r) \<Longrightarrow>
    mstep cd cl y (y\<lparr>shared := s, awake := A, ghost := returned cl None r t (ghost y)\<rparr>)"
| wait_again: "awake y = add_mset (t, w) A \<Longrightarrow> \<not> ready cd w (shared y) \<Longrightarrow>
    mstep cd cl y (y\<lparr>awake := A, asleep := add_mset (t, w) (asleep y)\<rparr>)"
| wait_expires: "awake y = add_mset (t, w) A \<Longrightarrow> \<not> ready cd w (shared y) \<Longrightarrow> expired cd w = Some r \<Longrightarrow>
    mstep cd cl y (y\<lparr>awake := A, ghost := returned cl None r t (ghost y)\<rparr>)"
| wakes_up: "asleep y = add_mset p A \<Longrightarrow> mstep cd cl y (y\<lparr>asleep := A, awake := add_mset p (awake y)\<rparr>)"
| one_delivered: "ones y = Suc n \<Longrightarrow> wake_one (y\<lparr>ones := n\<rparr>) y' \<Longrightarrow> mstep cd cl y y'"
| all_delivered: "alls y = Suc n \<Longrightarrow> mstep cd cl y (wake_all (y\<lparr>alls := n\<rparr>))"

inductive mrun :: "('o, 's, 'w, 'r) code \<Rightarrow> ('o, 'r, 'g) client \<Rightarrow> ('s, 'w, 'g) sys_state \<Rightarrow> ('s, 'w, 'g) sys_state \<Rightarrow> bool"
  for cd cl y0 where
  run_start: "mrun cd cl y0 y0"
| run_step: "mrun cd cl y0 y \<Longrightarrow> mstep cd cl y y' \<Longrightarrow> mrun cd cl y0 y'"

inductive_cases wake_oneE: "wake_one y y'"
inductive_cases signalledE: "signalled sg y y'"

lemma wake_all_sel [simp]:
  "shared (wake_all y) = shared y" "asleep (wake_all y) = {#}" "awake (wake_all y) = asleep y + awake y"
  "ones (wake_all y) = ones y" "alls (wake_all y) = alls y" "ghost (wake_all y) = ghost y"
  by (simp_all add: wake_all_def)

lemma sys_start_sel [simp]:
  "shared (sys_start s g) = s" "asleep (sys_start s g) = {#}" "awake (sys_start s g) = {#}"
  "ones (sys_start s g) = 0" "alls (sys_start s g) = 0" "ghost (sys_start s g) = g"
  by (simp_all add: sys_start_def)

text \<open>Signals move sleeping threads to the awake ones and change nothing else.\<close>

lemma wake_one_frame:
  assumes "wake_one y y'"
  shows "shared y' = shared y" "ghost y' = ghost y" "alls y' = alls y" "ones y' = ones y"
    "asleep y' + awake y' = asleep y + awake y" "asleep y' \<subseteq># asleep y" "asleep y' = {#} \<or> size (awake y') = Suc (size (awake y))"
  using assms by (auto elim!: wake_oneE)

lemma signalled_frame:
  assumes "signalled sg y y'"
  shows "shared y' = shared y" "ghost y' = ghost y" "asleep y' + awake y' = asleep y + awake y" "asleep y' \<subseteq># asleep y" "alls y \<le> alls y'"
  using assms by (auto elim!: signalledE dest: wake_one_frame)

lemma signalled_pending:
  assumes "signalled sg y y'" "asleep y' \<noteq> {#}"
  shows "ones y' + size (awake y') = ones y + size (awake y) + (if sg = Now_one \<or> sg = Later_one then 1 else 0)"
    "alls y' = alls y + (if sg = Later_all then 1 else 0)" "sg \<noteq> Now_all"
  using assms by (auto elim!: signalledE wake_oneE)

text \<open>Rule induction over the steps, with the shared state, the waiting threads and the knowledge of the clients.\<close>

lemma mrun_invariant:
  assumes "mrun cd cl y0 y" "P y0" "\<And>y y'. mrun cd cl y0 y \<Longrightarrow> P y \<Longrightarrow> mstep cd cl y y' \<Longrightarrow> P y'"
  shows "P y"
  using assms(1) by induction (use assms(2,3) in auto)

text \<open>A run goes on with a call that returns, passes or blocks.\<close>

lemma run_returns:
  assumes "mrun cd cl y0 y" "t \<notin># image_mset fst (asleep y + awake y)" "may cl a t (ghost y)" "call cd a t (shared y) = (s, sg, Returns r)"
    "signalled sg (y\<lparr>shared := s, ghost := returned cl (Some a) r t (ghost y)\<rparr>) y'"
  shows "mrun cd cl y0 y'"
  using run_step [OF assms(1) call_returns [OF assms(2-5)]] .

lemma run_passes:
  assumes "mrun cd cl y0 y" "t \<notin># image_mset fst (asleep y + awake y)" "may cl a t (ghost y)" "call cd a t (shared y) = (s, Silent, Waits w)"
    "ready cd w s" "resume cd w t s = (s', r)" "y' = y\<lparr>shared := s', ghost := returned cl (Some a) r t (ghost y)\<rparr>"
  shows "mrun cd cl y0 y'"
  using run_step [OF assms(1) call_passes [OF assms(2-6) silent]] assms(7) by simp

lemma run_blocks:
  assumes "mrun cd cl y0 y" "t \<notin># image_mset fst (asleep y + awake y)" "may cl a t (ghost y)" "call cd a t (shared y) = (s, Silent, Waits w)"
    "\<not> ready cd w s" "y' = y\<lparr>shared := s, asleep := add_mset (t, w) (asleep y)\<rparr>"
  shows "mrun cd cl y0 y'"
  using run_step [OF assms(1) call_blocks [OF assms(2-5) silent]] assms(6) by simp

text \<open>Who waits, asleep or awake; a step seen without signals and wake-ups.\<close>

definition waiters :: "('s, 'w, 'g) sys_state \<Rightarrow> (nat \<times> 'w) multiset" where
  "waiters y = asleep y + awake y"

lemma waiters_start [simp]: "waiters (sys_start s g) = {#}"
  by (simp add: waiters_def)

lemma mstep_visible:
  assumes "mstep cd cl y y'"
  obtains
    (returns) t a s sg r where "may cl a t (ghost y)" "call cd a t (shared y) = (s, sg, Returns r)"
      "shared y' = s" "waiters y' = waiters y" "ghost y' = returned cl (Some a) r t (ghost y)"
      "t \<notin># image_mset fst (waiters y)"
  | (passes) t a s sg w s' r where "may cl a t (ghost y)" "call cd a t (shared y) = (s, sg, Waits w)" "ready cd w s"
      "resume cd w t s = (s', r)" "shared y' = s'" "waiters y' = waiters y" "ghost y' = returned cl (Some a) r t (ghost y)"
      "t \<notin># image_mset fst (waiters y)"
  | (blocks) t a s sg w where "may cl a t (ghost y)" "call cd a t (shared y) = (s, sg, Waits w)" "\<not> ready cd w s"
      "shared y' = s" "waiters y' = add_mset (t, w) (waiters y)" "ghost y' = ghost y"
      "t \<notin># image_mset fst (waiters y)"
  | (resumes) t w W s r where "waiters y = add_mset (t, w) W" "ready cd w (shared y)" "resume cd w t (shared y) = (s, r)"
      "shared y' = s" "waiters y' = W" "ghost y' = returned cl None r t (ghost y)"
  | (expires) t w W r where "waiters y = add_mset (t, w) W" "\<not> ready cd w (shared y)" "expired cd w = Some r"
      "shared y' = shared y" "waiters y' = W" "ghost y' = returned cl None r t (ghost y)"
  | (same) "shared y' = shared y" "waiters y' = waiters y" "ghost y' = ghost y"
  using assms
proof cases
  case (call_returns t a s sg r)
  from signalled_frame [OF call_returns(4)] show thesis
    using returns call_returns(1-3) by (simp add: waiters_def)
next
  case (call_passes t a s sg w s' r)
  from signalled_frame [OF call_passes(6)] show thesis
    using passes call_passes(1-5) by (simp add: waiters_def)
next
  case (call_blocks t a s sg w z)
  from signalled_frame [OF call_blocks(6)] show thesis
    using blocks call_blocks(1-5) by (simp add: waiters_def)
next
  case (wait_ends t w A s r)
  then show thesis
    using resumes [of t w "asleep y + A" s r] by (simp add: waiters_def)
next
  case (wait_expires t w A r)
  then show thesis
    using expires [of t w "asleep y + A" r] by (simp add: waiters_def)
next
  case (one_delivered n)
  from wake_one_frame [OF one_delivered(2)] show thesis
    using same by (simp add: waiters_def)
qed (use same in \<open>simp_all add: waiters_def\<close>)

text \<open>Most classes never signal all threads after the release of the mutex.\<close>

lemma no_signal_to_all:
  assumes "mrun cd cl (sys_start s0 g0) y" "\<And>a t s s' sg out. call cd a t s = (s', sg, out) \<Longrightarrow> sg \<noteq> Later_all"
  shows "alls y = 0"
  using assms(1)
proof (rule mrun_invariant)
  show "alls y' = 0" if "alls y = 0" "mstep cd cl y y'" for y y'
    using that(2,1) by (cases rule: mstep.cases) (auto dest!: assms(2) elim!: signalledE wake_oneE)
qed simp

section \<open>Contracts of signals\<close>

text \<open>Nobody sleeps while his predicate holds, unless a signal to all is on its way.\<close>

definition nobody_overslept :: "('o, 's, 'w, 'r) code \<Rightarrow> ('s, 'w, 'g) sys_state \<Rightarrow> bool" where
  "nobody_overslept cd y \<longleftrightarrow> alls y > 0 \<or> (\<forall>(t, w) \<in># asleep y. \<not> ready cd w (shared y))"

text \<open>Whoever makes a predicate true tells all sleeping threads.  The laws are needed in the reachable states of the
  class only (\<open>ok\<close>).\<close>

locale broadcasting =
  fixes cd :: "('o, 's, 'w, 'r) code" and ok :: "'s \<Rightarrow> bool"
  assumes call_tells: "ok s \<Longrightarrow> call cd a t s = (s', sg, out) \<Longrightarrow> ready cd w s' \<Longrightarrow> \<not> ready cd w s \<Longrightarrow> sg = Now_all \<or> sg = Later_all"
    and call_ok: "ok s \<Longrightarrow> call cd a t s = (s', sg, Waits w) \<Longrightarrow> ok s'"
    and resume_quiet: "ok s \<Longrightarrow> resume cd v t s = (s', r) \<Longrightarrow> ready cd v s \<Longrightarrow> ready cd w s' \<Longrightarrow> ready cd w s"
begin

lemma signalled_overslept:
  assumes "nobody_overslept cd y" "signalled sg (y\<lparr>shared := s, ghost := g\<rparr>) y'"
    "\<And>w. ready cd w s \<Longrightarrow> \<not> ready cd w (shared y) \<Longrightarrow> sg = Now_all \<or> sg = Later_all"
  shows "nobody_overslept cd y'"
proof (cases "sg = Now_all \<or> sg = Later_all")
  case True
  then show ?thesis
    using assms(2) by (auto simp: nobody_overslept_def elim!: signalledE)
next
  case False
  have "asleep y' \<subseteq># asleep y" "shared y' = s" "alls y \<le> alls y'"
    using signalled_frame [OF assms(2)] by simp_all
  then show ?thesis
    using assms(1,3) False by (fastforce simp: nobody_overslept_def dest: mset_subset_eqD)
qed

lemma step_overslept:
  assumes "nobody_overslept cd y" "mstep cd cl y y'" and ok: "ok (shared y)"
  shows "nobody_overslept cd y'"
  using assms(2)
proof cases
  case (call_returns t a s sg r)
  then show ?thesis
    using signalled_overslept [OF assms(1)] call_tells [OF ok] by blast
next
  case (call_passes t a s sg w s' r)
  show ?thesis
    using signalled_overslept [OF assms(1) call_passes(6)] call_tells [OF ok call_passes(3)]
      resume_quiet [OF call_ok [OF ok call_passes(3)] call_passes(5,4)] by blast
next
  case (call_blocks t a s sg w z)
  have "signalled sg (y\<lparr>shared := s, ghost := ghost y\<rparr>) z"
    using call_blocks by simp
  then have "nobody_overslept cd z" "shared z = s"
    using signalled_overslept [OF assms(1)] call_tells [OF ok call_blocks(4)] signalled_frame by (blast, fastforce)
  then show ?thesis
    using call_blocks by (auto simp: nobody_overslept_def)
next
  case (wait_ends t w A s r)
  then show ?thesis
    using assms(1) resume_quiet [OF ok wait_ends(4,3)] by (fastforce simp: nobody_overslept_def)
next
  case (one_delivered n)
  then show ?thesis
    using assms(1) by (auto simp: nobody_overslept_def elim!: wake_oneE)
qed (use assms(1) in \<open>auto simp: nobody_overslept_def\<close>)

lemma no_lost_wakeup:
  assumes "mrun cd cl (sys_start s0 g0) y" "\<And>z. mrun cd cl (sys_start s0 g0) z \<Longrightarrow> ok (shared z)"
  shows "nobody_overslept cd y"
  using assms(1)
proof (rule mrun_invariant)
  show "nobody_overslept cd (sys_start s0 g0)"
    by (simp add: nobody_overslept_def)
  show "nobody_overslept cd z'" if "mrun cd cl (sys_start s0 g0) z" "nobody_overslept cd z" "mstep cd cl z z'" for z z'
    using step_overslept [OF that(2,3) assms(2) [OF that(1)]] .
qed

end

text \<open>There is a count of what can be taken; whoever adds one tells one thread, and whoever goes on after a wait
  takes one.  While threads sleep, enough others are awake or about to be woken.\<close>

definition enough_awake :: "('s \<Rightarrow> nat) \<Rightarrow> ('s, 'w, 'g) sys_state \<Rightarrow> bool" where
  "enough_awake avail y \<longleftrightarrow> asleep y = {#} \<or> alls y > 0 \<or> avail (shared y) \<le> ones y + size (awake y)"

locale handing_out =
  fixes cd :: "('o, 's, 'w, 'r) code" and avail :: "'s \<Rightarrow> nat"
  assumes avail_ready: "0 < avail s \<Longrightarrow> ready cd w s"
    and resume_takes: "ready cd w s \<Longrightarrow> resume cd w t s = (s', r) \<Longrightarrow> avail s' \<le> avail s - 1"
    and call_tells_one: "call cd a t s = (s', sg, out) \<Longrightarrow> sg = Now_all \<or> sg = Later_all \<or>
      avail s' \<le> avail s + (if sg = Now_one \<or> sg = Later_one then 1 else 0)"
begin

lemma signalled_enough:
  assumes "enough_awake avail y" "signalled sg (y\<lparr>shared := s, ghost := g\<rparr>) y'"
    "sg = Now_all \<or> sg = Later_all \<or> avail s \<le> avail (shared y) + (if sg = Now_one \<or> sg = Later_one then 1 else 0)"
  shows "enough_awake avail y'"
proof (cases "asleep y' = {#}")
  case False
  then have "asleep y \<noteq> {#}" "shared y' = s"
    using signalled_frame [OF assms(2)] by auto
  then show ?thesis
    using assms(1,3) signalled_pending [OF assms(2) False] by (auto simp: enough_awake_def split: if_splits)
qed (simp add: enough_awake_def)

lemma step_enough:
  assumes "enough_awake avail y" "mstep cd cl y y'"
  shows "enough_awake avail y'"
  using assms(2)
proof cases
  case (call_returns t a s sg r)
  then show ?thesis
    using signalled_enough [OF assms(1)] call_tells_one by blast
next
  case (call_passes t a s sg w s' r)
  have "avail s' \<le> avail s"
    using resume_takes [OF call_passes(4,5)] by simp
  then show ?thesis
    using signalled_enough [OF assms(1) call_passes(6)] call_tells_one [OF call_passes(3)] by (meson order_trans)
next
  case (call_blocks t a s sg w z)
  have "shared z = s"
    using signalled_frame(1) [OF call_blocks(6)] by simp
  then have "avail (shared z) = 0"
    using avail_ready call_blocks(5) by blast
  then show ?thesis
    using call_blocks(1) by (simp add: enough_awake_def)
next
  case (wait_ends t w A s r)
  then show ?thesis
    using assms(1) resume_takes [OF wait_ends(3,4)] by (auto simp: enough_awake_def)
next
  case (wait_again t w A)
  then have "avail (shared y) = 0"
    using avail_ready by blast
  then show ?thesis
    using wait_again by (simp add: enough_awake_def)
next
  case (wait_expires t w A r)
  then have "avail (shared y) = 0"
    using avail_ready by blast
  then show ?thesis
    using wait_expires by (simp add: enough_awake_def)
next
  case (one_delivered n)
  then show ?thesis
    using assms(1) by (auto simp: enough_awake_def elim!: wake_oneE)
qed (use assms(1) in \<open>auto simp: enough_awake_def\<close>)

lemma somebody_awake: "mrun cd cl (sys_start s0 g0) y \<Longrightarrow> enough_awake avail y"
  by (erule mrun_invariant) (simp add: enough_awake_def, rule step_enough)

end

end
