(* ===== verification/CC_Locks.thy ===== *)
theory CC_Locks
  imports CC_Monitor "HOL-Library.Word"
begin

text \<open>
  The synchronisation primitives of \<^verbatim>\<open>base/lock.cpp\<close>.  Each class is its state, its calls as critical sections
  under the internal mutex, the predicate of its waits and the code behind the wait, for the schedules of
  \<^verbatim>\<open>CC_Monitor\<close>.  The knowledge of the clients is who holds what; a client releases only what it holds.
\<close>

unbundle bit_operations_syntax

section \<open>Atomics\<close>

text \<open>Each operation gives its result and the new value; atomic arithmetic wraps.\<close>

type_synonym AtomicInteger = "32 word"

definition ai_load :: "AtomicInteger \<Rightarrow> 32 word" where
  "ai_load v = v"

definition ai_store :: "32 word \<Rightarrow> AtomicInteger \<Rightarrow> AtomicInteger" where
  "ai_store val v = val"

definition ai_exchange :: "32 word \<Rightarrow> AtomicInteger \<Rightarrow> 32 word \<times> AtomicInteger" where
  "ai_exchange new_val v = (v, new_val)"

text \<open>A weak exchange may fail for no reason (\<open>spurious\<close>).  The result is the success, the new value of
  \<open>expected\<close> and the new value.\<close>

definition ai_compare_exchange :: "bool \<Rightarrow> 32 word \<Rightarrow> 32 word \<Rightarrow> AtomicInteger \<Rightarrow> bool \<times> 32 word \<times> AtomicInteger" where
  "ai_compare_exchange spurious expected desired v =
     (if v = expected \<and> \<not> spurious then (True, expected, desired) else (False, v, v))"

definition ai_compare_exchange_strong :: "32 word \<Rightarrow> 32 word \<Rightarrow> AtomicInteger \<Rightarrow> bool \<times> 32 word \<times> AtomicInteger" where
  "ai_compare_exchange_strong expected desired v = (if v = expected then (True, expected, desired) else (False, v, v))"

definition ai_fetch_add :: "32 word \<Rightarrow> AtomicInteger \<Rightarrow> 32 word \<times> AtomicInteger" where
  "ai_fetch_add arg v = (v, v + arg)"

definition ai_fetch_sub :: "32 word \<Rightarrow> AtomicInteger \<Rightarrow> 32 word \<times> AtomicInteger" where
  "ai_fetch_sub arg v = (v, v - arg)"

definition ai_fetch_and :: "32 word \<Rightarrow> AtomicInteger \<Rightarrow> 32 word \<times> AtomicInteger" where
  "ai_fetch_and arg v = (v, v AND arg)"

definition ai_fetch_or :: "32 word \<Rightarrow> AtomicInteger \<Rightarrow> 32 word \<times> AtomicInteger" where
  "ai_fetch_or arg v = (v, v OR arg)"

definition ai_fetch_xor :: "32 word \<Rightarrow> AtomicInteger \<Rightarrow> 32 word \<times> AtomicInteger" where
  "ai_fetch_xor arg v = (v, v XOR arg)"

text \<open>Plain \<^verbatim>\<open>int\<close> arithmetic is undefined when it overflows.\<close>

definition int_add :: "32 word \<Rightarrow> 32 word \<Rightarrow> 32 word option" where
  "int_add a b = (let n = sint a + sint b in if - (2 ^ 31) \<le> n \<and> n < 2 ^ 31 then Some (a + b) else None)"

definition int_sub :: "32 word \<Rightarrow> 32 word \<Rightarrow> 32 word option" where
  "int_sub a b = (let n = sint a - sint b in if - (2 ^ 31) \<le> n \<and> n < 2 ^ 31 then Some (a - b) else None)"

definition ai_pre_increment :: "AtomicInteger \<Rightarrow> 32 word option \<times> AtomicInteger" where
  "ai_pre_increment v = (case ai_fetch_add 1 v of (old, v) \<Rightarrow> (int_add old 1, v))"

definition ai_post_increment :: "AtomicInteger \<Rightarrow> 32 word \<times> AtomicInteger" where
  "ai_post_increment v = ai_fetch_add 1 v"

definition ai_pre_decrement :: "AtomicInteger \<Rightarrow> 32 word option \<times> AtomicInteger" where
  "ai_pre_decrement v = (case ai_fetch_sub 1 v of (old, v) \<Rightarrow> (int_sub old 1, v))"

definition ai_post_decrement :: "AtomicInteger \<Rightarrow> 32 word \<times> AtomicInteger" where
  "ai_post_decrement v = ai_fetch_sub 1 v"

definition ai_add_assign :: "32 word \<Rightarrow> AtomicInteger \<Rightarrow> 32 word option \<times> AtomicInteger" where
  "ai_add_assign arg v = (case ai_fetch_add arg v of (old, v) \<Rightarrow> (int_add old arg, v))"

definition ai_sub_assign :: "32 word \<Rightarrow> AtomicInteger \<Rightarrow> 32 word option \<times> AtomicInteger" where
  "ai_sub_assign arg v = (case ai_fetch_sub arg v of (old, v) \<Rightarrow> (int_sub old arg, v))"

definition ap_load :: "'p \<Rightarrow> 'p" where
  "ap_load p = p"

definition ap_store :: "'p \<Rightarrow> 'p \<Rightarrow> 'p" where
  "ap_store new_ptr p = new_ptr"

definition ap_exchange :: "'p \<Rightarrow> 'p \<Rightarrow> 'p \<times> 'p" where
  "ap_exchange new_ptr p = (p, new_ptr)"

definition ap_compare_exchange :: "bool \<Rightarrow> 'p \<Rightarrow> 'p \<Rightarrow> 'p \<Rightarrow> bool \<times> 'p \<times> 'p" where
  "ap_compare_exchange spurious expected desired p =
     (if p = expected \<and> \<not> spurious then (True, expected, desired) else (False, p, p))"

section \<open>Exclusive locks\<close>

datatype lock_op = Lock | Try_lock | Try_lock_for | Try_lock_until | Unlock

datatype lock_ret = Acquired | Refused | Released

datatype lock_wait = Untimed | Timed

text \<open>The holders, as the clients know them: whoever acquired the lock and has not released it.\<close>

definition holders_after :: "lock_op option \<Rightarrow> lock_ret \<Rightarrow> nat \<Rightarrow> nat set \<Rightarrow> nat set" where
  "holders_after a r t H = (case r of Acquired \<Rightarrow> insert t H | Refused \<Rightarrow> H | Released \<Rightarrow> H - {t})"

definition lock_client :: "(lock_op, lock_ret, nat set) client" where
  "lock_client = \<lparr>may = (\<lambda>a t H. a = Unlock \<longrightarrow> t \<in> H), returned = holders_after\<rparr>"

record Mutex =
  locked :: bool

definition new_Mutex :: Mutex where
  "new_Mutex = \<lparr>locked = False\<rparr>"

definition mutex_lock :: "Mutex \<Rightarrow> Mutex \<times> signal \<times> (lock_wait, lock_ret) outcome" where
  "mutex_lock s = (s, Silent, Waits Untimed)"

definition mutex_try_lock :: "Mutex \<Rightarrow> Mutex \<times> signal \<times> (lock_wait, lock_ret) outcome" where
  "mutex_try_lock s =
     (if locked s then (s, Silent, Returns Refused) else (s\<lparr>locked := True\<rparr>, Silent, Returns Acquired))"

definition mutex_try_lock_for :: "Mutex \<Rightarrow> Mutex \<times> signal \<times> (lock_wait, lock_ret) outcome" where
  "mutex_try_lock_for s = (s, Silent, Waits Timed)"

definition mutex_try_lock_until :: "Mutex \<Rightarrow> Mutex \<times> signal \<times> (lock_wait, lock_ret) outcome" where
  "mutex_try_lock_until s = (s, Silent, Waits Timed)"

definition mutex_unlock :: "Mutex \<Rightarrow> Mutex \<times> signal \<times> (lock_wait, lock_ret) outcome" where
  "mutex_unlock s = (s\<lparr>locked := False\<rparr>, Later_one, Returns Released)"

fun mutex_call :: "lock_op \<Rightarrow> nat \<Rightarrow> Mutex \<Rightarrow> Mutex \<times> signal \<times> (lock_wait, lock_ret) outcome" where
  "mutex_call Lock t s = mutex_lock s"
| "mutex_call Try_lock t s = mutex_try_lock s"
| "mutex_call Try_lock_for t s = mutex_try_lock_for s"
| "mutex_call Try_lock_until t s = mutex_try_lock_until s"
| "mutex_call Unlock t s = mutex_unlock s"

definition timed_out :: "lock_wait \<Rightarrow> lock_ret option" where
  "timed_out w = (case w of Untimed \<Rightarrow> None | Timed \<Rightarrow> Some Refused)"

definition mutex_code :: "(lock_op, Mutex, lock_wait, lock_ret) code" where
  "mutex_code = \<lparr>call = mutex_call, ready = (\<lambda>w s. \<not> locked s), resume = (\<lambda>w t s. (s\<lparr>locked := True\<rparr>, Acquired)), expired = timed_out\<rparr>"

text \<open>The spin lock has a flag only.  A spinning thread tests the flag at times of its own: it is never told.  It has
  no timed operations.\<close>

record SpinLock =
  spin_flag :: bool

definition spin_try_lock :: "SpinLock \<Rightarrow> bool \<times> SpinLock" where
  "spin_try_lock s = (\<not> spin_flag s, s\<lparr>spin_flag := True\<rparr>)"

definition spin_unlock :: "SpinLock \<Rightarrow> SpinLock" where
  "spin_unlock s = s\<lparr>spin_flag := False\<rparr>"

definition max_spins_before_yield :: nat where
  "max_spins_before_yield = 64"

text \<open>The number of pauses before the next test, and whether the thread yields.\<close>

definition next_spin :: "nat \<Rightarrow> nat \<times> bool" where
  "next_spin spin_count =
     (let spin_count = min (spin_count * 2) max_spins_before_yield in
      if spin_count \<ge> max_spins_before_yield then (1, True) else (spin_count, False))"

text \<open>The loop of \<^verbatim>\<open>lock\<close>, on the outcomes of its tests: the pauses before each test up to the first success.\<close>

fun spin_pauses :: "nat \<Rightarrow> bool list \<Rightarrow> nat list" where
  "spin_pauses spin_count [] = []"
| "spin_pauses spin_count (taken # rest) =
     spin_count # (if taken then [] else spin_pauses (fst (next_spin spin_count)) rest)"

fun spin_call :: "lock_op \<Rightarrow> nat \<Rightarrow> SpinLock \<Rightarrow> SpinLock \<times> signal \<times> (lock_wait, lock_ret) outcome" where
  "spin_call Unlock t s = (spin_unlock s, Silent, Returns Released)"
| "spin_call Try_lock t s = (case spin_try_lock s of (ok, s) \<Rightarrow> (s, Silent, Returns (if ok then Acquired else Refused)))"
| "spin_call a t s = (s, Silent, Waits Untimed)"

definition spin_code :: "(lock_op, SpinLock, lock_wait, lock_ret) code" where
  "spin_code = \<lparr>call = spin_call, ready = (\<lambda>w s. fst (spin_try_lock s)), resume = (\<lambda>w t s. (snd (spin_try_lock s), Acquired)),
     expired = (\<lambda>w. None)\<rparr>"

section \<open>The recursive mutex\<close>

record RecursiveMutex =
  owner_thread :: "nat option"
  rec_count :: int

definition new_RecursiveMutex :: RecursiveMutex where
  "new_RecursiveMutex = \<lparr>owner_thread = None, rec_count = 0\<rparr>"

datatype rec_op = Rec_lock | Rec_try_lock | Rec_unlock

datatype rec_ret = Rec_acquired | Rec_refused | Rec_released | Rec_ignored

definition rec_lock :: "nat \<Rightarrow> RecursiveMutex \<Rightarrow> RecursiveMutex \<times> signal \<times> (unit, rec_ret) outcome" where
  "rec_lock t s =
     (if owner_thread s = Some t then (s\<lparr>rec_count := rec_count s + 1\<rparr>, Silent, Returns Rec_acquired)
      else (s, Silent, Waits ()))"

definition rec_resume :: "nat \<Rightarrow> RecursiveMutex \<Rightarrow> RecursiveMutex \<times> rec_ret" where
  "rec_resume t s = (s\<lparr>owner_thread := Some t, rec_count := 1\<rparr>, Rec_acquired)"

definition rec_try_lock :: "nat \<Rightarrow> RecursiveMutex \<Rightarrow> RecursiveMutex \<times> signal \<times> (unit, rec_ret) outcome" where
  "rec_try_lock t s =
     (if owner_thread s = Some t then (s\<lparr>rec_count := rec_count s + 1\<rparr>, Silent, Returns Rec_acquired)
      else if owner_thread s \<noteq> None then (s, Silent, Returns Rec_refused)
      else (s\<lparr>owner_thread := Some t, rec_count := 1\<rparr>, Silent, Returns Rec_acquired))"

definition rec_unlock :: "nat \<Rightarrow> RecursiveMutex \<Rightarrow> RecursiveMutex \<times> signal \<times> (unit, rec_ret) outcome" where
  "rec_unlock t s =
     (if owner_thread s \<noteq> Some t then (s, Silent, Returns Rec_ignored)
      else let s = s\<lparr>rec_count := rec_count s - 1\<rparr> in
        if rec_count s = 0 then (s\<lparr>owner_thread := None\<rparr>, Now_one, Returns Rec_released)
        else (s, Silent, Returns Rec_released))"

fun rec_call :: "rec_op \<Rightarrow> nat \<Rightarrow> RecursiveMutex \<Rightarrow> RecursiveMutex \<times> signal \<times> (unit, rec_ret) outcome" where
  "rec_call Rec_lock t s = rec_lock t s"
| "rec_call Rec_try_lock t s = rec_try_lock t s"
| "rec_call Rec_unlock t s = rec_unlock t s"

definition rec_code :: "(rec_op, RecursiveMutex, unit, rec_ret) code" where
  "rec_code = \<lparr>call = rec_call, ready = (\<lambda>w s. owner_thread s = None), resume = (\<lambda>w. rec_resume), expired = (\<lambda>w. None)\<rparr>"

text \<open>The clients count how often each thread has acquired and not released the lock; anybody may call anything.\<close>

definition rec_client :: "(rec_op, rec_ret, nat \<Rightarrow> nat) client" where
  "rec_client = \<lparr>may = (\<lambda>a t d. True),
     returned = (\<lambda>a r t d. case r of Rec_acquired \<Rightarrow> d(t := d t + 1) | Rec_released \<Rightarrow> d(t := d t - 1) | _ \<Rightarrow> d)\<rparr>"

section \<open>The read-write lock with waiting writers first\<close>

record RWLock2 =
  readers :: int
  writers_waiting :: int
  writer_active :: bool

definition new_RWLock2 :: RWLock2 where
  "new_RWLock2 = \<lparr>readers = 0, writers_waiting = 0, writer_active = False\<rparr>"

datatype rw_op = Read_lock | Read_unlock | Write_lock | Write_unlock | Try_read_lock | Try_write_lock

datatype rw_wait = For_reading | For_writing

datatype rw_ret = Read_granted | Write_granted | Read_done | Write_done | Denied

definition rw_read_unlock :: "RWLock2 \<Rightarrow> RWLock2 \<times> signal \<times> (rw_wait, rw_ret) outcome" where
  "rw_read_unlock s =
     (let s = s\<lparr>readers := readers s - 1\<rparr> in (s, if readers s = 0 then Now_all else Silent, Returns Read_done))"

definition rw_write_lock :: "RWLock2 \<Rightarrow> RWLock2 \<times> signal \<times> (rw_wait, rw_ret) outcome" where
  "rw_write_lock s = (s\<lparr>writers_waiting := writers_waiting s + 1\<rparr>, Silent, Waits For_writing)"

definition rw_write_unlock :: "RWLock2 \<Rightarrow> RWLock2 \<times> signal \<times> (rw_wait, rw_ret) outcome" where
  "rw_write_unlock s = (s\<lparr>writer_active := False\<rparr>, Now_all, Returns Write_done)"

definition rw_try_read_lock :: "RWLock2 \<Rightarrow> RWLock2 \<times> signal \<times> (rw_wait, rw_ret) outcome" where
  "rw_try_read_lock s =
     (if \<not> writer_active s \<and> writers_waiting s = 0 then (s\<lparr>readers := readers s + 1\<rparr>, Silent, Returns Read_granted)
      else (s, Silent, Returns Denied))"

definition rw_try_write_lock :: "RWLock2 \<Rightarrow> RWLock2 \<times> signal \<times> (rw_wait, rw_ret) outcome" where
  "rw_try_write_lock s =
     (if \<not> writer_active s \<and> readers s = 0
      then let s = s\<lparr>writers_waiting := writers_waiting s + 1\<rparr>;
               s = s\<lparr>writer_active := True\<rparr>;
               s = s\<lparr>writers_waiting := writers_waiting s - 1\<rparr>
           in (s, Silent, Returns Write_granted)
      else (s, Silent, Returns Denied))"

fun rw_call :: "rw_op \<Rightarrow> nat \<Rightarrow> RWLock2 \<Rightarrow> RWLock2 \<times> signal \<times> (rw_wait, rw_ret) outcome" where
  "rw_call Read_lock t s = (s, Silent, Waits For_reading)"
| "rw_call Read_unlock t s = rw_read_unlock s"
| "rw_call Write_lock t s = rw_write_lock s"
| "rw_call Write_unlock t s = rw_write_unlock s"
| "rw_call Try_read_lock t s = rw_try_read_lock s"
| "rw_call Try_write_lock t s = rw_try_write_lock s"

fun rw_ready :: "rw_wait \<Rightarrow> RWLock2 \<Rightarrow> bool" where
  "rw_ready For_reading s \<longleftrightarrow> \<not> writer_active s \<and> writers_waiting s = 0"
| "rw_ready For_writing s \<longleftrightarrow> \<not> writer_active s \<and> readers s = 0"

fun rw_resume :: "rw_wait \<Rightarrow> nat \<Rightarrow> RWLock2 \<Rightarrow> RWLock2 \<times> rw_ret" where
  "rw_resume For_reading t s = (s\<lparr>readers := readers s + 1\<rparr>, Read_granted)"
| "rw_resume For_writing t s = (s\<lparr>writers_waiting := writers_waiting s - 1, writer_active := True\<rparr>, Write_granted)"

definition rw_code :: "(rw_op, RWLock2, rw_wait, rw_ret) code" where
  "rw_code = \<lparr>call = rw_call, ready = rw_ready, resume = rw_resume, expired = (\<lambda>w. None)\<rparr>"

record rw_holders =
  reading :: "nat multiset"
  writing :: "nat set"

fun rw_returned :: "rw_ret \<Rightarrow> nat \<Rightarrow> rw_holders \<Rightarrow> rw_holders" where
  "rw_returned Read_granted t h = h\<lparr>reading := add_mset t (reading h)\<rparr>"
| "rw_returned Write_granted t h = h\<lparr>writing := insert t (writing h)\<rparr>"
| "rw_returned Read_done t h = h\<lparr>reading := reading h - {#t#}\<rparr>"
| "rw_returned Write_done t h = h\<lparr>writing := writing h - {t}\<rparr>"
| "rw_returned Denied t h = h"

definition rw_client :: "(rw_op, rw_ret, rw_holders) client" where
  "rw_client = \<lparr>may = (\<lambda>a t h. (a = Read_unlock \<longrightarrow> t \<in># reading h) \<and> (a = Write_unlock \<longrightarrow> t \<in> writing h)),
     returned = (\<lambda>a. rw_returned)\<rparr>"

definition num_readers :: "RWLock2 \<Rightarrow> int" where
  "num_readers s = readers s"

definition has_writer_active :: "RWLock2 \<Rightarrow> bool" where
  "has_writer_active s = writer_active s"

definition num_writers_waiting :: "RWLock2 \<Rightarrow> int" where
  "num_writers_waiting s = writers_waiting s"

section \<open>The read-write lock of the standard library\<close>

text \<open>\<^verbatim>\<open>RWLock\<close> hands its calls to a \<^verbatim>\<open>std::shared_mutex\<close>: shared by many or held by one.  Whom the standard
  library wakes is its own affair, so nobody is told here.\<close>

record shared_mutex =
  sharing :: nat
  exclusive :: bool

definition new_shared_mutex :: shared_mutex where
  "new_shared_mutex = \<lparr>sharing = 0, exclusive = False\<rparr>"

definition rwl_read_unlock :: "shared_mutex \<Rightarrow> shared_mutex" where
  "rwl_read_unlock s = s\<lparr>sharing := sharing s - 1\<rparr>"

definition rwl_write_unlock :: "shared_mutex \<Rightarrow> shared_mutex" where
  "rwl_write_unlock s = s\<lparr>exclusive := False\<rparr>"

definition rwl_try_read_lock :: "shared_mutex \<Rightarrow> bool \<times> shared_mutex" where
  "rwl_try_read_lock s = (if exclusive s then (False, s) else (True, s\<lparr>sharing := Suc (sharing s)\<rparr>))"

definition rwl_try_write_lock :: "shared_mutex \<Rightarrow> bool \<times> shared_mutex" where
  "rwl_try_write_lock s = (if exclusive s \<or> sharing s > 0 then (False, s) else (True, s\<lparr>exclusive := True\<rparr>))"

fun rwl_try :: "rw_wait \<Rightarrow> shared_mutex \<Rightarrow> bool \<times> shared_mutex" where
  "rwl_try For_reading s = rwl_try_read_lock s"
| "rwl_try For_writing s = rwl_try_write_lock s"

definition granted :: "rw_wait \<Rightarrow> rw_ret" where
  "granted w = (case w of For_reading \<Rightarrow> Read_granted | For_writing \<Rightarrow> Write_granted)"

definition rwl_attempt :: "rw_wait \<Rightarrow> shared_mutex \<Rightarrow> shared_mutex \<times> signal \<times> (rw_wait, rw_ret) outcome" where
  "rwl_attempt w s = (case rwl_try w s of (ok, s) \<Rightarrow> (s, Silent, Returns (if ok then granted w else Denied)))"

fun rwl_call :: "rw_op \<Rightarrow> nat \<Rightarrow> shared_mutex \<Rightarrow> shared_mutex \<times> signal \<times> (rw_wait, rw_ret) outcome" where
  "rwl_call Read_lock t s = (s, Silent, Waits For_reading)"
| "rwl_call Read_unlock t s = (rwl_read_unlock s, Silent, Returns Read_done)"
| "rwl_call Write_lock t s = (s, Silent, Waits For_writing)"
| "rwl_call Write_unlock t s = (rwl_write_unlock s, Silent, Returns Write_done)"
| "rwl_call Try_read_lock t s = rwl_attempt For_reading s"
| "rwl_call Try_write_lock t s = rwl_attempt For_writing s"

definition rwl_code :: "(rw_op, shared_mutex, rw_wait, rw_ret) code" where
  "rwl_code = \<lparr>call = rwl_call, ready = (\<lambda>w s. fst (rwl_try w s)), resume = (\<lambda>w t s. (snd (rwl_try w s), granted w)), expired = (\<lambda>w. None)\<rparr>"

text \<open>\<^verbatim>\<open>try_read_lock_for\<close> and \<^verbatim>\<open>try_write_lock_for\<close>: a loop over the readings of the clock and the outcomes of the
  attempts; \<open>None\<close> while it still runs.\<close>

fun rwl_try_for :: "int \<Rightarrow> (int \<times> bool) list \<Rightarrow> bool option" where
  "rwl_try_for deadline [] = None"
| "rwl_try_for deadline ((now, ok) # rest) =
     (if now < deadline then if ok then Some True else rwl_try_for deadline rest else Some False)"

section \<open>Semaphore, latch and barrier\<close>

record Semaphore =
  sem_count :: int
  sem_max :: int

definition new_Semaphore :: "int \<Rightarrow> Semaphore" where
  "new_Semaphore initial_count = \<lparr>sem_count = initial_count, sem_max = 2147483647\<rparr>"

datatype sem_op = Sem_wait | Sem_try_wait | Sem_wait_for | Sem_post | Sem_post_all

datatype sem_ret = Taken | Not_taken | Posted | Opened

definition sem_try_wait :: "Semaphore \<Rightarrow> Semaphore \<times> signal \<times> (lock_wait, sem_ret) outcome" where
  "sem_try_wait s =
     (if sem_count s > 0 then (s\<lparr>sem_count := sem_count s - 1\<rparr>, Silent, Returns Taken) else (s, Silent, Returns Not_taken))"

definition sem_post :: "Semaphore \<Rightarrow> Semaphore \<times> signal \<times> (lock_wait, sem_ret) outcome" where
  "sem_post s = (if sem_count s < sem_max s then s\<lparr>sem_count := sem_count s + 1\<rparr> else s, Later_one, Returns Posted)"

definition sem_post_all :: "Semaphore \<Rightarrow> Semaphore \<times> signal \<times> (lock_wait, sem_ret) outcome" where
  "sem_post_all s = (s\<lparr>sem_count := sem_max s\<rparr>, Later_all, Returns Opened)"

fun sem_call :: "sem_op \<Rightarrow> nat \<Rightarrow> Semaphore \<Rightarrow> Semaphore \<times> signal \<times> (lock_wait, sem_ret) outcome" where
  "sem_call Sem_wait t s = (s, Silent, Waits Untimed)"
| "sem_call Sem_try_wait t s = sem_try_wait s"
| "sem_call Sem_wait_for t s = (s, Silent, Waits Timed)"
| "sem_call Sem_post t s = sem_post s"
| "sem_call Sem_post_all t s = sem_post_all s"

definition sem_code :: "(sem_op, Semaphore, lock_wait, sem_ret) code" where
  "sem_code = \<lparr>call = sem_call, ready = (\<lambda>w s. sem_count s > 0), resume = (\<lambda>w t s. (s\<lparr>sem_count := sem_count s - 1\<rparr>, Taken)),
     expired = (\<lambda>w. case w of Untimed \<Rightarrow> None | Timed \<Rightarrow> Some Not_taken)\<rparr>"

text \<open>The clients count what was taken and posted, and note whether the semaphore was opened for all.\<close>

record sem_ghost =
  taken_count :: int
  posted_count :: int
  opened :: bool

definition sem_client :: "(sem_op, sem_ret, sem_ghost) client" where
  "sem_client = \<lparr>may = (\<lambda>a t g. True),
     returned = (\<lambda>a r t g. case r of Taken \<Rightarrow> g\<lparr>taken_count := taken_count g + 1\<rparr>
       | Posted \<Rightarrow> g\<lparr>posted_count := posted_count g + 1\<rparr> | Opened \<Rightarrow> g\<lparr>opened := True\<rparr> | Not_taken \<Rightarrow> g)\<rparr>"

record CountDownLatch =
  latch_count :: int

datatype latch_op = Latch_wait | Latch_wait_for | Count_down

datatype latch_ret = Passed | Gave_up | Counted

definition count_down :: "CountDownLatch \<Rightarrow> CountDownLatch \<times> signal \<times> (lock_wait, latch_ret) outcome" where
  "count_down s =
     (let s = (if latch_count s > 0 then s\<lparr>latch_count := latch_count s - 1\<rparr> else s) in
      (s, if latch_count s = 0 then Later_all else Silent, Returns Counted))"

fun latch_call :: "latch_op \<Rightarrow> nat \<Rightarrow> CountDownLatch \<Rightarrow> CountDownLatch \<times> signal \<times> (lock_wait, latch_ret) outcome" where
  "latch_call Latch_wait t s = (s, Silent, Waits Untimed)"
| "latch_call Latch_wait_for t s = (s, Silent, Waits Timed)"
| "latch_call Count_down t s = count_down s"

definition latch_code :: "(latch_op, CountDownLatch, lock_wait, latch_ret) code" where
  "latch_code = \<lparr>call = latch_call, ready = (\<lambda>w s. latch_count s = 0), resume = (\<lambda>w t s. (s, Passed)),
     expired = (\<lambda>w. case w of Untimed \<Rightarrow> None | Timed \<Rightarrow> Some Gave_up)\<rparr>"

text \<open>The clients know how often the latch was counted down and who has passed it.\<close>

record latch_ghost =
  downs :: int
  passed :: "nat set"

definition latch_client :: "(latch_op, latch_ret, latch_ghost) client" where
  "latch_client = \<lparr>may = (\<lambda>a t g. True),
     returned = (\<lambda>a r t g. case r of Passed \<Rightarrow> g\<lparr>passed := insert t (passed g)\<rparr>
       | Counted \<Rightarrow> g\<lparr>downs := downs g + 1\<rparr> | Gave_up \<Rightarrow> g)\<rparr>"

record CyclicBarrier =
  parties :: int
  bar_count :: int
  generation :: int

definition new_CyclicBarrier :: "int \<Rightarrow> CyclicBarrier" where
  "new_CyclicBarrier n =
     \<lparr>parties = (if n < 1 then 1 else n), bar_count = (if n < 1 then 1 else n), generation = 0\<rparr>"

datatype bar_op = Bar_wait | Bar_reset

datatype bar_ret = Arrived int | Was_reset

text \<open>A wait remembers the generation and the index of the arrival.\<close>

definition bar_wait :: "CyclicBarrier \<Rightarrow> CyclicBarrier \<times> signal \<times> (int \<times> int, bar_ret) outcome" where
  "bar_wait s =
     (let gen = generation s; s = s\<lparr>bar_count := bar_count s - 1\<rparr>; index = bar_count s in
      if index = 0 then (s\<lparr>generation := generation s + 1, bar_count := parties s\<rparr>, Now_all, Returns (Arrived index))
      else (s, Silent, Waits (gen, index)))"

definition bar_reset :: "CyclicBarrier \<Rightarrow> CyclicBarrier \<times> signal \<times> (int \<times> int, bar_ret) outcome" where
  "bar_reset s = (s\<lparr>generation := generation s + 1, bar_count := parties s\<rparr>, Now_all, Returns Was_reset)"

fun bar_call :: "bar_op \<Rightarrow> nat \<Rightarrow> CyclicBarrier \<Rightarrow> CyclicBarrier \<times> signal \<times> (int \<times> int, bar_ret) outcome" where
  "bar_call Bar_wait t s = bar_wait s"
| "bar_call Bar_reset t s = bar_reset s"

definition bar_code :: "(bar_op, CyclicBarrier, int \<times> int, bar_ret) code" where
  "bar_code = \<lparr>call = bar_call, ready = (\<lambda>w s. fst w \<noteq> generation s), resume = (\<lambda>w t s. (s, Arrived (snd w))), expired = (\<lambda>w. None)\<rparr>"

definition barrier_waiting :: "CyclicBarrier \<Rightarrow> int" where
  "barrier_waiting s = parties s - bar_count s"

section \<open>Guards and sharded locks\<close>

text \<open>A guard and the operations it performs on its lock.\<close>

record LockGuard =
  owned :: bool

definition guard_construct :: "lock_op list \<times> LockGuard" where
  "guard_construct = ([Lock], \<lparr>owned = True\<rparr>)"

definition guard_unlock :: "LockGuard \<Rightarrow> lock_op list \<times> LockGuard" where
  "guard_unlock g = ([Unlock], g\<lparr>owned := False\<rparr>)"

definition guard_destruct :: "LockGuard \<Rightarrow> lock_op list" where
  "guard_destruct g = (if owned g then [Unlock] else [])"

definition try_guard_construct :: "bool \<Rightarrow> lock_op list \<times> LockGuard" where
  "try_guard_construct taken = ([Try_lock], \<lparr>owned = taken\<rparr>)"

definition try_guard_unlock :: "LockGuard \<Rightarrow> lock_op list \<times> LockGuard" where
  "try_guard_unlock g = (if owned g then ([Unlock], g\<lparr>owned := False\<rparr>) else ([], g))"

definition try_guard_destruct :: "LockGuard \<Rightarrow> lock_op list" where
  "try_guard_destruct g = (if owned g then [Unlock] else [])"

definition read_guard_construct :: "rw_op list \<times> LockGuard" where
  "read_guard_construct = ([Read_lock], \<lparr>owned = True\<rparr>)"

definition read_guard_unlock :: "LockGuard \<Rightarrow> rw_op list \<times> LockGuard" where
  "read_guard_unlock g = ([Read_unlock], g\<lparr>owned := False\<rparr>)"

definition read_guard_destruct :: "LockGuard \<Rightarrow> rw_op list" where
  "read_guard_destruct g = (if owned g then [Read_unlock] else [])"

definition write_guard_construct :: "rw_op list \<times> LockGuard" where
  "write_guard_construct = ([Write_lock], \<lparr>owned = True\<rparr>)"

definition write_guard_unlock :: "LockGuard \<Rightarrow> rw_op list \<times> LockGuard" where
  "write_guard_unlock g = ([Write_unlock], g\<lparr>owned := False\<rparr>)"

definition write_guard_destruct :: "LockGuard \<Rightarrow> rw_op list" where
  "write_guard_destruct g = (if owned g then [Write_unlock] else [])"

record 'l ShardedLock =
  lock_shards :: "'l list"
  num_shards :: nat

definition new_ShardedLock :: "'l \<Rightarrow> nat \<Rightarrow> 'l ShardedLock" where
  "new_ShardedLock fresh n = \<lparr>lock_shards = replicate (if n = 0 then 1 else n) fresh, num_shards = (if n = 0 then 1 else n)\<rparr>"

definition get_shard :: "nat \<Rightarrow> 'l ShardedLock \<Rightarrow> 'l" where
  "get_shard hash l = lock_shards l ! (hash mod num_shards l)"

definition get_shard_key :: "(string \<Rightarrow> nat) \<Rightarrow> string \<Rightarrow> 'l ShardedLock \<Rightarrow> 'l" where
  "get_shard_key h key l = (let hash = h key in lock_shards l ! (hash mod num_shards l))"

end
