(* ===== verification/CC_Lock_Facts.thy ===== *)
theory CC_Lock_Facts
  imports CC_Locks
begin

text \<open>
  The locks exclude whom they promise to exclude, in every schedule of calls, signals, spurious wake-ups and
  timeouts, and no thread that could go on is left asleep.
\<close>

section \<open>Exclusive locks\<close>

text \<open>The contract of a lock with one holder.\<close>

locale exclusive_lock =
  fixes cd :: "(lock_op, 's, lock_wait, lock_ret) code" and held :: "'s \<Rightarrow> bool"
  assumes takes: "call cd a t s = (s', sg, Returns Acquired) \<Longrightarrow> \<not> held s \<and> held s'"
    and refuses: "call cd a t s = (s', sg, Returns Refused) \<Longrightarrow> held s' = held s"
    and releases: "call cd a t s = (s', sg, Returns Released) \<Longrightarrow> \<not> held s' \<and> a = Unlock"
    and waits: "call cd a t s = (s', sg, Waits w) \<Longrightarrow> held s' = held s"
    and resume_takes_it: "ready cd w s \<Longrightarrow> resume cd w t s = (s', r) \<Longrightarrow> \<not> held s \<and> held s' \<and> r = Acquired"
    and expire_refuses: "expired cd w = Some r \<Longrightarrow> r = Refused"
begin

lemma step_exclusive:
  assumes "mstep cd lock_client y y'" "(held (shared y) \<longleftrightarrow> ghost y \<noteq> {}) \<and> (\<forall>t \<in> ghost y. \<forall>u \<in> ghost y. t = u)"
  shows "(held (shared y') \<longleftrightarrow> ghost y' \<noteq> {}) \<and> (\<forall>t \<in> ghost y'. \<forall>u \<in> ghost y'. t = u)"
  using assms(1)
proof (cases rule: mstep_visible)
  case (returns t a s sg r)
  then show ?thesis
    using assms(2) by (cases r) (auto simp: lock_client_def holders_after_def dest: takes refuses releases)
next
  case (passes t a s sg w s' r)
  then show ?thesis
    using assms(2) waits [OF passes(2)] resume_takes_it [OF passes(3,4)] by (simp add: lock_client_def holders_after_def)
next
  case (blocks t a s sg w)
  then show ?thesis
    using assms(2) waits [OF blocks(2)] by simp
next
  case (resumes t w W s r)
  then show ?thesis
    using assms(2) resume_takes_it [OF resumes(2,3)] by (simp add: lock_client_def holders_after_def)
next
  case (expires t w W r)
  then show ?thesis
    using assms(2) expire_refuses [OF expires(3)] by (simp add: lock_client_def holders_after_def)
qed (use assms(2) in simp)

lemma exclusive:
  assumes "mrun cd lock_client (sys_start s0 {}) y" "\<not> held s0"
  shows "(held (shared y) \<longleftrightarrow> ghost y \<noteq> {}) \<and> (\<forall>t \<in> ghost y. \<forall>u \<in> ghost y. t = u)"
  using assms(1) by (rule mrun_invariant) (use assms(2) step_exclusive in auto)

end

lemmas lock_defs = mutex_code_def mutex_lock_def mutex_try_lock_def mutex_try_lock_for_def mutex_try_lock_until_def
  mutex_unlock_def timed_out_def spin_code_def spin_try_lock_def spin_unlock_def

interpretation mutex: exclusive_lock mutex_code locked
  by unfold_locales (auto simp: lock_defs elim!: mutex_call.elims split: if_splits lock_wait.splits)

interpretation spin: exclusive_lock spin_code spin_flag
  by unfold_locales (auto simp: lock_defs elim!: spin_call.elims split: if_splits)

interpretation mutex_signals: handing_out mutex_code "\<lambda>s. if locked s then 0 else 1"
  by unfold_locales (auto simp: lock_defs elim!: mutex_call.elims split: if_splits)

section \<open>The recursive mutex\<close>

definition rec_inv :: "(RecursiveMutex, unit, nat \<Rightarrow> nat) sys_state \<Rightarrow> bool" where
  "rec_inv y \<longleftrightarrow> (case owner_thread (shared y) of
       None \<Rightarrow> rec_count (shared y) = 0 \<and> (\<forall>t. ghost y t = 0)
     | Some u \<Rightarrow> 0 < ghost y u \<and> rec_count (shared y) = int (ghost y u) \<and> (\<forall>t. t \<noteq> u \<longrightarrow> ghost y t = 0))"

lemmas rec_defs = rec_code_def rec_client_def rec_lock_def rec_try_lock_def rec_unlock_def rec_resume_def Let_def

lemma rec_step:
  assumes "mstep rec_code rec_client y y'" "rec_inv y"
  shows "rec_inv y'"
  using assms(1)
proof (cases rule: mstep_visible)
  case (returns t a s sg r)
  show ?thesis
    using assms(2) returns(2) unfolding rec_inv_def returns(3,5)
    by (cases a) (auto simp: rec_defs split: if_splits option.splits)
next
  case (passes t a s sg w s' r)
  show ?thesis
    using assms(2) passes(2-4) unfolding rec_inv_def passes(5,7)
    by (cases a) (auto simp: rec_defs split: if_splits option.splits)
next
  case (blocks t a s sg w)
  show ?thesis
    using assms(2) blocks(2) unfolding rec_inv_def blocks(4,6)
    by (cases a) (auto simp: rec_defs split: if_splits option.splits)
next
  case (resumes t w W s r)
  show ?thesis
    using assms(2) resumes(2,3) unfolding rec_inv_def resumes(4,6)
    by (auto simp: rec_defs split: option.splits)
qed (use assms(2) in \<open>auto simp: rec_inv_def rec_code_def split: option.splits\<close>)

interpretation rec_signals: handing_out rec_code "\<lambda>s. if owner_thread s = None then 1 else 0"
proof (unfold_locales, goal_cases)
  case (3 a t s s' sg out)
  then show ?case
    by (cases a) (auto simp: rec_defs split: if_splits)
qed (auto simp: rec_defs split: if_splits)

section \<open>The read-write lock\<close>

definition writers_in_line :: "(nat \<times> rw_wait) multiset \<Rightarrow> nat" where
  "writers_in_line W = size (filter_mset (\<lambda>p. snd p = For_writing) W)"

definition rw_inv :: "(RWLock2, rw_wait, rw_holders) sys_state \<Rightarrow> bool" where
  "rw_inv y \<longleftrightarrow> readers (shared y) = int (size (reading (ghost y))) \<and>
     writers_waiting (shared y) = int (writers_in_line (waiters y)) \<and>
     (writer_active (shared y) \<longleftrightarrow> writing (ghost y) \<noteq> {}) \<and>
     (writing (ghost y) = {} \<or> is_singleton (writing (ghost y)) \<and> reading (ghost y) = {#})"

lemmas rw_defs = rw_code_def rw_client_def rw_read_unlock_def rw_write_lock_def rw_write_unlock_def
  rw_try_read_lock_def rw_try_write_lock_def Let_def

lemma writers_in_line_simps [simp]:
  "writers_in_line {#} = 0"
  "writers_in_line (add_mset (t, w) W) = (if w = For_writing then 1 else 0) + writers_in_line W"
  by (auto simp: writers_in_line_def)

lemma rw_step:
  assumes "mstep rw_code rw_client y y'" "rw_inv y"
  shows "rw_inv y'"
  using assms(1)
proof (cases rule: mstep_visible)
  case (returns t a s sg r)
  show ?thesis
  proof (cases "a = Read_unlock")
    case True
    then obtain R where "reading (ghost y) = add_mset t R"
      using returns(1) by (auto simp: rw_client_def dest: multi_member_split)
    then show ?thesis
      using assms(2) returns(2) True unfolding rw_inv_def returns(3-5) by (auto simp: rw_defs)
  next
    case False
    show ?thesis
      using assms(2) returns(1,2) False unfolding rw_inv_def returns(3-5)
      by (cases a) (auto simp: rw_defs is_singleton_def split: if_splits)
  qed
next
  case (passes t a s sg w s' r)
  show ?thesis
    using assms(2) passes(2-4) unfolding rw_inv_def passes(5-7)
    by (cases a) (auto simp: rw_defs is_singleton_def split: if_splits)
next
  case (blocks t a s sg w)
  show ?thesis
    using assms(2) blocks(2) unfolding rw_inv_def blocks(4-6)
    by (cases a) (auto simp: rw_defs split: if_splits)
next
  case (resumes t w W s r)
  show ?thesis
    using assms(2) resumes(2,3) unfolding rw_inv_def resumes(1,4-6)
    by (cases w) (auto simp: rw_defs is_singleton_def)
qed (use assms(2) in \<open>simp_all add: rw_inv_def rw_code_def\<close>)

interpretation rw_signals: broadcasting rw_code "\<lambda>s. 0 \<le> readers s \<and> 0 \<le> writers_waiting s"
proof (unfold_locales, goal_cases)
  case (1 s a t s' sg out w)
  then show ?case
    by (cases a; cases w) (auto simp: rw_defs split: if_splits)
next
  case (2 s a t s' sg w)
  then show ?case
    by (cases a) (auto simp: rw_defs split: if_splits)
next
  case (3 s v t s' r w)
  then show ?case
    by (cases v; cases w) (auto simp: rw_defs)
qed

section \<open>Semaphore, latch and barrier\<close>

definition sem_inv :: "int \<Rightarrow> (Semaphore, lock_wait, sem_ghost) sys_state \<Rightarrow> bool" where
  "sem_inv n y \<longleftrightarrow> sem_max (shared y) = 2147483647 \<and> 0 \<le> sem_count (shared y) \<and> sem_count (shared y) \<le> sem_max (shared y) \<and>
     (\<not> opened (ghost y) \<longrightarrow> taken_count (ghost y) + sem_count (shared y) \<le> n + posted_count (ghost y))"

lemmas sem_defs = sem_code_def sem_client_def sem_try_wait_def sem_post_def sem_post_all_def Let_def

lemma sem_step:
  assumes "mstep sem_code sem_client y y'" "sem_inv n y"
  shows "sem_inv n y'"
  using assms(1)
proof (cases rule: mstep_visible)
  case (returns t a s sg r)
  show ?thesis
    using assms(2) returns(2) unfolding sem_inv_def returns(3,5)
    by (cases a) (auto simp: sem_defs split: if_splits)
next
  case (passes t a s sg w s' r)
  show ?thesis
    using assms(2) passes(2-4) unfolding sem_inv_def passes(5,7)
    by (cases a) (auto simp: sem_defs split: if_splits)
next
  case (blocks t a s sg w)
  show ?thesis
    using assms(2) blocks(2) unfolding sem_inv_def blocks(4,6)
    by (cases a) (auto simp: sem_defs split: if_splits)
next
  case (resumes t w W s r)
  show ?thesis
    using assms(2) resumes(2,3) unfolding sem_inv_def resumes(4,6)
    by (auto simp: sem_defs)
next
  case (expires t w W r)
  show ?thesis
    using assms(2) expires(2,3) unfolding sem_inv_def expires(4,6)
    by (auto simp: sem_defs split: lock_wait.splits)
qed (use assms(2) in \<open>simp add: sem_inv_def\<close>)

interpretation sem_signals: handing_out sem_code "\<lambda>s. nat (sem_count s)"
proof (unfold_locales, goal_cases)
  case (3 a t s s' sg out)
  then show ?case
    by (cases a) (auto simp: sem_defs split: if_splits)
qed (auto simp: sem_defs)

definition latch_inv :: "int \<Rightarrow> (CountDownLatch, lock_wait, latch_ghost) sys_state \<Rightarrow> bool" where
  "latch_inv n y \<longleftrightarrow> latch_count (shared y) = max 0 (n - downs (ghost y)) \<and> (passed (ghost y) \<noteq> {} \<longrightarrow> n \<le> downs (ghost y)) \<and> 0 \<le> downs (ghost y)"

lemmas latch_defs = latch_code_def latch_client_def count_down_def Let_def

lemma latch_step:
  assumes "mstep latch_code latch_client y y'" "latch_inv n y"
  shows "latch_inv n y'"
  using assms(1)
proof (cases rule: mstep_visible)
  case (returns t a s sg r)
  show ?thesis
    using assms(2) returns(2) unfolding latch_inv_def returns(3,5)
    by (cases a) (auto simp: latch_defs max_def split: if_splits)
next
  case (passes t a s sg w s' r)
  show ?thesis
    using assms(2) passes(2-4) unfolding latch_inv_def passes(5,7)
    by (cases a) (auto simp: latch_defs max_def split: if_splits)
next
  case (blocks t a s sg w)
  show ?thesis
    using assms(2) blocks(2) unfolding latch_inv_def blocks(4,6)
    by (cases a) (auto simp: latch_defs)
next
  case (resumes t w W s r)
  show ?thesis
    using assms(2) resumes(2,3) unfolding latch_inv_def resumes(4,6)
    by (auto simp: latch_defs max_def split: if_splits)
next
  case (expires t w W r)
  show ?thesis
    using assms(2) expires(2,3) unfolding latch_inv_def expires(4,6)
    by (auto simp: latch_defs split: lock_wait.splits)
qed (use assms(2) in \<open>simp add: latch_inv_def\<close>)

interpretation latch_signals: broadcasting latch_code "\<lambda>s. True"
proof (unfold_locales, goal_cases)
  case (1 s a t s' sg out w)
  then show ?case
    by (cases a) (auto simp: latch_defs split: if_splits)
qed (auto simp: latch_defs)

text \<open>The waits of the current generation are those of the parties that have arrived.\<close>

definition bar_inv :: "int \<Rightarrow> (CyclicBarrier, int \<times> int, unit) sys_state \<Rightarrow> bool" where
  "bar_inv n y \<longleftrightarrow> parties (shared y) = n \<and> 0 < bar_count (shared y) \<and> bar_count (shared y) \<le> n \<and>
     int (size (filter_mset (\<lambda>p. fst (snd p) = generation (shared y)) (waiters y))) = n - bar_count (shared y) \<and>
     (\<forall>p \<in># waiters y. fst (snd p) \<le> generation (shared y) \<and> 0 < snd (snd p) \<and> snd (snd p) < n)"

definition bar_client :: "(bar_op, bar_ret, unit) client" where
  "bar_client = \<lparr>may = (\<lambda>a t g. True), returned = (\<lambda>a r t g. g)\<rparr>"

lemmas bar_defs = bar_code_def bar_wait_def bar_reset_def Let_def

lemma none_of_generation: "(\<forall>p \<in># W. fst (snd p) \<le> (g :: int)) \<Longrightarrow> filter_mset (\<lambda>p. fst (snd p) = g + 1) W = {#}"
  by (induction W) auto

lemma bar_step:
  assumes "mstep bar_code bar_client y y'" "bar_inv n y"
  shows "bar_inv n y'"
  using assms(1)
proof (cases rule: mstep_visible)
  case (returns t a s sg r)
  have "filter_mset (\<lambda>p. fst (snd p) = generation (shared y) + 1) (waiters y) = {#}"
    using assms(2) by (intro none_of_generation) (simp add: bar_inv_def)
  then show ?thesis
    using assms(2) returns(2) unfolding bar_inv_def returns(3,4)
    by (cases a) (auto simp: bar_defs split: if_splits)
next
  case (passes t a s sg w s' r)
  show ?thesis
    using passes(2,3) by (cases a) (auto simp: bar_defs split: if_splits)
next
  case (blocks t a s sg w)
  show ?thesis
    using assms(2) blocks(2) unfolding bar_inv_def blocks(4,5)
    by (cases a) (auto simp: bar_defs split: if_splits)
next
  case (resumes t w W s r)
  show ?thesis
    using assms(2) resumes(2,3) unfolding bar_inv_def resumes(1,4,5)
    by (auto simp: bar_defs)
next
  case (expires t w W r)
  then show ?thesis
    by (simp add: bar_code_def)
qed (use assms(2) in \<open>simp add: bar_inv_def\<close>)

interpretation bar_signals: broadcasting bar_code "\<lambda>s. True"
proof (unfold_locales, goal_cases)
  case (1 s a t s' sg out w)
  then show ?case
    by (cases a) (auto simp: bar_defs split: if_splits)
qed (auto simp: bar_defs)

section \<open>Properties of the locks\<close>

lemma start_ok:
  "rec_inv (sys_start new_RecursiveMutex (\<lambda>t. 0))" "rw_inv (sys_start new_RWLock2 \<lparr>reading = {#}, writing = {}\<rparr>)"
  "0 \<le> n \<Longrightarrow> n \<le> 2147483647 \<Longrightarrow> sem_inv n (sys_start (new_Semaphore n) \<lparr>taken_count = 0, posted_count = 0, opened = False\<rparr>)"
  "0 \<le> n \<Longrightarrow> latch_inv n (sys_start \<lparr>latch_count = n\<rparr> \<lparr>downs = 0, passed = {}\<rparr>)"
  "bar_inv (max 1 n) (sys_start (new_CyclicBarrier n) ())"
  by (simp_all add: rec_inv_def new_RecursiveMutex_def rw_inv_def new_RWLock2_def sem_inv_def new_Semaphore_def latch_inv_def
    bar_inv_def new_CyclicBarrier_def max_def)

text \<open>C22: in every schedule at most one thread holds the mutex, its flag says whether somebody does, and when nobody
  holds it while threads sleep, one of the waiting threads is awake or a signal that wakes one is under way; timed
  attempts, spurious wake-ups and threads that overtake are included.\<close>

theorem mutex_correct:
  assumes "mrun mutex_code lock_client (sys_start new_Mutex {}) y"
  shows "(locked (shared y) \<longleftrightarrow> ghost y \<noteq> {}) \<and> (\<forall>t u. {t, u} \<subseteq> ghost y \<longrightarrow> t = u) \<and>
    (ghost y = {} \<and> asleep y \<noteq> {#} \<longrightarrow> 0 < ones y + size (awake y))"
proof -
  have excl: "(locked (shared y) \<longleftrightarrow> ghost y \<noteq> {}) \<and> (\<forall>t \<in> ghost y. \<forall>u \<in> ghost y. t = u)"
    using mutex.exclusive [OF assms] by (simp add: new_Mutex_def)
  have "alls y = 0"
    using assms by (rule no_signal_to_all) (auto simp: lock_defs elim!: mutex_call.elims split: if_splits)
  then show ?thesis
    using mutex_signals.somebody_awake [OF assms] excl by (auto simp: enough_awake_def)
qed

theorem mutex_correct_witness:
  "\<exists>y. mrun mutex_code lock_client (sys_start new_Mutex {}) y \<and> asleep y = {#(2, Untimed)#} \<and> ghost y = {} \<and> 0 < ones y + size (awake y)"
proof -
  let ?y0 = "sys_start new_Mutex {} :: (Mutex, lock_wait, nat set) sys_state"
  let ?y1 = "?y0\<lparr>shared := \<lparr>locked = True\<rparr>, ghost := {1}\<rparr>"
  let ?y2 = "?y1\<lparr>asleep := {#(2, Untimed)#}\<rparr>"
  let ?y3 = "?y2\<lparr>shared := \<lparr>locked = False\<rparr>, ghost := {}, ones := 1\<rparr>"
  have "mrun mutex_code lock_client ?y0 ?y1"
    by (rule run_passes [OF run_start, of 1 _ _ Lock]) (simp add: lock_client_def lock_defs new_Mutex_def holders_after_def)+
  then have "mrun mutex_code lock_client ?y0 ?y2"
    by (rule run_blocks [of _ _ _ _ 2 Lock]) (simp add: lock_client_def lock_defs)+
  then have run: "mrun mutex_code lock_client ?y0 ?y3"
    by (rule run_returns [of _ _ _ _ 1 Unlock]) (simp add: lock_client_def lock_defs holders_after_def signalled.simps)+
  with mutex_correct [OF run] show ?thesis
    by (intro exI [of _ ?y3]) simp
qed

lemma rw_quiet: "call rw_code a t s = (s', sg, out) \<Longrightarrow> sg \<noteq> Later_all"
  by (cases a) (auto simp: rw_defs split: if_splits)

lemma writer_in_line: "writers_in_line W \<noteq> 0 \<Longrightarrow> \<exists>t. (t, For_writing) \<in># W"
  by (induction W) (auto split: if_splits)

text \<open>C21: in every schedule a writer of the read-write lock excludes every other writer and all readers, the counters
  are exact, while a writer waits no reader gets in, nobody sleeps who could go on, and when nobody holds the
  lock while threads wait, one of them is awake and can go on.\<close>

theorem rwlock2_correct:
  assumes "mrun rw_code rw_client (sys_start new_RWLock2 \<lparr>reading = {#}, writing = {}\<rparr>) y"
  shows "(writing (ghost y) = {} \<or> is_singleton (writing (ghost y)) \<and> reading (ghost y) = {#}) \<and>
    num_readers (shared y) = int (size (reading (ghost y))) \<and> num_writers_waiting (shared y) = int (writers_in_line (waiters y)) \<and>
    (0 < writers_in_line (waiters y) \<longrightarrow> \<not> rw_ready For_reading (shared y) \<and> snd (snd (rw_try_read_lock (shared y))) = Returns Denied) \<and>
    (\<forall>(t, w) \<in># asleep y. \<not> rw_ready w (shared y)) \<and>
    (reading (ghost y) = {#} \<and> writing (ghost y) = {} \<and> waiters y \<noteq> {#} \<longrightarrow> (\<exists>(t, w) \<in># awake y. rw_ready w (shared y)))"
proof -
  let ?y0 = "sys_start new_RWLock2 \<lparr>reading = {#}, writing = {}\<rparr>"
  have inv: "rw_inv z" if "mrun rw_code rw_client ?y0 z" for z
    using that by (rule mrun_invariant) (use start_ok(2) rw_step in blast)+
  note ok = inv [OF assms, unfolded rw_inv_def]
  have "alls y = 0"
    using assms by (rule no_signal_to_all) (erule rw_quiet)
  moreover have "nobody_overslept rw_code y"
    using assms by (rule rw_signals.no_lost_wakeup) (use inv in \<open>simp add: rw_inv_def\<close>)
  ultimately have sleep: "\<forall>(t, w) \<in># asleep y. \<not> rw_ready w (shared y)"
    by (simp add: nobody_overslept_def rw_code_def)
  have "\<exists>(t, w) \<in># awake y. rw_ready w (shared y)" if free: "reading (ghost y) = {#}" "writing (ghost y) = {}" and some: "waiters y \<noteq> {#}"
  proof -
    obtain t w where "(t, w) \<in># waiters y" "writers_in_line (waiters y) = 0 \<or> w = For_writing"
      using writer_in_line some by (metis multiset_nonemptyE surj_pair)
    moreover from this have "rw_ready w (shared y)"
      using ok free by (cases w) auto
    ultimately show ?thesis
      using sleep by (auto simp: waiters_def)
  qed
  then show ?thesis
    using ok sleep by (simp add: num_readers_def num_writers_waiting_def rw_try_read_lock_def)
qed

theorem rwlock2_correct_witness:
  "\<exists>y. mrun rw_code rw_client (sys_start new_RWLock2 \<lparr>reading = {#}, writing = {}\<rparr>) y \<and> waiters y = {#(2, For_writing)#} \<and>
     reading (ghost y) = {#1#} \<and> num_writers_waiting (shared y) = 1 \<and> snd (snd (rw_try_read_lock (shared y))) = Returns Denied"
proof -
  let ?y0 = "sys_start new_RWLock2 \<lparr>reading = {#}, writing = {}\<rparr> :: (RWLock2, rw_wait, rw_holders) sys_state"
  let ?y1 = "?y0\<lparr>shared := new_RWLock2\<lparr>readers := 1\<rparr>, ghost := \<lparr>reading = {#1#}, writing = {}\<rparr>\<rparr>"
  let ?y2 = "?y1\<lparr>shared := new_RWLock2\<lparr>readers := 1, writers_waiting := 1\<rparr>, asleep := {#(2, For_writing)#}\<rparr>"
  have "mrun rw_code rw_client ?y0 ?y1"
    by (rule run_passes [OF run_start, of 1 _ _ Read_lock]) (simp add: rw_defs new_RWLock2_def)+
  then have run: "mrun rw_code rw_client ?y0 ?y2"
    by (rule run_blocks [of _ _ _ _ 2 Write_lock]) (simp add: rw_defs new_RWLock2_def)+
  with rwlock2_correct [OF run] show ?thesis
    by (intro exI [of _ ?y2]) (simp add: waiters_def num_writers_waiting_def new_RWLock2_def)
qed

text \<open>C23: a barrier lets nobody pass before all its parties have arrived: the threads that wait in the current
  generation are exactly those that arrived, the generation ends with the last arrival or a reset only, its members
  are then told, and nobody sleeps who could go on.\<close>

theorem barrier_correct:
  assumes "mrun bar_code bar_client (sys_start (new_CyclicBarrier n) ()) y"
  shows "int (size (filter_mset (\<lambda>p. fst (snd p) = generation (shared y)) (waiters y))) = barrier_waiting (shared y) \<and>
    barrier_waiting (shared y) < max 1 n \<and>
    (\<forall>s sg out. bar_call Bar_wait t (shared y) = (s, sg, out) \<longrightarrow>
       (generation s \<noteq> generation (shared y) \<longleftrightarrow> barrier_waiting (shared y) = max 1 n - 1)) \<and>
    (\<forall>(t, gen, index) \<in># asleep y. gen = generation (shared y))"
proof -
  have inv: "bar_inv (max 1 n) y"
    using assms by (rule mrun_invariant) (use start_ok(5) bar_step in blast)+
  have "alls y = 0"
    using assms by (rule no_signal_to_all) (auto simp: bar_defs elim!: bar_call.elims split: if_splits)
  moreover have "nobody_overslept bar_code y"
    using bar_signals.no_lost_wakeup [OF assms] by simp
  ultimately have "\<forall>(t, gen, index) \<in># asleep y. gen = generation (shared y)"
    by (auto simp: nobody_overslept_def bar_code_def)
  then show ?thesis
    using inv by (auto simp: bar_inv_def barrier_waiting_def bar_wait_def Let_def)
qed

theorem barrier_correct_witness:
  "\<exists>y. mrun bar_code bar_client (sys_start (new_CyclicBarrier 2) ()) y \<and> asleep y = {#(1, 0, 1)#} \<and> barrier_waiting (shared y) = 1"
proof -
  let ?y0 = "sys_start (new_CyclicBarrier 2) () :: (CyclicBarrier, int \<times> int, unit) sys_state"
  let ?y1 = "?y0\<lparr>shared := new_CyclicBarrier 2\<lparr>bar_count := 1\<rparr>, asleep := {#(1, 0, 1)#}\<rparr>"
  have run: "mrun bar_code bar_client ?y0 ?y1"
    by (rule run_blocks [OF run_start, of 1 _ _ Bar_wait]) (simp add: bar_defs bar_client_def new_CyclicBarrier_def)+
  with barrier_correct [OF run] show ?thesis
    by (intro exI [of _ ?y1]) (simp add: waiters_def new_CyclicBarrier_def)
qed

text \<open>The recursive mutex, the semaphore and the latch.\<close>

theorem recursive_mutex_correct:
  assumes "mrun rec_code rec_client (sys_start new_RecursiveMutex (\<lambda>t. 0)) y" "0 < ghost y t" "0 < ghost y u"
  shows "t = u" "rec_count (shared y) = int (ghost y t)"
proof -
  have "rec_inv y"
    using assms(1) by (rule mrun_invariant) (use start_ok(1) rec_step in blast)+
  then show "t = u" "rec_count (shared y) = int (ghost y t)"
    using assms(2,3) by (auto simp: rec_inv_def split: option.splits) (metis less_irrefl)+
qed

theorem semaphore_bounded:
  assumes "mrun sem_code sem_client (sys_start (new_Semaphore n) \<lparr>taken_count = 0, posted_count = 0, opened = False\<rparr>) y"
    "0 \<le> n" "n \<le> 2147483647" "\<not> opened (ghost y)"
  shows "taken_count (ghost y) \<le> n + posted_count (ghost y)" "0 \<le> sem_count (shared y)"
proof -
  have "sem_inv n y"
    using assms(1) by (rule mrun_invariant) (use start_ok(3) [OF assms(2,3)] sem_step in blast)+
  then show "taken_count (ghost y) \<le> n + posted_count (ghost y)" "0 \<le> sem_count (shared y)"
    using assms(4) by (auto simp: sem_inv_def)
qed

theorem latch_opens_at_zero:
  assumes "mrun latch_code latch_client (sys_start \<lparr>latch_count = n\<rparr> \<lparr>downs = 0, passed = {}\<rparr>) y" "0 \<le> n" "t \<in> passed (ghost y)"
  shows "n \<le> downs (ghost y)"
proof -
  have "latch_inv n y"
    using assms(1) by (rule mrun_invariant) (use start_ok(4) [OF assms(2)] latch_step in blast)+
  then show ?thesis
    using assms(3) by (auto simp: latch_inv_def)
qed

text \<open>A latch made with a negative count never opens, however often it is counted down.\<close>

theorem negative_latch_stuck:
  assumes "mrun latch_code latch_client (sys_start \<lparr>latch_count = n\<rparr> g) y" "n < 0"
  shows "latch_count (shared y) = n"
  using assms(1)
proof (rule mrun_invariant)
  show "latch_count (shared z') = n" if "latch_count (shared z) = n" "mstep latch_code latch_client z z'" for z z'
    using that(2)
  proof (cases rule: mstep_visible)
    case (returns t a s sg r)
    show ?thesis
      using returns(2) that(1) assms(2) unfolding returns(3) by (cases a) (auto simp: latch_defs)
  next
    case (passes t a s sg w s' r)
    show ?thesis
      using passes(2-4) that(1) assms(2) unfolding passes(5) by (cases a) (auto simp: latch_defs)
  next
    case (blocks t a s sg w)
    show ?thesis
      using blocks(2) that(1) unfolding blocks(4) by (cases a) (auto simp: latch_defs)
  next
    case (resumes t w W s r)
    show ?thesis
      using resumes(3) that(1) unfolding resumes(4) by (simp add: latch_defs)
  qed (use that(1) in simp_all)
qed simp

text \<open>The destructor of a guard does not release twice, but \<^verbatim>\<open>unlock\<close> does: called a second time it releases a
  lock that meanwhile belongs to another thread.\<close>

theorem guard_unlock_twice:
  "guard_destruct (snd (guard_unlock g)) = []" "fst (guard_unlock (snd (guard_unlock g))) = [Unlock]"
  "fst (read_guard_unlock (snd (read_guard_unlock g))) = [Read_unlock]"
  "fst (write_guard_unlock (snd (write_guard_unlock g))) = [Write_unlock]"
  "fst (try_guard_unlock (snd (try_guard_unlock g))) = []"
  by (simp_all add: guard_destruct_def guard_unlock_def read_guard_unlock_def write_guard_unlock_def try_guard_unlock_def)

theorem shard_in_range: "hash mod num_shards (new_ShardedLock fresh n) < length (lock_shards (new_ShardedLock fresh n))"
  by (simp add: new_ShardedLock_def)

text \<open>The back-off doubles from 1 to 32 pauses and starts again after a yield: 64 pauses in a row never happen.\<close>

lemma next_spin_powers: "k \<in> {1, 2, 4, 8, 16, 32} \<Longrightarrow> fst (next_spin k) \<in> {1, 2, 4, 8, 16, 32}"
  by (auto simp: next_spin_def max_spins_before_yield_def)

theorem spin_pauses_powers: "k \<in> {1, 2, 4, 8, 16, 32} \<Longrightarrow> set (spin_pauses k tests) \<subseteq> {1, 2, 4, 8, 16, 32}"
proof (induction k tests rule: spin_pauses.induct)
  case (2 k taken rest)
  then show ?case
    using next_spin_powers [OF 2(2)] by (cases taken) auto
qed simp

section \<open>The read-write lock of the standard library\<close>

definition rwl_inv :: "(shared_mutex, rw_wait, rw_holders) sys_state \<Rightarrow> bool" where
  "rwl_inv y \<longleftrightarrow> sharing (shared y) = size (reading (ghost y)) \<and> (exclusive (shared y) \<longleftrightarrow> writing (ghost y) \<noteq> {}) \<and>
     (writing (ghost y) = {} \<or> is_singleton (writing (ghost y)) \<and> reading (ghost y) = {#})"

lemmas rwl_defs = rwl_code_def rw_client_def rwl_read_unlock_def rwl_write_unlock_def rwl_try_read_lock_def
  rwl_try_write_lock_def rwl_attempt_def granted_def

lemma rwl_step:
  assumes "mstep rwl_code rw_client y y'" "rwl_inv y"
  shows "rwl_inv y'"
  using assms(1)
proof (cases rule: mstep_visible)
  case (returns t a s sg r)
  show ?thesis
    using assms(2) returns(1,2) unfolding rwl_inv_def returns(3,5)
    by (cases a) (auto simp: rwl_defs is_singleton_def size_Diff_singleton split: if_splits prod.splits)
next
  case (passes t a s sg w s' r)
  show ?thesis
    using assms(2) passes(2-4) unfolding rwl_inv_def passes(5,7)
    by (cases a; cases w) (auto simp: rwl_defs is_singleton_def split: if_splits)
next
  case (blocks t a s sg w)
  show ?thesis
    using assms(2) blocks(2) unfolding rwl_inv_def blocks(4,6) by (cases a) (auto simp: rwl_defs split: if_splits prod.splits)
next
  case (resumes t w W s r)
  show ?thesis
    using assms(2) resumes(2,3) unfolding rwl_inv_def resumes(4,6)
    by (cases w) (auto simp: rwl_defs is_singleton_def split: if_splits)
qed (use assms(2) in \<open>auto simp: rwl_inv_def rwl_code_def\<close>)

theorem rwlock_exclusive:
  assumes "mrun rwl_code rw_client (sys_start new_shared_mutex \<lparr>reading = {#}, writing = {}\<rparr>) y"
  shows "writing (ghost y) = {} \<or> is_singleton (writing (ghost y)) \<and> reading (ghost y) = {#}"
proof -
  have "rwl_inv y"
    using assms by (rule mrun_invariant) (simp add: rwl_inv_def new_shared_mutex_def, use rwl_step in blast)
  then show ?thesis
    by (simp add: rwl_inv_def)
qed

text \<open>A timed attempt succeeds only by an attempt before the deadline, and ends with the first reading past it.\<close>

theorem rwl_try_for_in_time:
  "rwl_try_for deadline readings = Some True \<Longrightarrow> \<exists>(now, ok) \<in> set readings. ok \<and> now < deadline"
  "\<exists>(now, ok) \<in> set readings. deadline \<le> now \<Longrightarrow> rwl_try_for deadline readings \<noteq> None"
  by (induction deadline readings rule: rwl_try_for.induct) (auto split: if_splits)

end
