(* ===== verification/CC_Thread_Pool.thy ===== *)
theory CC_Thread_Pool
  imports CC_Monitor "HOL-Library.Word"
begin

text \<open>
  The thread pool of \<^verbatim>\<open>base/thread_pool.cpp\<close> and \<^verbatim>\<open>base/thread_pool.h\<close>: the task queue under its mutex and
  condition variable, the loop of the workers, and the stop of the pool.  The steps between two accesses to shared
  data are single calls; the place of each thread in its code is what the clients know.
\<close>

section \<open>Tasks\<close>

text \<open>A callable gives a value or throws; its task owns a promise, which is set once.\<close>

datatype pool_exn = Promise_already_satisfied | Thrown string

record 'v Task =
  func :: "unit \<Rightarrow> pool_exn + 'v"
  promise :: nat

type_synonym 'v promises = "nat \<Rightarrow> (pool_exn + 'v) option"

definition set_promise :: "nat \<Rightarrow> pool_exn + 'v \<Rightarrow> 'v promises \<Rightarrow> pool_exn + 'v promises" where
  "set_promise p v ps = (if ps p = None then Inr (ps(p \<mapsto> v)) else Inl Promise_already_satisfied)"

text \<open>\<^verbatim>\<open>TaskImpl::run\<close>, with the exception that leaves it, if any.\<close>

definition task_run :: "'v Task \<Rightarrow> 'v promises \<Rightarrow> 'v promises \<times> pool_exn option" where
  "task_run k ps =
     (case (case func k () of Inr v \<Rightarrow> set_promise (promise k) (Inr v) ps | Inl e \<Rightarrow> Inl e) of
        Inr ps \<Rightarrow> (ps, None)
      | Inl e \<Rightarrow> (case set_promise (promise k) (Inl e) ps of Inr ps \<Rightarrow> (ps, None) | Inl e \<Rightarrow> (ps, Some e)))"

section \<open>The pool\<close>

record 'v ThreadPool =
  num_threads :: nat
  tasks :: "'v Task list"
  stop_flag :: bool
  active_threads :: "64 word"
  submitted_tasks :: "64 word"
  promises_made :: nat
  promise_values :: "'v promises"

definition new_ThreadPool :: "nat \<Rightarrow> 'v ThreadPool" where
  "new_ThreadPool n = \<lparr>num_threads = (if n = 0 then 1 else n), tasks = [], stop_flag = False, active_threads = 0,
     submitted_tasks = 0, promises_made = 0, promise_values = Map.empty\<rparr>"

datatype 'v pool_op = Submit "unit \<Rightarrow> pool_exn + 'v" | Take_task | Count_in | Run_task "'v Task" | Count_out | Set_stop | Tell_all | Join_all | Queue_size

datatype 'v pool_ret = Submitted "'v Task" | Pool_stopped | Took "'v Task" | No_task | Done | Ran "'v Task" "pool_exn option" | First_stop bool | Size nat

definition submit :: "(unit \<Rightarrow> pool_exn + 'v) \<Rightarrow> 'v ThreadPool \<Rightarrow> 'v ThreadPool \<times> signal \<times> (unit, 'v pool_ret) outcome" where
  "submit f s =
     (let task = \<lparr>func = f, promise = promises_made s\<rparr>; s = s\<lparr>promises_made := Suc (promises_made s)\<rparr> in
      if stop_flag s then (s, Silent, Returns Pool_stopped)
      else (s\<lparr>tasks := tasks s @ [task], submitted_tasks := submitted_tasks s + 1\<rparr>, Later_one, Returns (Submitted task)))"

text \<open>\<^verbatim>\<open>take_task\<close>: the predicate of its wait, and what follows.\<close>

definition take_ready :: "'v ThreadPool \<Rightarrow> bool" where
  "take_ready s \<longleftrightarrow> tasks s \<noteq> [] \<or> stop_flag s"

definition take_task :: "'v ThreadPool \<Rightarrow> 'v ThreadPool \<times> 'v pool_ret" where
  "take_task s = (if stop_flag s \<and> tasks s = [] then (s, No_task) else (s\<lparr>tasks := tl (tasks s)\<rparr>, Took (hd (tasks s))))"

text \<open>\<^verbatim>\<open>stop\<close> sets the flag outside the mutex; who set it tells all workers, under the mutex; then it joins them.\<close>

definition set_stop :: "'v ThreadPool \<Rightarrow> 'v ThreadPool \<times> bool" where
  "set_stop s = (s\<lparr>stop_flag := True\<rparr>, \<not> stop_flag s)"

fun pool_call :: "'v pool_op \<Rightarrow> nat \<Rightarrow> 'v ThreadPool \<Rightarrow> 'v ThreadPool \<times> signal \<times> (unit, 'v pool_ret) outcome" where
  "pool_call (Submit f) t s = submit f s"
| "pool_call Take_task t s = (s, Silent, Waits ())"
| "pool_call Count_in t s = (s\<lparr>active_threads := active_threads s + 1\<rparr>, Silent, Returns Done)"
| "pool_call (Run_task k) t s =
     (case task_run k (promise_values s) of (ps, e) \<Rightarrow> (s\<lparr>promise_values := ps\<rparr>, Silent, Returns (Ran k e)))"
| "pool_call Count_out t s = (s\<lparr>active_threads := active_threads s - 1\<rparr>, Silent, Returns Done)"
| "pool_call Set_stop t s = (case set_stop s of (s, first) \<Rightarrow> (s, Silent, Returns (First_stop first)))"
| "pool_call Tell_all t s = (s, Now_all, Returns Done)"
| "pool_call Join_all t s = (s, Silent, Returns Done)"
| "pool_call Queue_size t s = (s, Silent, Returns (Size (length (tasks s))))"

definition pool_code :: "('v pool_op, 'v ThreadPool, unit, 'v pool_ret) code" where
  "pool_code = \<lparr>call = pool_call, ready = (\<lambda>w. take_ready), resume = (\<lambda>w t. take_task), expired = (\<lambda>w. None)\<rparr>"

section \<open>The threads\<close>

text \<open>A worker is before \<^verbatim>\<open>take_task\<close>, has a task, counts as active and has its task before it or behind it, or has
  left its loop.  Exceptions that leave a task are logged.\<close>

datatype 'v worker_pc = At_take | Got "'v Task" | Executing "'v Task" | Executed | Exited

fun worker_loop :: "'v worker_pc \<Rightarrow> 'v pool_ret \<Rightarrow> 'v worker_pc" where
  "worker_loop At_take (Took k) = Got k"
| "worker_loop At_take No_task = Exited"
| "worker_loop (Got k) Done = Executing k"
| "worker_loop (Executing k) (Ran k' e) = Executed"
| "worker_loop Executed Done = At_take"
| "worker_loop pc r = pc"

fun worker_may :: "'v worker_pc \<Rightarrow> 'v pool_op \<Rightarrow> bool" where
  "worker_may At_take a \<longleftrightarrow> a = Take_task"
| "worker_may (Got k) a \<longleftrightarrow> a = Count_in"
| "worker_may (Executing k) a \<longleftrightarrow> a = Run_task k \<or> (\<exists>f. a = Submit f) \<or> a = Queue_size"
| "worker_may Executed a \<longleftrightarrow> a = Count_out"
| "worker_may Exited a \<longleftrightarrow> False"

text \<open>What is known: the places of the workers, the tasks accepted, begun and finished so far, and the threads inside
  \<^verbatim>\<open>stop\<close>: before telling, before joining, and behind it.\<close>

record 'v pool_ghost =
  workers :: "'v worker_pc list"
  accepted :: "'v Task list"
  begun :: "'v Task list"
  finished :: "'v Task list"
  telling :: "nat set"
  joining :: "nat set"
  stopped :: "nat set"

definition pool_ghost0 :: "nat \<Rightarrow> 'v pool_ghost" where
  "pool_ghost0 n = \<lparr>workers = replicate (if n = 0 then 1 else n) At_take, accepted = [], begun = [], finished = [],
     telling = {}, joining = {}, stopped = {}\<rparr>"

fun pool_may :: "'v pool_op \<Rightarrow> nat \<Rightarrow> 'v pool_ghost \<Rightarrow> bool" where
  "pool_may a t g \<longleftrightarrow>
     (if t < length (workers g) then worker_may (workers g ! t) a
      else if t \<in> telling g then a = Tell_all
      else if t \<in> joining g then a = Join_all \<and> (\<forall>pc \<in> set (workers g). pc = Exited)
      else (\<exists>f. a = Submit f) \<or> a = Queue_size \<or> a = Set_stop)"

definition worker_returned :: "'v pool_ret \<Rightarrow> nat \<Rightarrow> 'v pool_ghost \<Rightarrow> 'v pool_ghost" where
  "worker_returned r t g = g\<lparr>workers := (workers g)[t := worker_loop (workers g ! t) r]\<rparr>"

fun pool_returned :: "'v pool_op option \<Rightarrow> 'v pool_ret \<Rightarrow> nat \<Rightarrow> 'v pool_ghost \<Rightarrow> 'v pool_ghost" where
  "pool_returned a (Submitted k) t g = g\<lparr>accepted := accepted g @ [k]\<rparr>"
| "pool_returned a (Took k) t g = worker_returned (Took k) t (g\<lparr>begun := begun g @ [k]\<rparr>)"
| "pool_returned a (Ran k e) t g = worker_returned (Ran k e) t (g\<lparr>finished := finished g @ [k]\<rparr>)"
| "pool_returned a (First_stop True) t g = g\<lparr>telling := insert t (telling g)\<rparr>"
| "pool_returned a (First_stop False) t g = g\<lparr>joining := insert t (joining g)\<rparr>"
| "pool_returned (Some Tell_all) r t g = g\<lparr>telling := telling g - {t}, joining := insert t (joining g)\<rparr>"
| "pool_returned (Some Join_all) r t g = g\<lparr>joining := joining g - {t}, stopped := insert t (stopped g)\<rparr>"
| "pool_returned a Pool_stopped t g = g"
| "pool_returned a (Size n) t g = g"
| "pool_returned a r t g = worker_returned r t g"

definition pool_client :: "('v pool_op, 'v pool_ret, 'v pool_ghost) client" where
  "pool_client = \<lparr>may = pool_may, returned = pool_returned\<rparr>"

end
