(* ===== verification/CC_Thread_Pool_Facts.thy ===== *)
theory CC_Thread_Pool_Facts
  imports CC_Thread_Pool
begin

text \<open>
  What the thread pool promises: tasks begin in the order of their submission, each runs once and its future holds
  what the callable gave, the counters are exact, no submitted task is forgotten by sleeping workers, and when
  \<^verbatim>\<open>stop\<close> returns all accepted tasks have run.
\<close>

lemmas tp_defs = pool_code_def pool_client_def submit_def take_ready_def take_task_def set_stop_def worker_returned_def Let_def

fun held :: "'v worker_pc \<Rightarrow> 'v Task list" where
  "held (Got k) = [k]"
| "held (Executing k) = [k]"
| "held pc = []"

fun counted :: "'v worker_pc \<Rightarrow> nat" where
  "counted (Executing k) = 1"
| "counted Executed = 1"
| "counted pc = 0"

definition in_hand :: "'v worker_pc list \<Rightarrow> 'v Task multiset" where
  "in_hand ws = mset (concat (map held ws))"

text \<open>One worker moves on.\<close>

lemma in_hand_update:
  "t < length ws \<Longrightarrow> in_hand (ws[t := pc]) + mset (held (ws ! t)) = in_hand ws + mset (held pc)"
  unfolding in_hand_def by (induction ws arbitrary: t) (auto split: nat.splits simp: nth_Cons')

lemma counted_update:
  "t < length ws \<Longrightarrow> sum_list (map counted (ws[t := pc])) + counted (ws ! t) = sum_list (map counted ws) + counted pc"
  by (induction ws arbitrary: t) (auto split: nat.splits simp: nth_Cons')

section \<open>Places of the threads\<close>

text \<open>Who waits is a worker at its take, and waits once; who left its loop found the pool stopped and the queue empty,
  which stays so.\<close>

definition places :: "'v ThreadPool \<Rightarrow> (nat \<times> unit) multiset \<Rightarrow> 'v pool_ghost \<Rightarrow> bool" where
  "places s W g \<longleftrightarrow> 0 < num_threads s \<and> length (workers g) = num_threads s \<and>
     (\<forall>(t, w) \<in># W. t < length (workers g) \<and> workers g ! t = At_take) \<and>
     (\<forall>t. count (image_mset fst W) t \<le> 1) \<and>
     (Exited \<in> set (workers g) \<longrightarrow> stop_flag s \<and> tasks s = []) \<and>
     (stopped g \<noteq> {} \<longrightarrow> set (workers g) \<subseteq> {Exited})"

abbreviation places_inv :: "('v ThreadPool, unit, 'v pool_ghost) sys_state \<Rightarrow> bool" where
  "places_inv y \<equiv> places (shared y) (waiters y) (ghost y)"

text \<open>The steps of the pool, one by one.  \<open>moved t pc g\<close> puts worker \<open>t\<close> to a new place.\<close>

definition moved :: "nat \<Rightarrow> 'v worker_pc \<Rightarrow> 'v pool_ghost \<Rightarrow> 'v pool_ghost" where
  "moved t pc g = g\<lparr>workers := (workers g)[t := pc]\<rparr>"

definition at_place :: "'v pool_ghost \<Rightarrow> nat \<Rightarrow> 'v worker_pc \<Rightarrow> bool" where
  "at_place g t pc \<longleftrightarrow> t < length (workers g) \<and> workers g ! t = pc"

definition set_aside :: "nat \<Rightarrow> (nat \<times> unit) multiset \<Rightarrow> (nat \<times> unit) multiset \<Rightarrow> bool" where
  "set_aside t W W' \<longleftrightarrow> t \<notin># image_mset fst W' \<and> (W' = W \<or> W = add_mset (t, ()) W')"

inductive pool_step :: "'v ThreadPool \<Rightarrow> (nat \<times> unit) multiset \<Rightarrow> 'v pool_ghost \<Rightarrow>
    'v ThreadPool \<Rightarrow> (nat \<times> unit) multiset \<Rightarrow> 'v pool_ghost \<Rightarrow> bool" for s W g where
  accepts: "\<not> stop_flag s \<Longrightarrow> promise k = promises_made s \<Longrightarrow>
    pool_step s W g (s\<lparr>promises_made := Suc (promises_made s), tasks := tasks s @ [k], submitted_tasks := submitted_tasks s + 1\<rparr>) W
      (g\<lparr>accepted := accepted g @ [k]\<rparr>)"
| refuses: "stop_flag s \<Longrightarrow> pool_step s W g (s\<lparr>promises_made := Suc (promises_made s)\<rparr>) W g"
| takes: "at_place g t At_take \<Longrightarrow> tasks s = k # rest \<Longrightarrow> set_aside t W W' \<Longrightarrow>
    pool_step s W g (s\<lparr>tasks := rest\<rparr>) W' (moved t (Got k) (g\<lparr>begun := begun g @ [k]\<rparr>))"
| leaves: "at_place g t At_take \<Longrightarrow> stop_flag s \<Longrightarrow> tasks s = [] \<Longrightarrow> set_aside t W W' \<Longrightarrow> pool_step s W g s W' (moved t Exited g)"
| waits: "at_place g t At_take \<Longrightarrow> t \<notin># image_mset fst W \<Longrightarrow> pool_step s W g s (add_mset (t, ()) W) g"
| counts_in: "at_place g t (Got k) \<Longrightarrow> pool_step s W g (s\<lparr>active_threads := active_threads s + 1\<rparr>) W (moved t (Executing k) g)"
| runs: "at_place g t (Executing k) \<Longrightarrow>
    pool_step s W g (s\<lparr>promise_values := fst (task_run k (promise_values s))\<rparr>) W (moved t Executed (g\<lparr>finished := finished g @ [k]\<rparr>))"
| counts_out: "at_place g t Executed \<Longrightarrow> pool_step s W g (s\<lparr>active_threads := active_threads s - 1\<rparr>) W (moved t At_take g)"
| sets_stop: "pool_step s W g (s\<lparr>stop_flag := True\<rparr>) W (g\<lparr>telling := T, joining := J\<rparr>)"
| tells: "pool_step s W g s W (g\<lparr>telling := T, joining := J\<rparr>)"
| joins: "set (workers g) \<subseteq> {Exited} \<Longrightarrow> pool_step s W g s W (g\<lparr>joining := J, stopped := insert t (stopped g)\<rparr>)"
| stays: "pool_step s W g s W g"

lemma pool_worker_may:
  assumes "worker_may pc a" "pool_call a t s = (s', sg, Returns r)"
  shows "(\<exists>k. pc = Got k \<and> a = Count_in) \<or> (\<exists>k. pc = Executing k \<and> (a = Run_task k \<or> (\<exists>f. a = Submit f) \<or> a = Queue_size)) \<or>
    pc = Executed \<and> a = Count_out"
  using assms by (cases pc) auto

lemma pool_returns:
  assumes may: "pool_may a t g" and call: "pool_call a t s = (s', sg, Returns r)"
  shows "pool_step s W g s' W (pool_returned (Some a) r t g)"
proof (cases a)
  case (Submit f)
  then show ?thesis
    using call accepts [of s "\<lparr>func = f, promise = promises_made s\<rparr>" W g] refuses [of s W g]
    by (auto simp: tp_defs split: if_splits)
next
  case Count_in
  then obtain k where "at_place g t (Got k)"
    using may by (cases "workers g ! t") (auto simp: at_place_def split: if_splits)
  then show ?thesis
    using counts_in [of g t k s W] Count_in call by (simp add: worker_returned_def moved_def at_place_def)
next
  case (Run_task k)
  then have "at_place g t (Executing k)"
    using may by (cases "workers g ! t") (auto simp: at_place_def split: if_splits)
  then show ?thesis
    using runs [of g t k s W] Run_task call by (auto simp: worker_returned_def moved_def at_place_def split: prod.splits)
next
  case Count_out
  then have "at_place g t Executed"
    using may by (cases "workers g ! t") (auto simp: at_place_def split: if_splits)
  then show ?thesis
    using counts_out [of g t s W] Count_out call by (simp add: worker_returned_def moved_def at_place_def)
next
  case Set_stop
  then show ?thesis
    using call sets_stop [where s = s and W = W and g = g and T = "insert t (telling g)" and J = "joining g"] sets_stop [where s = s and W = W and g = g and T = "telling g" and J = "insert t (joining g)"]
    by (cases "stop_flag s"; cases g) (auto simp: set_stop_def)
next
  case Tell_all
  then show ?thesis
    using call tells [where T = "telling g - {t}" and J = "insert t (joining g)"] by simp
next
  case Join_all
  then have "set (workers g) \<subseteq> {Exited}"
    using may by (cases "workers g ! t") (auto split: if_splits)
  then show ?thesis
    using call joins [where J = "joining g - {t}" and t = t] Join_all by simp
qed (use call stays [of s W g] in auto)

lemma pool_taken:
  assumes "take_ready s" "take_task s = (s', r)" "at_place g t At_take" "set_aside t W W'" "a = None \<or> a = Some Take_task"
  shows "pool_step s W g s' W' (pool_returned a r t g)"
proof (cases "tasks s")
  case Nil
  then show ?thesis
    using assms leaves [OF assms(3) _ Nil assms(4)] by (auto simp: tp_defs moved_def at_place_def)
next
  case (Cons k rest)
  then show ?thesis
    using assms takes [OF assms(3) Cons assms(4)] by (auto simp: tp_defs moved_def at_place_def)
qed

lemma mstep_pool:
  assumes "mstep pool_code pool_client y y'" "places_inv y"
  shows "pool_step (shared y) (waiters y) (ghost y) (shared y') (waiters y') (ghost y')"
  using assms(1)
proof (cases rule: mstep_visible)
  case (returns t a s sg r)
  then show ?thesis
    using pool_returns [of a t "ghost y" "shared y" s sg r "waiters y"] by (simp add: pool_code_def pool_client_def)
next
  case (passes t a s sg w s' r)
  then have "a = Take_task" "s = shared y"
    by (cases a; simp add: tp_defs split: if_splits prod.splits)+
  then have "at_place (ghost y) t At_take"
    using passes(1) by (cases "workers (ghost y) ! t") (auto simp: pool_client_def at_place_def split: if_splits)
  then show ?thesis
    using passes pool_taken [of "shared y" s' r "ghost y" t "waiters y" "waiters y" "Some a"] \<open>s = shared y\<close> \<open>a = Take_task\<close>
    by (simp add: pool_code_def pool_client_def set_aside_def)
next
  case (blocks t a s sg w)
  then have "a = Take_task" "s = shared y"
    by (cases a; simp add: tp_defs split: if_splits prod.splits)+
  then have "at_place (ghost y) t At_take"
    using blocks(1) by (cases "workers (ghost y) ! t") (auto simp: pool_client_def at_place_def split: if_splits)
  then show ?thesis
    using blocks waits [of "ghost y" t "waiters y" "shared y"] \<open>s = shared y\<close> by simp
next
  case (resumes t w W s r)
  have "count (image_mset fst (waiters y)) t \<le> 1"
    using assms(2) unfolding places_def by blast
  moreover have "at_place (ghost y) t At_take"
    using assms(2) resumes(1) by (auto simp: places_def at_place_def)
  moreover have "set_aside t (waiters y) W"
    using resumes(1) calculation(1) unfolding set_aside_def not_in_iff by simp
  ultimately have "at_place (ghost y) t At_take" "set_aside t (waiters y) W"
    by simp_all
  then show ?thesis
    using resumes pool_taken [of "shared y" s r "ghost y" t "waiters y" W None] by (simp add: pool_code_def pool_client_def)
next
  case (expires t w W r)
  then show ?thesis
    by (simp add: pool_code_def)
next
  case same
  then show ?thesis
    using stays by simp
qed

lemma moved_sel [simp]:
  "workers (moved t pc g) = (workers g)[t := pc]" "accepted (moved t pc g) = accepted g" "begun (moved t pc g) = begun g"
  "finished (moved t pc g) = finished g" "stopped (moved t pc g) = stopped g"
  by (simp_all add: moved_def)

lemma set_aside_waiters:
  assumes "set_aside t W W'" "\<forall>(u, w) \<in># W. u < length ws \<and> ws ! u = At_take" "\<forall>u. count (image_mset fst W) u \<le> 1"
  shows "\<forall>(u, w) \<in># W'. u < length (ws[t := pc]) \<and> ws[t := pc] ! u = At_take" "\<forall>u. count (image_mset fst W') u \<le> 1"
proof -
  have "W' \<subseteq># W" "t \<notin># image_mset fst W'"
    using assms(1) by (auto simp: set_aside_def)
  then have "u < length ws \<and> ws[t := pc] ! u = At_take" if "(u, w) \<in># W'" for u w
    using that bspec [OF assms(2), of "(u, w)"] by (cases "u = t") (auto simp: mset_subset_eqD rev_image_eqI)
  then show "\<forall>(u, w) \<in># W'. u < length (ws[t := pc]) \<and> ws[t := pc] ! u = At_take"
    by auto
  show "\<forall>u. count (image_mset fst W') u \<le> 1"
    using assms(3) image_mset_subseteq_mono [OF \<open>W' \<subseteq># W\<close>, of fst] by (meson mset_subset_eq_count order_trans)
qed

lemma busy_aside:
  assumes "places s W g" "at_place g t pc" "pc \<noteq> At_take"
  shows "set_aside t W W"
  using assms by (auto simp: places_def at_place_def set_aside_def)

lemma places_move:
  assumes inv: "places s W g" and place: "at_place g t pc0" "pc0 \<noteq> Exited" and aside: "set_aside t W W'"
    and exit: "pc = Exited \<Longrightarrow> stop_flag s' \<and> tasks s' = []"
    and s': "num_threads s' = num_threads s" "stop_flag s' = stop_flag s" "tasks s = [] \<Longrightarrow> tasks s' = []"
    and g': "workers g' = (workers g)[t := pc]" "stopped g' = stopped g"
  shows "places s' W' g'"
  unfolding places_def
proof (intro conjI impI)
  show "0 < num_threads s'" "length (workers g') = num_threads s'"
    using inv s'(1) g'(1) by (simp_all add: places_def)
  show "\<forall>(u, w) \<in># W'. u < length (workers g') \<and> workers g' ! u = At_take" "\<forall>u. count (image_mset fst W') u \<le> 1"
    using set_aside_waiters [OF aside, of "workers g"] inv unfolding g'(1) places_def by blast+
  show "stop_flag s'" "tasks s' = []" if "Exited \<in> set (workers g')"
  proof -
    have "pc = Exited \<or> Exited \<in> set (workers g)"
      using that set_update_subset_insert [of "workers g" t pc] unfolding g'(1) by blast
    then show "stop_flag s'" "tasks s' = []"
      using exit inv s'(2,3) by (auto simp: places_def)
  qed
  have "pc0 \<in> set (workers g)"
    using place(1) by (auto simp: at_place_def)
  then have "stopped g' = {}"
    using inv place(2) unfolding g'(2) places_def by blast
  then show "set (workers g') \<subseteq> {Exited}" if "stopped g' \<noteq> {}"
    using that by simp
qed

lemma places_step:
  assumes "pool_step s W g s' W' g'" "places s W g"
  shows "places s' W' g'"
  using assms(1)
proof cases
  case (takes t k rest)
  then show ?thesis
    using places_move [OF assms(2) takes(3) _ takes(5), of "Got k" s' g'] by simp
next
  case (leaves t)
  then show ?thesis
    using places_move [OF assms(2) leaves(3) _ leaves(6), of Exited s' g'] by simp
next
  case (waits t)
  then show ?thesis
    using assms(2) unfolding not_in_iff by (auto simp: places_def at_place_def)
next
  case (counts_in t k)
  then show ?thesis
    using places_move [OF assms(2) counts_in(4) _ busy_aside [OF assms(2) counts_in(4)], of "Executing k" s' g'] by simp
next
  case (runs t k)
  then show ?thesis
    using places_move [OF assms(2) runs(4) _ busy_aside [OF assms(2) runs(4)], of Executed s' g'] by simp
next
  case (counts_out t)
  then show ?thesis
    using places_move [OF assms(2) counts_out(4) _ busy_aside [OF assms(2) counts_out(4)], of At_take s' g'] by simp
qed (use assms(2) in \<open>auto simp: places_def\<close>)

section \<open>The work\<close>

text \<open>Every accepted task is queued, in hand or finished; what finished has its result, and the counters agree.\<close>

definition queue_ok :: "'v ThreadPool \<Rightarrow> 'v pool_ghost \<Rightarrow> bool" where
  "queue_ok s g \<longleftrightarrow> accepted g = begun g @ tasks s \<and> mset (begun g) = mset (finished g) + in_hand (workers g)"

definition promises_ok :: "'v ThreadPool \<Rightarrow> 'v pool_ghost \<Rightarrow> bool" where
  "promises_ok s g \<longleftrightarrow> distinct (map promise (accepted g)) \<and> (\<forall>k \<in> set (accepted g). promise k < promises_made s) \<and>
     (\<forall>k \<in> set (finished g). promise_values s (promise k) = Some (func k ())) \<and>
     dom (promise_values s) = promise ` set (finished g)"

definition counters_ok :: "'v ThreadPool \<Rightarrow> 'v pool_ghost \<Rightarrow> bool" where
  "counters_ok s g \<longleftrightarrow>
     active_threads s = of_nat (sum_list (map counted (workers g))) \<and> submitted_tasks s = of_nat (length (accepted g))"

lemma distinct_count_le: "distinct xs \<Longrightarrow> count (mset xs) a \<le> 1"
  by (induction xs) (auto simp: count_mset_0_iff)

lemma task_run_first: "ps (promise k) = None \<Longrightarrow> task_run k ps = (ps(promise k \<mapsto> func k ()), None)"
  by (auto simp: task_run_def set_promise_def split: sum.splits)

text \<open>A task in hand has not run: no other accepted task has its promise.\<close>

lemma in_hand_fresh:
  assumes "queue_ok s g" "promises_ok s g" "at_place g t pc" "k \<in> set (held pc)"
  shows "promise k \<notin> promise ` set (finished g)" "promise_values s (promise k) = None"
proof -
  have "pc \<in> set (workers g)"
    using assms(3) by (auto simp: at_place_def)
  then have "k \<in># in_hand (workers g)"
    using assms(4) by (auto simp: in_hand_def)
  then obtain H where H: "in_hand (workers g) = add_mset k H"
    by (metis mset_add)
  have "mset (map promise (begun g)) = image_mset promise (mset (finished g)) + add_mset (promise k) (image_mset promise H)"
    using assms(1) H by (simp add: queue_ok_def)
  moreover have "distinct (map promise (begun g))"
    using assms(1,2) by (auto simp: queue_ok_def promises_ok_def)
  from distinct_count_le [OF this] have "count (mset (map promise (begun g))) (promise k) \<le> 1" .
  ultimately have "count (mset (map promise (finished g))) (promise k) = 0"
    by simp
  then show *: "promise k \<notin> promise ` set (finished g)"
    unfolding count_mset_0_iff by simp
  then show "promise_values s (promise k) = None"
    using assms(2) unfolding promises_ok_def by blast
qed

lemma queue_step:
  assumes "pool_step s W g s' W' g'" "queue_ok s g"
  shows "queue_ok s' g'"
  using assms(1)
proof cases
  case (takes t k rest)
  then show ?thesis
    using assms(2) in_hand_update [of t "workers g" "Got k"] by (simp add: queue_ok_def at_place_def)
next
  case (leaves t)
  then show ?thesis
    using assms(2) in_hand_update [of t "workers g" Exited] by (simp add: queue_ok_def at_place_def)
next
  case (counts_in t k)
  then show ?thesis
    using assms(2) in_hand_update [of t "workers g" "Executing k"] by (simp add: queue_ok_def at_place_def)
next
  case (runs t k)
  then show ?thesis
    using assms(2) in_hand_update [of t "workers g" Executed] by (simp add: queue_ok_def at_place_def)
next
  case (counts_out t)
  then show ?thesis
    using assms(2) in_hand_update [of t "workers g" At_take] by (simp add: queue_ok_def at_place_def)
qed (use assms(2) in \<open>simp_all add: queue_ok_def\<close>)

lemma promises_step:
  assumes "pool_step s W g s' W' g'" "queue_ok s g" "promises_ok s g"
  shows "promises_ok s' g'"
  using assms(1)
proof cases
  case (accepts k)
  then show ?thesis
    using assms(3) by (auto simp: promises_ok_def)
next
  case (runs t k)
  have fresh: "promise k \<notin> promise ` set (finished g)" "promise_values s (promise k) = None"
    using in_hand_fresh [OF assms(2,3) runs(4), of k] by simp_all
  then show ?thesis
    using assms(3) unfolding runs(1,3) promises_ok_def by (auto simp: task_run_first)
qed (use assms(3) in \<open>auto simp: promises_ok_def\<close>)

lemma counters_step:
  assumes "pool_step s W g s' W' g'" "counters_ok s g"
  shows "counters_ok s' g'"
  using assms(1)
proof cases
  case (takes t k rest)
  then show ?thesis
    using assms(2) counted_update [of t "workers g" "Got k"] by (simp add: counters_ok_def at_place_def)
next
  case (leaves t)
  then show ?thesis
    using assms(2) counted_update [of t "workers g" Exited] by (simp add: counters_ok_def at_place_def)
next
  case (counts_in t k)
  then show ?thesis
    using assms(2) counted_update [of t "workers g" "Executing k"] by (simp add: counters_ok_def at_place_def)
next
  case (runs t k)
  then show ?thesis
    using assms(2) counted_update [of t "workers g" Executed] by (simp add: counters_ok_def at_place_def)
next
  case (counts_out t)
  then have "sum_list (map counted (workers g)) = Suc (sum_list (map counted (workers g')))"
    using counted_update [of t "workers g" At_take] by (simp add: at_place_def)
  then show ?thesis
    using assms(2) counts_out by (simp add: counters_ok_def)
qed (use assms(2) in \<open>simp_all add: counters_ok_def\<close>)

text \<open>All of it holds in every run.\<close>

definition tpool_inv :: "('v ThreadPool, unit, 'v pool_ghost) sys_state \<Rightarrow> bool" where
  "tpool_inv y \<longleftrightarrow> places_inv y \<and> queue_ok (shared y) (ghost y) \<and> promises_ok (shared y) (ghost y) \<and> counters_ok (shared y) (ghost y)"

lemma tpool_inv_start: "tpool_inv (sys_start (new_ThreadPool n) (pool_ghost0 n))"
  by (simp add: tpool_inv_def places_def queue_ok_def promises_ok_def counters_ok_def new_ThreadPool_def pool_ghost0_def
      in_hand_def sum_list_replicate)

lemma tpool_inv_step:
  assumes "mstep pool_code pool_client y y'" "tpool_inv y"
  shows "tpool_inv y'"
  using mstep_pool [OF assms(1)] assms(2) places_step queue_step promises_step counters_step unfolding tpool_inv_def by metis

abbreviation tpool_runs :: "nat \<Rightarrow> ('v ThreadPool, unit, 'v pool_ghost) sys_state \<Rightarrow> bool" where
  "tpool_runs n \<equiv> mrun pool_code pool_client (sys_start (new_ThreadPool n) (pool_ghost0 n))"

lemma tpool_runs_inv: "tpool_runs n y \<Longrightarrow> tpool_inv y"
  by (erule mrun_invariant) (use tpool_inv_start tpool_inv_step in blast)+

section \<open>Signals\<close>

text \<open>A submitted task wakes a worker, or one is awake already.\<close>

interpretation pool_signals: handing_out pool_code "\<lambda>s :: 'v ThreadPool. length (tasks s)"
proof (unfold_locales, goal_cases)
  case (3 a t s s' sg out)
  then show ?case
    by (cases a) (auto simp: tp_defs split: if_splits prod.splits)
qed (auto simp: tp_defs split: if_splits)

text \<open>Once \<^verbatim>\<open>stop\<close> has told the workers none sleeps.\<close>

lemma telling_returns:
  assumes "pool_call a t s = (s', sg, Returns r)"
  shows "sg = Now_all \<or> telling g \<subseteq> telling (pool_returned (Some a) r t g) \<and>
    (stop_flag s' \<longrightarrow> stop_flag s \<or> telling (pool_returned (Some a) r t g) \<noteq> {})"
proof (cases a)
  case Set_stop
  then show ?thesis
    using assms by (cases "stop_flag s") (auto simp: set_stop_def)
next
  case (Submit f)
  then show ?thesis
    using assms by (cases "stop_flag s") (auto simp: submit_def Let_def)
next
  case (Run_task k)
  then show ?thesis
    using assms by (cases "task_run k (promise_values s)") (auto simp: worker_returned_def)
qed (use assms in \<open>auto simp: worker_returned_def\<close>)

lemma telling_taken:
  assumes "take_task s = (s', r)" "a = None \<or> a = Some Take_task"
  shows "stop_flag s' = stop_flag s" "telling (pool_returned a r t g) = telling g"
  using assms by (auto simp: tp_defs split: if_splits)

lemma only_take_waits:
  assumes "pool_call a t s = (s', sg, Waits w)"
  shows "a = Take_task" "s' = s" "sg = Silent"
  using assms by (cases a; simp add: tp_defs split: if_splits prod.splits)+

definition all_told :: "('v ThreadPool, unit, 'v pool_ghost) sys_state \<Rightarrow> bool" where
  "all_told y \<longleftrightarrow> (stop_flag (shared y) \<longrightarrow> telling (ghost y) \<noteq> {} \<or> asleep y = {#})"

lemma all_told_step:
  assumes "mstep pool_code pool_client y y'" "all_told y"
  shows "all_told y'"
  using assms(1)
proof cases
  case (call_returns t a s sg r)
  have call: "pool_call a t (shared y) = (s, sg, Returns r)"
    using call_returns(3) by (simp add: pool_code_def)
  show ?thesis
  proof (cases "sg = Now_all")
    case True
    then show ?thesis
      using call_returns(4) by (auto simp: all_told_def elim!: signalledE)
  next
    case False
    then show ?thesis
      using telling_returns [OF call, of "ghost y"] signalled_frame [OF call_returns(4)] assms(2)
      by (auto simp: all_told_def pool_client_def)
  qed
next
  case (call_passes t a s sg w s' r)
  have call: "pool_call a t (shared y) = (s, sg, Waits w)"
    using call_passes(3) by (simp add: pool_code_def)
  show ?thesis
    using only_take_waits [OF call] telling_taken(1) [of s s' r "Some a"] telling_taken(2) [of s s' r "Some a" t "ghost y"] call_passes(5,6) assms(2)
    by (auto simp: all_told_def pool_code_def pool_client_def elim!: signalledE)
next
  case (call_blocks t a s sg w z)
  have call: "pool_call a t (shared y) = (s, sg, Waits w)"
    using call_blocks(4) by (simp add: pool_code_def)
  show ?thesis
    using only_take_waits [OF call] call_blocks(5,6) unfolding call_blocks(1)
    by (auto simp: all_told_def pool_code_def take_ready_def elim!: signalledE)
next
  case (wait_ends t w A s r)
  then show ?thesis
    using telling_taken(1) [of "shared y" s r None] telling_taken(2) [of "shared y" s r None t "ghost y"] assms(2) by (auto simp: all_told_def pool_code_def pool_client_def)
next
  case (wait_again t w A)
  then show ?thesis
    by (auto simp: all_told_def pool_code_def take_ready_def)
next
  case (one_delivered n)
  then show ?thesis
    using assms(2) by (auto simp: all_told_def elim!: wake_oneE)
qed (use assms(2) in \<open>auto simp: all_told_def pool_code_def\<close>)

lemma tpool_runs_told: "tpool_runs n y \<Longrightarrow> all_told y"
  by (erule mrun_invariant) (simp add: all_told_def new_ThreadPool_def, use all_told_step in blast)

lemma never_later_all: "pool_call a t s = (s', sg, out) \<Longrightarrow> sg \<noteq> Later_all"
  by (cases a) (auto simp: tp_defs split: if_splits prod.splits)

lemma no_later_all: "tpool_runs n y \<Longrightarrow> alls y = 0"
  by (erule no_signal_to_all) (simp add: pool_code_def never_later_all)

section \<open>What the pool promises\<close>

text \<open>C19: in every run of the thread pool, tasks begin in the order in which they were accepted, an accepted task is
  in the queue, in the hands of exactly one worker, or finished, it runs at most once, a future is set exactly when its
  task has finished, and then to what the callable returned or threw; the counters of submitted tasks and of active
  workers are exact.\<close>

theorem tasks_run_once:
  assumes "tpool_runs n y"
  shows "accepted (ghost y) = begun (ghost y) @ tasks (shared y) \<and>
    mset (accepted (ghost y)) = mset (finished (ghost y)) + in_hand (workers (ghost y)) + mset (tasks (shared y)) \<and>
    distinct (map promise (accepted (ghost y))) \<and>
    dom (promise_values (shared y)) = promise ` set (finished (ghost y)) \<and>
    (\<forall>k \<in> set (finished (ghost y)). promise_values (shared y) (promise k) = Some (func k ())) \<and>
    submitted_tasks (shared y) = of_nat (length (accepted (ghost y))) \<and>
    active_threads (shared y) = of_nat (sum_list (map counted (workers (ghost y))))"
  using tpool_runs_inv [OF assms] unfolding tpool_inv_def queue_ok_def promises_ok_def counters_ok_def
  by (elim conjE, intro conjI) (assumption | simp)+

text \<open>A pool of one worker; thread 5 submits a task that throws, the worker runs it, and thread 5 stops the pool.\<close>

definition demo_task :: "nat Task" where
  "demo_task = \<lparr>func = (\<lambda>_. Inl (Thrown ''boom'')), promise = 0\<rparr>"

definition demo_pool :: "nat Task list \<Rightarrow> bool \<Rightarrow> 64 word \<Rightarrow> nat promises \<Rightarrow> nat ThreadPool" where
  "demo_pool ts st act ps = \<lparr>num_threads = 1, tasks = ts, stop_flag = st, active_threads = act, submitted_tasks = 1,
     promises_made = 1, promise_values = ps\<rparr>"

definition demo_at :: "nat ThreadPool \<Rightarrow> nat worker_pc \<Rightarrow> nat Task list \<Rightarrow> nat Task list \<Rightarrow> nat set \<Rightarrow> nat set \<Rightarrow> nat set \<Rightarrow>
    (nat ThreadPool, unit, nat pool_ghost) sys_state" where
  "demo_at s pc b f te jn st = \<lparr>shared = s, asleep = {#}, awake = {#}, ones = 1, alls = 0,
     ghost = \<lparr>workers = [pc], accepted = [demo_task], begun = b, finished = f, telling = te, joining = jn, stopped = st\<rparr>\<rparr>"

lemmas demo_defs = demo_at_def demo_pool_def demo_task_def tp_defs new_ThreadPool_def pool_ghost0_def sys_start_def signalled.simps
  task_run_def set_promise_def

lemma demo_ran:
  "tpool_runs 1 (demo_at (demo_pool [] False 0 [0 \<mapsto> Inl (Thrown ''boom'')]) At_take [demo_task] [demo_task] {} {} {})"
proof -
  have "tpool_runs 1 (demo_at (demo_pool [demo_task] False 0 Map.empty) At_take [] [] {} {} {})"
    by (rule run_returns [OF run_start, of 5 _ _ "Submit (func demo_task)"]) (simp add: demo_defs)+
  then have "tpool_runs 1 (demo_at (demo_pool [] False 0 Map.empty) (Got demo_task) [demo_task] [] {} {} {})"
    by (rule run_passes [of _ _ _ _ 0 Take_task]) (simp add: demo_defs)+
  then have "tpool_runs 1 (demo_at (demo_pool [] False 1 Map.empty) (Executing demo_task) [demo_task] [] {} {} {})"
    by (rule run_returns [of _ _ _ _ 0 Count_in]) (simp add: demo_defs)+
  then have "tpool_runs 1 (demo_at (demo_pool [] False 1 [0 \<mapsto> Inl (Thrown ''boom'')]) Executed [demo_task] [demo_task] {} {} {})"
    by (rule run_returns [of _ _ _ _ 0 "Run_task demo_task"]) (simp add: demo_defs)+
  then show ?thesis
    by (rule run_returns [of _ _ _ _ 0 Count_out]) (simp add: demo_defs)+
qed

theorem tasks_run_once_witness:
  "\<exists>y :: (nat ThreadPool, unit, nat pool_ghost) sys_state. tpool_runs 1 y \<and> finished (ghost y) = [demo_task] \<and> tasks (shared y) = [] \<and>
     promise_values (shared y) 0 = Some (Inl (Thrown ''boom'')) \<and> submitted_tasks (shared y) = 1 \<and> active_threads (shared y) = 0"
  using tasks_run_once [OF demo_ran] demo_ran by (auto simp: demo_at_def demo_pool_def)

text \<open>C20: the pool forgets no task and no worker.  While a worker sleeps, each queued task has a worker awake or a
  signal on its way; after \<^verbatim>\<open>stop\<close> has told the workers none sleeps; a worker leaves its loop only when the
  pool is stopped and the queue empty; and when \<^verbatim>\<open>stop\<close> has returned all accepted tasks are finished.\<close>

theorem stop_drains_the_pool:
  assumes "tpool_runs n y"
  shows "(asleep y \<noteq> {#} \<longrightarrow> length (tasks (shared y)) \<le> ones y + size (awake y)) \<and>
    (stop_flag (shared y) \<and> telling (ghost y) = {} \<longrightarrow> asleep y = {#}) \<and>
    (Exited \<in> set (workers (ghost y)) \<longrightarrow> stop_flag (shared y) \<and> tasks (shared y) = []) \<and>
    (stopped (ghost y) \<noteq> {} \<longrightarrow> mset (finished (ghost y)) = mset (accepted (ghost y)) \<and> active_threads (shared y) = 0)"
proof (intro conjI impI; (elim conjE)?)
  show "length (tasks (shared y)) \<le> ones y + size (awake y)" if "asleep y \<noteq> {#}"
    using pool_signals.somebody_awake [OF assms] no_later_all [OF assms] that by (simp add: enough_awake_def)
  show "asleep y = {#}" if "stop_flag (shared y)" "telling (ghost y) = {}"
    using tpool_runs_told [OF assms] that by (simp add: all_told_def)
  have inv: "tpool_inv y"
    by (rule tpool_runs_inv [OF assms])
  then show "stop_flag (shared y)" "tasks (shared y) = []" if "Exited \<in> set (workers (ghost y))"
    using that by (simp_all add: tpool_inv_def places_def)
  assume "stopped (ghost y) \<noteq> {}"
  then have all: "set (workers (ghost y)) \<subseteq> {Exited}"
    using inv by (simp add: tpool_inv_def places_def)
  then have none: "in_hand (workers (ghost y)) = {#}" "sum_list (map counted (workers (ghost y))) = 0"
    by (auto simp: in_hand_def)
  have "workers (ghost y) \<noteq> []"
    using inv by (auto simp: tpool_inv_def places_def)
  then have "tasks (shared y) = []"
    using inv all by (cases "workers (ghost y)") (auto simp: tpool_inv_def places_def)
  then show "mset (finished (ghost y)) = mset (accepted (ghost y))"
    using inv none(1) by (simp add: tpool_inv_def queue_ok_def)
  show "active_threads (shared y) = 0"
    using inv none(2) by (simp add: tpool_inv_def counters_ok_def)
qed

theorem stop_drains_the_pool_witness:
  "\<exists>y :: (nat ThreadPool, unit, nat pool_ghost) sys_state. tpool_runs 1 y \<and> stopped (ghost y) = {5} \<and> mset (accepted (ghost y)) = {#demo_task#} \<and>
     mset (finished (ghost y)) = mset (accepted (ghost y)) \<and> active_threads (shared y) = 0"
proof -
  let ?ps = "[0 \<mapsto> Inl (Thrown ''boom'')] :: nat promises"
  have "tpool_runs 1 (demo_at (demo_pool [] True 0 ?ps) At_take [demo_task] [demo_task] {5} {} {})"
    using demo_ran by (rule run_returns [of _ _ _ _ 5 Set_stop]) (simp add: demo_defs)+
  then have "tpool_runs 1 (demo_at (demo_pool [] True 0 ?ps) At_take [demo_task] [demo_task] {} {5} {})"
    by (rule run_returns [of _ _ _ _ 5 Tell_all]) (simp add: demo_defs wake_all_def)+
  then have "tpool_runs 1 (demo_at (demo_pool [] True 0 ?ps) Exited [demo_task] [demo_task] {} {5} {})"
    by (rule run_passes [of _ _ _ _ 0 Take_task]) (simp add: demo_defs)+
  then have run: "tpool_runs 1 (demo_at (demo_pool [] True 0 ?ps) Exited [demo_task] [demo_task] {} {} {5})"
    by (rule run_returns [of _ _ _ _ 5 Join_all]) (simp add: demo_defs)+
  have "mset (finished (ghost (demo_at (demo_pool [] True 0 ?ps) Exited [demo_task] [demo_task] {} {} {5}))) =
      mset (accepted (ghost (demo_at (demo_pool [] True 0 ?ps) Exited [demo_task] [demo_task] {} {} {5})))"
    using stop_drains_the_pool [OF run] by (simp add: demo_at_def)
  then show ?thesis
    using run by (intro exI [of _ "demo_at (demo_pool [] True 0 ?ps) Exited [demo_task] [demo_task] {} {} {5}"])
      (simp add: demo_at_def demo_pool_def)
qed

end
