(* ===== verification/Spec2Isabelle.thy ===== *)
theory Spec2Isabelle
  imports CC_Buffer CC_Resp_Facts CC_Object_Codec CC_Keyspace CC_Commands CC_Rdb_Facts CC_Slots
    CC_Bus_Facts CC_System CC_Pool_Run CC_Lock_Facts CC_Thread_Pool_Facts
begin

text \<open>
  \<^bold>\<open>Verification development for ConcurrentCache\<close>, a Redis-compatible cache server in C++ (sources under
  \<^verbatim>\<open>src/\<close>).

  \<^bold>\<open>The program.\<close>  Clients send RESP commands over TCP.  A connection collects the bytes, the parser cuts
  them into commands, and the callback of its reactor checks the command against the role of the node and the
  owner of the slot, executes it on the sharded store, and hands writes to the replication manager.  The store
  expires keys lazily and by a background sweep and evicts keys at a limit.  Snapshots of the store are saved
  to and loaded from a file.  Nodes of a cluster exchange frames on a bus: gossip about nodes and slots, votes
  of a failover, replicated commands, and requests that move a key.

  \<^bold>\<open>The theories\<close>, in the order of the layers (paths relative to \<^verbatim>\<open>src/src\<close>):

  \<^item> \<^verbatim>\<open>CC_Prelude\<close>, \<^verbatim>\<open>CC_Base\<close>, \<^verbatim>\<open>CC_Memory\<close>: 64-bit arithmetic, decimal conversions of the
    standard library (\<^verbatim>\<open>stoll\<close>, \<^verbatim>\<open>from_chars\<close>), \<^verbatim>\<open>base/int_parse.h\<close>, \<^verbatim>\<open>base/range_clip.h\<close>, and
    integers as bytes in memory.
  \<^item> \<^verbatim>\<open>CC_Buffer\<close>: \<^verbatim>\<open>network/buffer.cpp\<close>, refined to a byte queue through a locale.
  \<^item> \<^verbatim>\<open>CC_Resp\<close>, \<^verbatim>\<open>CC_Resp_Facts\<close>: \<^verbatim>\<open>protocol/resp.cpp\<close>: the completeness scan, the parser and the
    encoders; what was encoded is parsed back from any chunking.
  \<^item> \<^verbatim>\<open>CC_Double\<close>, \<^verbatim>\<open>CC_Object\<close>, \<^verbatim>\<open>CC_Object_Codec\<close>: \<^verbatim>\<open>datatype/object.cpp\<close>: the five types of values,
    their operations, and the payload of DUMP and RESTORE with its round trip.
  \<^item> \<^verbatim>\<open>CC_Expire\<close>, \<^verbatim>\<open>CC_Storage\<close>, \<^verbatim>\<open>CC_Storage_Facts\<close>, \<^verbatim>\<open>CC_Keyspace\<close>: \<^verbatim>\<open>cache/\<close>: deadlines, the
    sharded store, eviction, the sweep.  \<^const>\<open>live\<close> and \<^const>\<open>live_ttl\<close> are the abstract specification: the
    value and the deadline a client can see.  Every operation is described on them, on every branch, and keeps
    the invariant \<^const>\<open>storage_ok\<close>.
  \<^item> \<^verbatim>\<open>CC_Commands\<close>, \<^verbatim>\<open>CC_Command_Facts\<close>: \<^verbatim>\<open>command/\<close>: the data commands with their replies.
  \<^item> \<^verbatim>\<open>CC_Rdb\<close>, \<^verbatim>\<open>CC_Rdb_Facts\<close>: \<^verbatim>\<open>persistence/\<close>: the file format, saving, loading and scheduling; what
    was saved is loaded, a file is checked before it is used, a failed save leaves the old file.
  \<^item> \<^verbatim>\<open>CC_Slots\<close>, \<^verbatim>\<open>CC_Bus\<close>, \<^verbatim>\<open>CC_Bus_Facts\<close>, \<^verbatim>\<open>CC_Cluster\<close>, \<^verbatim>\<open>CC_Cluster_Facts\<close>: \<^verbatim>\<open>cluster/\<close>: slots of
    keys, the frames and links of the bus, nodes, gossip, failure detection and failover.
  \<^item> \<^verbatim>\<open>CC_Replication\<close>, \<^verbatim>\<open>CC_Server\<close>, \<^verbatim>\<open>CC_Dispatch\<close>, \<^verbatim>\<open>CC_Server_Facts\<close>: \<^verbatim>\<open>cluster/replication_mgr.cpp\<close>,
    the commands that need the whole server (SAVE, INFO, CLUSTER), \<^verbatim>\<open>network/connection.cpp\<close>,
    \<^verbatim>\<open>network/sub_reactor.cpp\<close> and the handler of bus messages.  The record \<^typ>\<open>server\<close> holds the
    singletons of the program, the record \<^typ>\<open>world\<close> what an operation sees of its surroundings.
  \<^item> \<^verbatim>\<open>CC_Replication_Facts\<close>, \<^verbatim>\<open>CC_System\<close>: the composed server: what every run keeps, what reaches a
    replica, and that moving a key between nodes does not lose it.

  \<^bold>\<open>How the code is modelled.\<close>  An operation is a function from the old state to its result and the new state.
  One operation reads the clock once (\<^const>\<open>env_now\<close>) and is atomic, as it is under the lock of its shard; the
  interleaving of operations is a sequence of steps (\<^verbatim>\<open>reachable\<close>, \<^verbatim>\<open>cluster_run\<close>, \<^verbatim>\<open>server_run\<close>).  Exceptions and
  error replies are values.  64-bit integers are integers with the wrap-around written out, or words; hash
  tables are association lists in their order of iteration; doubles are bit patterns; shared cluster nodes live
  in an explicit heap.  The build is a release build: assertions are compiled out, log lines are left out, and
  memory allocation does not fail.

  \<^bold>\<open>Parameters.\<close>  What is not in \<^verbatim>\<open>src/\<close> is an argument: the hash function and random draws (record
  \<^typ>\<open>env\<close>), floating-point conversions (\<^typ>\<open>fp_lib\<close>, with the documented round trip of 17 digits as the
  hypothesis \<^const>\<open>g17_exact\<close>), the checksum of zlib (\<^typ>\<open>zlib\<close>), the outcome of system calls when saving
  (\<^typ>\<open>save_io\<close>), reads and writes on sockets (\<^typ>\<open>recv_result\<close>, \<^typ>\<open>send_result\<close>), name resolution and
  connection set-up (\<^typ>\<open>world\<close>).

  \<^bold>\<open>Bounds and fuel.\<close>  The parser recurses to the nesting limit of the code, 32 arrays, and its loops end
  because each round takes bytes from the input.  The decode loop of a link is a partial function; it is
  shown to end on every input.  Limits of the code (64 shards, 1024 evictions a round, 512 inbound links, 256 MB a frame,
  10 MB of replication buffer) are kept as they are.

  \<^bold>\<open>Not modelled.\<close>  The event loop, sockets, channels and acceptors (\<^verbatim>\<open>network/\<close> except the files above) are
  system calls and callbacks; logging, signals and the thread pool (\<^verbatim>\<open>base/\<close>) do not change the state of the
  server.  The memory pool is not used by the other components; the values of the configuration are
  parameters, the locks are the atomicity of the operations, and \<^verbatim>\<open>main.cpp\<close> wires the components.
\<close>

end
